(* ===== verification/Prelude.thy ===== *)
theory Prelude
  imports Main "HOL-Library.Word"
begin

text \<open>
  Shared vocabulary of the development: the byte-string type of the wire and of
  \<^verbatim>\<open>std::string\<close>, the fact collections the component theories fill, and generic
  lemmas on lists, options and words that several components use.
\<close>

section \<open>Types\<close>

text \<open>
  A \<^verbatim>\<open>std::string\<close> is a sequence of bytes; HOL's \<^typ>\<open>char\<close> is exactly one byte
  (eight bits), so a C++ string is a HOL \<^typ>\<open>string\<close>.
\<close>

type_synonym bytes = string

text \<open>
  The Connector's time is \<^verbatim>\<open>wxGetLocalTimeMillis()\<close>, a millisecond clock; timeouts
  are \<^verbatim>\<open>size_t\<close> milliseconds.
\<close>

type_synonym millis = nat

named_theorems wire_simps
  "equations that evaluate the wire model (frames, socket steps) on concrete data"

named_theorems loop_simps
  "unfolding equations of the polling loops, used on concrete runs"

section \<open>Lists\<close>

lemma take_append_prefix [simp]:
  "n = length xs \<Longrightarrow> take n (xs @ ys) = xs"
  by simp

lemma drop_append_prefix [simp]:
  "n = length xs \<Longrightarrow> drop n (xs @ ys) = ys"
  by simp

lemma strict_prefix_length:
  "xs @ ys = zs \<Longrightarrow> ys \<noteq> [] \<Longrightarrow> length xs < length zs"
  by auto

section \<open>Bytes and chars\<close>

text \<open>Four little-endian digits of base 256 recompose any number below \<open>2 ^ 32\<close>.\<close>

lemma base256_4_recompose:
  fixes n :: nat
  assumes "n < 2 ^ 32"
  shows "n mod 256 + 256 * (n div 256 mod 256) + 65536 * (n div 65536 mod 256)
           + 16777216 * (n div 16777216 mod 256) = n"
proof -
  have d: "n div 16777216 mod 256 = n div 16777216" using assms by simp
  have a: "n div 256 div 256 = n div 65536" and b: "n div 65536 div 256 = n div 16777216"
    by (simp_all add: div_mult2_eq [symmetric])
  have "n = n mod 256 + 256 * (n div 256)" by simp
  moreover have "n div 256 = n div 256 mod 256 + 256 * (n div 65536)"
    using a mod_div_mult_eq [of "n div 256" 256] by simp
  moreover have "n div 65536 = n div 65536 mod 256 + 256 * (n div 16777216)"
    using b mod_div_mult_eq [of "n div 65536" 256] by simp
  ultimately show ?thesis using d by linarith
qed

lemma map_nth_upt_take: "n \<le> length xs \<Longrightarrow> map (\<lambda>i. xs ! i) [0..<n] = take n xs"
  by (rule nth_equalityI) auto

end
