(* ===== verification/Frame.thy ===== *)
theory Frame
  imports Prelude
begin

text \<open>
  The frame codec (\<^verbatim>\<open>CTCPStack\<close>): every message on the loopback connection is a
  four-byte little-endian unsigned length followed by that many payload bytes.
  \<^verbatim>\<open>CTCPStack\<close> is not part of \<^verbatim>\<open>src/\<close>: it is modelled from the specification
  (section 4.1 and the wire format of section 6) and from how \<^verbatim>\<open>Connector.cpp\<close> calls
  it: \<^verbatim>\<open>Send\<close> frames and writes a message, \<^verbatim>\<open>AddData\<close> appends received bytes to
  the stack's buffer, \<^verbatim>\<open>getPacket(&packetsize)\<close> extracts one complete message.
  The buffer is the state; the operations return it updated.
\<close>

section \<open>The length header\<close>

definition hdr_size :: nat where
  "hdr_size = 4"

text \<open>
  The header is a 32-bit unsigned value, written least significant byte first.
  \<^verbatim>\<open>Send\<close> casts the \<^verbatim>\<open>size_t\<close> message length to that width: lengths at or
  above \<open>2 ^ 32\<close> wrap around.
\<close>

definition le32_bytes :: "32 word \<Rightarrow> bytes" where
  "le32_bytes w =
     [char_of (unat w), char_of (unat (drop_bit 8 w)),
      char_of (unat (drop_bit 16 w)), char_of (unat (drop_bit 24 w))]"

fun le32_of_bytes :: "bytes \<Rightarrow> 32 word" where
  "le32_of_bytes (a # b # c # d # _) =
     word_of_nat (of_char a + 256 * of_char b + 65536 * of_char c + 16777216 * of_char d)"
| "le32_of_bytes _ = 0"

definition frame_len :: "bytes \<Rightarrow> 32 word" where
  "frame_len msg = word_of_nat (length msg)"

section \<open>Sending\<close>

text \<open>\<^verbatim>\<open>CTCPStack::Send(pipe, msg)\<close>: the bytes written for one message.\<close>

definition tcp_frame :: "bytes \<Rightarrow> bytes" where
  "tcp_frame msg = le32_bytes (frame_len msg) @ msg"

section \<open>Receiving\<close>

text \<open>
  \<^verbatim>\<open>AddData(buf, n)\<close> appends the bytes just read to the stack's buffer.
  \<^verbatim>\<open>getPacket(&packetsize)\<close> looks at the buffer: with fewer bytes than a header, or
  fewer payload bytes than the header declares, no message is complete; the result is
  \<^verbatim>\<open>NULL\<close> and \<^verbatim>\<open>packetsize\<close> is set to 0, the convention the caller in
  \<^verbatim>\<open>Connector.cpp\<close> relies on when it tests \<^verbatim>\<open>packetsize==0\<close> right after the call.
  Otherwise the header and payload are removed and the payload is returned, with its
  length as \<^verbatim>\<open>packetsize\<close>; bytes after it stay buffered.
  The result is the message (if any), \<^verbatim>\<open>packetsize\<close>, and the new buffer.
\<close>

definition add_data :: "bytes \<Rightarrow> bytes \<Rightarrow> bytes" where
  "add_data buf chunk = buf @ chunk"

definition get_packet :: "bytes \<Rightarrow> bytes option \<times> nat \<times> bytes" where
  "get_packet buf =
     (if hdr_size \<le> length buf then
        (let len = unat (le32_of_bytes (take hdr_size buf)) in
         if hdr_size + len \<le> length buf
         then (Some (take len (drop hdr_size buf)), len, drop (hdr_size + len) buf)
         else (None, 0, buf))
      else (None, 0, buf))"

text \<open>
  A receiver that feeds the chunks it reads one by one and tries an extraction after
  each: the usage pattern of the status poller, which calls \<^verbatim>\<open>AddData\<close> and
  \<^verbatim>\<open>getPacket\<close> once per read. The result lists what each extraction returned.
\<close>

fun feed_extract :: "bytes \<Rightarrow> bytes list \<Rightarrow> bytes option list" where
  "feed_extract buf [] = []"
| "feed_extract buf (c # cs) =
     (case get_packet (add_data buf c) of (r, _, buf') \<Rightarrow> r # feed_extract buf' cs)"

section \<open>Codec lemmas\<close>

text \<open>
  The header round trip in both directions, then the extraction lemmas: a complete frame
  followed by anything is extracted with the rest left buffered; a strict prefix of a
  frame yields nothing and leaves the buffer unchanged; an extracted message and the rest
  re-frame to the buffer. They are stated for lengths below \<open>2 ^ 32\<close>, the header's
  range.
\<close>


lemma unat_drop_bit_div: "unat (drop_bit k (w :: 'a::len word)) = unat w div 2 ^ k"
  unfolding unat_drop_bit_eq by (simp add: drop_bit_eq_div)

lemma le32_of_bytes_le32_bytes: "le32_of_bytes (le32_bytes w) = w"
proof -
  have "unat w < 2 ^ 32" using unsigned_less [of w] by simp
  then have "unat w mod 256 + 256 * (unat w div 256 mod 256) + 65536 * (unat w div 65536 mod 256)
           + 16777216 * (unat w div 16777216 mod 256) = unat w"
    by (rule base256_4_recompose)
  moreover have "le32_of_bytes (le32_bytes w) =
      word_of_nat (unat w mod 256 + 256 * (unat w div 256 mod 256) + 65536 * (unat w div 65536 mod 256)
           + 16777216 * (unat w div 16777216 mod 256))"
    by (simp add: le32_bytes_def unat_drop_bit_div del: of_nat_add of_nat_mult)
  ultimately have "le32_of_bytes (le32_bytes w) = word_of_nat (unat w)"
    by (simp only:)
  then show ?thesis by simp
qed

lemma length_le32_bytes [simp]: "length (le32_bytes w) = 4"
  by (simp add: le32_bytes_def)

lemma unat_le32_of_bytes:
  "unat (le32_of_bytes [a, b, c, d]) = of_char a + 256 * of_char b + 65536 * of_char c + 16777216 * of_char d"
proof -
  have "of_char a + 256 * of_char b + 65536 * of_char c + 16777216 * of_char d < (4294967296::nat)"
    using nat_of_char_less_256 [of a] nat_of_char_less_256 [of b] nat_of_char_less_256 [of c] nat_of_char_less_256 [of d]
    by linarith
  then show ?thesis by (simp add: unat_of_nat del: of_nat_add of_nat_mult)
qed

lemma base256_digit:
  fixes x y :: nat
  assumes "x < 256"
  shows "(x + 256 * y) mod 256 = x" and "(x + 256 * y) div 256 = y"
  using assms by simp_all

lemma le32_bytes_le32_of_bytes:
  assumes "length h = 4"
  shows "le32_bytes (le32_of_bytes h) = h"
proof -
  obtain a b c d where h: "h = [a, b, c, d]"
    using assms by (auto simp: length_Suc_conv numeral_eq_Suc)
  let ?S = "of_char a + 256 * (of_char b + 256 * (of_char c + 256 * of_char d)) :: nat"
  have u: "unat (le32_of_bytes h) = ?S"
    unfolding h unat_le32_of_bytes by simp
  have d1: "?S div 256 = of_char b + 256 * (of_char c + 256 * of_char d)"
    by (rule base256_digit(2)) simp
  have "?S div 65536 = ?S div 256 div 256"
    by (simp add: div_mult2_eq)
  also have "\<dots> = (of_char b + 256 * (of_char c + 256 * of_char d)) div 256"
    by (simp only: d1)
  also have "\<dots> = of_char c + 256 * of_char d"
    by (rule base256_digit(2)) simp
  finally have d2: "?S div 65536 = of_char c + 256 * of_char d" .
  have "?S div 16777216 = ?S div 65536 div 256"
    by (simp add: div_mult2_eq)
  also have "\<dots> = (of_char c + 256 * of_char d) div 256"
    by (simp only: d2)
  also have "\<dots> = of_char d"
    by (rule base256_digit(2)) simp
  finally have d3: "?S div 16777216 = of_char d" .
  have c: "char_of (of_char x + 256 * y) = x" for x :: char and y :: nat
    by (metis base256_digit(1) char_of_char char_of_mod_256 nat_of_char_less_256)
  have e1: "?S div 2 ^ 8 = of_char b + 256 * (of_char c + 256 * of_char d)"
    and e2: "?S div 2 ^ 16 = of_char c + 256 * of_char d"
    and e3: "?S div 2 ^ 24 = of_char d"
    using d1 d2 d3 by simp_all
  have "le32_bytes (le32_of_bytes h) =
      [char_of ?S, char_of (?S div 2 ^ 8), char_of (?S div 2 ^ 16), char_of (?S div 2 ^ 24)]"
    by (simp only: le32_bytes_def unat_drop_bit_div u)
  also have "\<dots> = [char_of ?S, char_of (of_char b + 256 * (of_char c + 256 * of_char d :: nat)),
      char_of (of_char c + 256 * of_char d :: nat), char_of (of_char d :: nat)]"
    by (simp only: e1 e2 e3)
  also have "\<dots> = h"
    by (simp only: c h char_of_char)
  finally show ?thesis .
qed

lemma length_tcp_frame [simp]: "length (tcp_frame msg) = length msg + 4"
  by (simp add: tcp_frame_def)

lemma take_hdr_tcp_frame [simp]:
  "take hdr_size (tcp_frame msg @ rest) = le32_bytes (frame_len msg)"
  by (simp add: tcp_frame_def hdr_size_def)

lemma unat_frame_len: "unat (frame_len msg) = length msg mod 2 ^ 32"
  by (simp add: frame_len_def unat_of_nat)

lemma get_packet_None:
  "get_packet b = (None, n, b') \<Longrightarrow> n = 0 \<and> b' = b"
  by (auto simp: get_packet_def Let_def split: if_splits)

lemma get_packet_Some:
  assumes "get_packet b = (Some p, n, b')"
  shows "n = length p \<and> b = take hdr_size b @ p @ b' \<and> unat (le32_of_bytes (take hdr_size b)) = n"
proof -
  from assms have len: "hdr_size + n \<le> length b" and n: "n = unat (le32_of_bytes (take hdr_size b))"
    and p: "p = take n (drop hdr_size b)" and b': "b' = drop (hdr_size + n) b"
    by (auto simp: get_packet_def Let_def split: if_splits)
  have "b = take hdr_size b @ take n (drop hdr_size b) @ drop (hdr_size + n) b"
    by (metis append_take_drop_id drop_drop add.commute)
  with len n p b' show ?thesis by (simp add: add.commute)
qed

lemma get_packet_tcp_frame:
  assumes "length msg < 2 ^ 32"
  shows "get_packet (tcp_frame msg @ rest) = (Some msg, length msg, rest)"
proof -
  have u: "unat (le32_of_bytes (le32_bytes (frame_len msg))) = length msg"
    using assms by (simp add: le32_of_bytes_le32_bytes unat_frame_len)
  have d: "drop hdr_size (tcp_frame msg @ rest) = msg @ rest"
    by (simp add: tcp_frame_def hdr_size_def)
  have l: "hdr_size + length msg \<le> length (tcp_frame msg @ rest)"
    by (simp add: tcp_frame_def hdr_size_def)
  have t: "take hdr_size (tcp_frame msg @ rest) = le32_bytes (frame_len msg)"
    by (rule take_hdr_tcp_frame)
  show ?thesis
    unfolding get_packet_def Let_def t u d
    using l by (simp add: tcp_frame_def hdr_size_def)
qed

lemma get_packet_strict_prefix:
  assumes "length msg < 2 ^ 32" and "q @ r = tcp_frame msg" and "r \<noteq> []"
  shows "get_packet q = (None, 0, q)"
proof (cases "hdr_size \<le> length q")
  case True
  have "take hdr_size q = take hdr_size (tcp_frame msg)"
    using True assms(2) by (metis take_append take_eq_Nil diff_is_0_eq append_Nil2)
  then have u: "unat (le32_of_bytes (take hdr_size q)) = length msg"
    using assms(1) take_hdr_tcp_frame [of msg "[]"]
    by (simp add: le32_of_bytes_le32_bytes unat_frame_len)
  have "length q + length r = hdr_size + length msg"
    using arg_cong [OF assms(2), of length] by (simp add: tcp_frame_def hdr_size_def)
  moreover have "0 < length r"
    using assms(3) by simp
  ultimately have "length q < hdr_size + length msg"
    by linarith
  with u show ?thesis
    using True by (simp add: get_packet_def)
next
  case False
  then show ?thesis by (simp add: get_packet_def)
qed

lemma get_packet_Some_frame:
  assumes "get_packet b = (Some p, n, b')"
  shows "b = tcp_frame p @ b'"
proof -
  from get_packet_Some [OF assms] have n: "n = length p"
    and b: "b = take hdr_size b @ p @ b'"
    and u: "unat (le32_of_bytes (take hdr_size b)) = n"
    by auto
  from assms have "hdr_size \<le> length b"
    by (auto simp: get_packet_def Let_def split: if_splits)
  then have h: "le32_bytes (le32_of_bytes (take hdr_size b)) = take hdr_size b"
    by (simp add: le32_bytes_le32_of_bytes hdr_size_def)
  have "frame_len p = word_of_nat (unat (le32_of_bytes (take hdr_size b)))"
    using u n by (simp add: frame_len_def)
  then have "frame_len p = le32_of_bytes (take hdr_size b)"
    by simp
  with h b show ?thesis by (simp add: tcp_frame_def)
qed

lemma feed_extract_split:
  assumes "length msg < 2 ^ 32"
  shows "buf @ concat cs = tcp_frame msg \<Longrightarrow> cs \<noteq> [] \<Longrightarrow> last cs \<noteq> [] \<Longrightarrow>
         feed_extract buf cs = replicate (length cs - 1) None @ [Some msg]"
proof (induction cs arbitrary: buf)
  case Nil
  then show ?case by simp
next
  case (Cons c cs)
  show ?case
  proof (cases cs)
    case Nil
    with Cons.prems have "add_data buf c = tcp_frame msg @ []"
      by (simp add: add_data_def)
    with Nil show ?thesis
      using get_packet_tcp_frame [OF assms, of "[]"] by simp
  next
    case (Cons c' cs')
    have "last cs \<in> set cs" and "last cs \<noteq> []"
      using Cons.prems(3) \<open>cs = c' # cs'\<close> by simp_all
    then have "concat cs \<noteq> []" by auto
    moreover have "add_data buf c @ concat cs = tcp_frame msg"
      using Cons.prems(1) by (simp add: add_data_def)
    ultimately have "get_packet (add_data buf c) = (None, 0, add_data buf c)"
      using get_packet_strict_prefix [OF assms] by blast
    moreover have "feed_extract (add_data buf c) cs = replicate (length cs - 1) None @ [Some msg]"
      using Cons.IH \<open>add_data buf c @ concat cs = tcp_frame msg\<close> Cons.prems(3) \<open>cs = c' # cs'\<close>
      by simp
    ultimately show ?thesis using \<open>cs = c' # cs'\<close> by simp
  qed
qed

end
