(* ===== verification/Transport.thy ===== *)
theory Transport
  imports Prelude
begin

text \<open>
  The transport: the \<^verbatim>\<open>wxSocketClient\<close> calls that \<^verbatim>\<open>Connector.cpp\<close> makes, and
  the part of the world they touch. wxWidgets is not part of \<^verbatim>\<open>src/\<close>; the model
  follows the interface of the specification (section 6): connect, \<^verbatim>\<open>IsConnected\<close>,
  \<^verbatim>\<open>WaitOnConnect\<close>, \<^verbatim>\<open>WaitForRead\<close>, \<^verbatim>\<open>Read\<close>, \<^verbatim>\<open>Error\<close>, write.

  The daemon is an environment fixed in advance: each socket it will hand out says when
  the connection completes (or is refused, or never answers), which bytes it sends and
  when they arrive (in stream order), and when, if ever, the connection breaks.
  Time is the millisecond clock \<^verbatim>\<open>wxGetLocalTimeMillis\<close>. A wait with a time slice
  returns as soon as its event happens within the slice, with the clock set to that moment;
  otherwise it returns false with the clock advanced by the whole slice.
\<close>

section \<open>Sockets and the world\<close>

datatype connect_outcome =
    Accepts millis   \<comment> \<open>the connection completes at that time\<close>
  | Refuses millis   \<comment> \<open>the connection attempt fails at that time\<close>
  | NoAnswer         \<comment> \<open>the attempt never completes\<close>

record sock =
  sk_connect :: connect_outcome
  sk_arrivals :: "(millis \<times> bytes) list"  \<comment> \<open>bytes the daemon sends, with arrival times\<close>
  sk_inbuf :: bytes                        \<comment> \<open>arrived and not yet read\<close>
  sk_lost_at :: "millis option"            \<comment> \<open>when the connection breaks\<close>

text \<open>
  The world: the clock, the files the password lookup reads (file name to contents, the
  empty string for a missing file), the sockets the daemon's listener will produce for
  successive connection attempts, the frames the client wrote, in order, and what the
  event handlers that \<^verbatim>\<open>wxTheApp->Yield(true)\<close> runs can observe of the connector's
  process-wide indicators (\<^verbatim>\<open>busy\<close>, \<^verbatim>\<open>error\<close>), one entry per yield.
\<close>

record world =
  w_clock :: millis
  w_files :: "string \<Rightarrow> bytes"
  w_daemon :: "sock list"
  w_wire :: "bytes list"
  w_ui :: "(bool \<times> bool) list"
  w_created :: nat      \<comment> \<open>socket objects created by \<^verbatim>\<open>new wxSocketClient\<close>\<close>
  w_destroyed :: nat    \<comment> \<open>\<^verbatim>\<open>Destroy()\<close> calls\<close>

section \<open>Socket operations\<close>

text \<open>A socket the daemon never answers, for connection attempts beyond its list.\<close>

definition silent_sock :: sock where
  "silent_sock = \<lparr>sk_connect = NoAnswer, sk_arrivals = [], sk_inbuf = [], sk_lost_at = None\<rparr>"

text \<open>
  With nothing listening on the loopback port, a connection attempt is refused at once:
  the socket's connect completes, unconnected, at the moment it was started.
\<close>

definition refused_sock :: "millis \<Rightarrow> sock" where
  "refused_sock t = \<lparr>sk_connect = Refuses t, sk_arrivals = [], sk_inbuf = [], sk_lost_at = None\<rparr>"

text \<open>
  \<^verbatim>\<open>new wxSocketClient\<close> followed by \<^verbatim>\<open>Connect(addr, false)\<close>: the next socket the
  daemon hands out, or a refused one when no daemon listens.
\<close>

definition new_client :: "world \<Rightarrow> sock \<times> world" where
  "new_client w =
     (case w_daemon w of
        [] \<Rightarrow> (refused_sock (w_clock w), w\<lparr>w_created := Suc (w_created w)\<rparr>)
      | s # ss \<Rightarrow> (s, w\<lparr>w_daemon := ss, w_created := Suc (w_created w)\<rparr>))"

text \<open>\<^verbatim>\<open>Destroy()\<close>: the socket object is released; the world counts the calls.\<close>

definition sk_destroy :: "world \<Rightarrow> world" where
  "sk_destroy w = w\<lparr>w_destroyed := Suc (w_destroyed w)\<rparr>"

text \<open>\<^verbatim>\<open>IsConnected()\<close> and \<^verbatim>\<open>Error()\<close> at time \<open>t\<close>.\<close>

definition sk_connected :: "sock \<Rightarrow> millis \<Rightarrow> bool" where
  "sk_connected s t = (case sk_connect s of Accepts a \<Rightarrow> a \<le> t | _ \<Rightarrow> False)"

definition sk_error :: "sock \<Rightarrow> millis \<Rightarrow> bool" where
  "sk_error s t = (case sk_lost_at s of Some l \<Rightarrow> l \<le> t | None \<Rightarrow> False)"

text \<open>Bytes that have arrived by time \<open>t\<close> move to the receive buffer, in stream order.\<close>

definition sk_deliver :: "sock \<Rightarrow> millis \<Rightarrow> sock" where
  "sk_deliver s t =
     s\<lparr>sk_inbuf := sk_inbuf s @ concat (map snd (takeWhile (\<lambda>(a, _). a \<le> t) (sk_arrivals s))),
       sk_arrivals := dropWhile (\<lambda>(a, _). a \<le> t) (sk_arrivals s)\<rparr>"

text \<open>The next moment something happens on a socket: data arrives or the link breaks.\<close>

definition next_event :: "sock \<Rightarrow> millis option" where
  "next_event s =
     (case (sk_arrivals s, sk_lost_at s) of
        ([], l) \<Rightarrow> l
      | ((a, _) # _, None) \<Rightarrow> Some a
      | ((a, _) # _, Some l) \<Rightarrow> Some (min a l))"

text \<open>
  \<^verbatim>\<open>WaitOnConnect(0, tslice)\<close>: true when the attempt completes (accepted or refused)
  within the slice.
\<close>

definition wait_on_connect :: "sock \<Rightarrow> millis \<Rightarrow> nat \<Rightarrow> bool \<times> millis" where
  "wait_on_connect s t tslice =
     (case sk_connect s of
        Accepts a \<Rightarrow> if a \<le> t + tslice then (True, max a t) else (False, t + tslice)
      | Refuses a \<Rightarrow> if a \<le> t + tslice then (True, max a t) else (False, t + tslice)
      | NoAnswer \<Rightarrow> (False, t + tslice))"

text \<open>
  \<^verbatim>\<open>WaitForRead(0, tslice)\<close>: true when data is readable or the connection is lost
  within the slice.
\<close>

definition wait_for_read :: "sock \<Rightarrow> millis \<Rightarrow> nat \<Rightarrow> bool \<times> sock \<times> millis" where
  "wait_for_read s t tslice =
     (let s1 = sk_deliver s t in
      if sk_inbuf s1 \<noteq> [] \<or> sk_error s1 t then (True, s1, t)
      else (case next_event s1 of
              Some e \<Rightarrow> if e \<le> t + tslice then (True, sk_deliver s1 e, e) else (False, s1, t + tslice)
            | None \<Rightarrow> (False, s1, t + tslice)))"

text \<open>\<^verbatim>\<open>Read(buffer, n)\<close> with \<^verbatim>\<open>GetLastIOSize()\<close>: at most \<open>n\<close> buffered bytes.\<close>

definition sk_read :: "sock \<Rightarrow> nat \<Rightarrow> bytes \<times> sock" where
  "sk_read s n = (take n (sk_inbuf s), s\<lparr>sk_inbuf := drop n (sk_inbuf s)\<rparr>)"

text \<open>Writing bytes to the connection; the world keeps every write.\<close>

definition sk_write :: "bytes \<Rightarrow> world \<Rightarrow> world" where
  "sk_write bs w = w\<lparr>w_wire := w_wire w @ [bs]\<rparr>"

text \<open>\<^verbatim>\<open>wxTheApp->Yield(true)\<close>: event handlers run and see the indicators.\<close>

definition ui_yield :: "bool \<times> bool \<Rightarrow> world \<Rightarrow> world" where
  "ui_yield obs w = w\<lparr>w_ui := w_ui w @ [obs]\<rparr>"

text \<open>
  What a polling loop with deadline \<open>start + tmo\<close> may do to the world: advance the
  clock, but not past the last slice that starts before the deadline, and record yields
  that all observe the same indicators, each yield after a whole 100 ms slice and only
  while the deadline is ahead; files and written data stay as they were.
\<close>

definition polls :: "millis \<Rightarrow> nat \<Rightarrow> bool \<times> bool \<Rightarrow> world \<Rightarrow> world \<Rightarrow> bool" where
  "polls start tmo obs w w' \<longleftrightarrow>
     w_clock w \<le> w_clock w' \<and> w_clock w' \<le> max (w_clock w) (start + tmo + 99) \<and>
     (\<exists>k. w_ui w' = w_ui w @ replicate k obs \<and> 100 * k \<le> w_clock w' - w_clock w \<and>
          k \<le> (start + tmo - w_clock w + 99) div 100)"

definition waits_only :: "millis \<Rightarrow> nat \<Rightarrow> bool \<times> bool \<Rightarrow> world \<Rightarrow> world \<Rightarrow> bool" where
  "waits_only start tmo obs w w' \<longleftrightarrow>
     w_files w' = w_files w \<and> w_wire w' = w_wire w \<and> polls start tmo obs w w'"

section \<open>Lemmas on the waits\<close>

text \<open>An unsuccessful wait spends its whole slice: what makes the polling loops end.\<close>

lemma wait_on_connect_False:
  "wait_on_connect s t tslice = (False, t') \<Longrightarrow> t' = t + tslice"
  by (auto simp: wait_on_connect_def split: connect_outcome.splits if_splits)

lemma wait_for_read_False:
  "wait_for_read s t tslice = (False, s', t') \<Longrightarrow> t' = t + tslice"
  by (auto simp: wait_for_read_def Let_def split: option.splits if_splits)

lemma polls_refl [simp, intro]: "polls start tmo obs w w"
  by (auto simp: polls_def intro: exI [of _ 0])

lemma div_100_add_le: "(a::nat) div 100 + b div 100 \<le> (a + b) div 100"
  using div_add1_eq [of a b 100] by linarith

lemma polls_trans [trans]:
  assumes "polls start tmo obs w1 w2" and "polls start tmo obs w2 w3"
  shows "polls start tmo obs w1 w3"
proof -
  from assms obtain k1 k2 where
    a: "w_clock w1 \<le> w_clock w2" "w_clock w2 \<le> max (w_clock w1) (start + tmo + 99)"
       "w_ui w2 = w_ui w1 @ replicate k1 obs" "100 * k1 \<le> w_clock w2 - w_clock w1"
       "k1 \<le> (start + tmo - w_clock w1 + 99) div 100" and
    b: "w_clock w2 \<le> w_clock w3" "w_clock w3 \<le> max (w_clock w2) (start + tmo + 99)"
       "w_ui w3 = w_ui w2 @ replicate k2 obs" "100 * k2 \<le> w_clock w3 - w_clock w2"
       "k2 \<le> (start + tmo - w_clock w2 + 99) div 100"
    unfolding polls_def by blast
  have "k1 + k2 \<le> (start + tmo - w_clock w1 + 99) div 100"
  proof (cases "k2 = 0")
    case True
    with a(5) show ?thesis by simp
  next
    case False
    with b(5) have lt: "w_clock w2 < start + tmo" by (cases "w_clock w2 < start + tmo") auto
    have "k1 = 100 * k1 div 100" by simp
    also have "\<dots> \<le> (w_clock w2 - w_clock w1) div 100" using a(4) by (rule div_le_mono)
    finally have "k1 \<le> (w_clock w2 - w_clock w1) div 100" .
    then have "k1 + k2 \<le> (w_clock w2 - w_clock w1) div 100 + (start + tmo - w_clock w2 + 99) div 100"
      using b(5) by linarith
    also have "\<dots> \<le> (w_clock w2 - w_clock w1 + (start + tmo - w_clock w2 + 99)) div 100"
      by (rule div_100_add_le)
    also have "w_clock w2 - w_clock w1 + (start + tmo - w_clock w2 + 99) = start + tmo - w_clock w1 + 99"
      using a(1) lt by linarith
    finally show ?thesis .
  qed
  then show ?thesis using a b unfolding polls_def
    by (intro conjI exI [of _ "k1 + k2"]) (simp_all add: replicate_add)
qed

lemma polls_same:
  "polls start tmo obs w w' \<Longrightarrow> w_ui w'' = w_ui w' \<Longrightarrow> w_clock w'' = w_clock w' \<Longrightarrow>
   polls start tmo obs w w''"
  by (simp add: polls_def)

lemma waits_only_refl [simp, intro]: "waits_only start tmo obs w w"
  by (simp add: waits_only_def)

lemma waits_only_trans [trans]:
  "waits_only start tmo obs w1 w2 \<Longrightarrow> waits_only start tmo obs w2 w3 \<Longrightarrow>
   waits_only start tmo obs w1 w3"
  unfolding waits_only_def by (auto intro: polls_trans)

lemma waits_only_clock [intro]:
  "w_clock w \<le> t \<Longrightarrow> t \<le> max (w_clock w) (start + tmo + 99) \<Longrightarrow>
   waits_only start tmo obs w (w\<lparr>w_clock := t\<rparr>)"
  by (auto simp: waits_only_def polls_def intro: exI [of _ 0])

lemma waits_only_yield [intro]:
  "w_clock w - start < tmo \<Longrightarrow>
   waits_only start tmo obs w (ui_yield obs (w\<lparr>w_clock := w_clock w + 100\<rparr>))"
  by (auto simp: waits_only_def polls_def ui_yield_def intro!: exI [of _ 1])

lemma wait_on_connect_within:
  "wait_on_connect s t tslice = (b, t') \<Longrightarrow> t' \<le> t + tslice"
  by (auto simp: wait_on_connect_def split: connect_outcome.splits if_splits)

lemma wait_for_read_within:
  "wait_for_read s t tslice = (b, s', t') \<Longrightarrow> t' \<le> t + tslice"
  by (auto simp: wait_for_read_def Let_def split: option.splits if_splits)

lemma wait_on_connect_clock:
  "wait_on_connect s t tslice = (b, t') \<Longrightarrow> t \<le> t'"
  by (auto simp: wait_on_connect_def split: connect_outcome.splits if_splits)

lemma sk_error_deliver [simp]: "sk_error (sk_deliver s t') t = sk_error s t"
  by (simp add: sk_error_def sk_deliver_def)

lemma next_event_after_deliver:
  assumes "next_event (sk_deliver s t) = Some e" and "\<not> sk_error s t"
  shows "t < e"
proof (cases "dropWhile (\<lambda>(a, _). a \<le> t) (sk_arrivals s)")
  case Nil
  with assms show ?thesis
    by (auto simp: next_event_def sk_deliver_def sk_error_def split: option.splits)
next
  case (Cons ax rest)
  then have "\<not> fst ax \<le> t"
    using hd_dropWhile [of "\<lambda>(a, _). a \<le> t" "sk_arrivals s"] by (auto split: prod.splits)
  with Cons assms show ?thesis
    by (auto simp: next_event_def sk_deliver_def sk_error_def split: option.splits prod.splits)
qed

lemma wait_for_read_clock:
  "wait_for_read s t tslice = (b, s', t') \<Longrightarrow> t \<le> t'"
  by (auto simp: wait_for_read_def Let_def split: option.splits if_splits
      dest: next_event_after_deliver)

lemma new_client_files_wire:
  "new_client w = (s, w') \<Longrightarrow> w_files w' = w_files w \<and> w_wire w' = w_wire w \<and>
     w_clock w' = w_clock w \<and> w_ui w' = w_ui w"
  by (auto simp: new_client_def split: list.splits)

text \<open>\<^verbatim>\<open>Destroy()\<close> changes nothing a wait or a later exchange observes.\<close>

lemma sk_destroy_frame [simp]:
  "w_clock (sk_destroy w) = w_clock w" "w_files (sk_destroy w) = w_files w"
  "w_wire (sk_destroy w) = w_wire w" "w_ui (sk_destroy w) = w_ui w"
  "w_daemon (sk_destroy w) = w_daemon w" "w_created (sk_destroy w) = w_created w"
  "w_destroyed (sk_destroy w) = Suc (w_destroyed w)"
  by (simp_all add: sk_destroy_def)

lemma polls_destroy [simp]:
  "polls start tmo obs (sk_destroy w) w' = polls start tmo obs w w'"
  "polls start tmo obs w (sk_destroy w') = polls start tmo obs w w'"
  by (simp_all add: polls_def)

lemma waits_only_destroy [simp]:
  "waits_only start tmo obs (sk_destroy w) w' = waits_only start tmo obs w w'"
  "waits_only start tmo obs w (sk_destroy w') = waits_only start tmo obs w w'"
  by (simp_all add: waits_only_def)

end
