(* ===== verification/Connector.thy ===== *)
theory Connector
  imports Frame Transport
begin

text \<open>
  The command client of \<^verbatim>\<open>src/Connector.cpp\<close>: the process-wide statics of class
  \<^verbatim>\<open>Connector\<close> (the cached passwords \<^verbatim>\<open>pw\<close>, \<^verbatim>\<open>pw_change\<close> and the indicators
  \<^verbatim>\<open>busy\<close>, \<^verbatim>\<open>error\<close>) as a record passed explicitly, the password lookup
  \<^verbatim>\<open>getPasswordData\<close>, and \<^verbatim>\<open>getResponse\<close>, split into the blocks of its body:
  obtaining a connected socket (reuse or connect with a timed wait), the request line,
  and the receive loop. Every early \<^verbatim>\<open>return\<close> of the source is a branch here.
\<close>

section \<open>The connector's statics\<close>

record connector =
  pw :: bytes
  pw_change :: bytes
  busy :: bool
  error :: bool

text \<open>
  \<^verbatim>\<open>SConnection\<close> is a caller-owned holder of a socket pointer. A
  \<^verbatim>\<open>SConnection*\<close> argument is \<open>None\<close> for \<^verbatim>\<open>NULL\<close>, \<open>Some None\<close> for a holder
  without a socket and \<open>Some (Some s)\<close> for a holder of socket \<open>s\<close>.
\<close>

type_synonym sconnection = "sock option option"

section \<open>Password lookup: getPasswordData\<close>

text \<open>
  The password file's name; the build's directory prefix (\<^verbatim>\<open>VARDIR/urbackup/\<close> or the
  resource path on Windows) is fixed, so the world's files are indexed by the bare name.
\<close>

definition pw_fn :: "bool \<Rightarrow> string" where
  "pw_fn change_command = (if change_command then ''pw_change.txt'' else ''pw.txt'')"

definition getPasswordData :: "bool \<Rightarrow> bool \<Rightarrow> connector \<Rightarrow> world \<Rightarrow> bytes \<times> connector" where
  "getPasswordData change_command set_busy c w =
     (let c1 = c\<lparr>busy := (if set_busy then True else busy c), error := False\<rparr>;
          curr_pw = (if change_command then pw_change c1 else pw c1)
      in if curr_pw = [] then
           (let curr_pw' = w_files w (pw_fn change_command) in
            if curr_pw' = [] then (curr_pw', c1)
            else if change_command then (curr_pw', c1\<lparr>pw_change := curr_pw'\<rparr>)
            else (curr_pw', c1\<lparr>pw := curr_pw'\<rparr>))
         else (curr_pw, c1))"

section \<open>getResponse: obtaining a connected socket\<close>

text \<open>
  The connect wait (source lines 147--155): while the time since \<^verbatim>\<open>starttime\<close> is below
  the timeout, poll \<^verbatim>\<open>WaitOnConnect(0, 100)\<close>; stop when it reports completion, else
  yield to the event loop and poll again. Each unsuccessful poll spends its 100 ms, so
  the remaining time \<open>start + tmo - clock\<close> decreases and the loop ends.
\<close>

function connect_wait :: "millis \<Rightarrow> nat \<Rightarrow> sock \<Rightarrow> connector \<Rightarrow> world \<Rightarrow> world" where
  "connect_wait start tmo s c w =
     (if w_clock w - start < tmo then
        (case wait_on_connect s (w_clock w) 100 of
           (True, t') \<Rightarrow> w\<lparr>w_clock := t'\<rparr>
         | (False, t') \<Rightarrow> connect_wait start tmo s c (ui_yield (busy c, error c) (w\<lparr>w_clock := t'\<rparr>)))
      else w)"
  by pat_completeness auto

termination connect_wait
  by (relation "measure (\<lambda>(start, tmo, s, c, w). start + tmo - w_clock w)")
     (auto simp: ui_yield_def dest: sym [THEN wait_on_connect_False])

declare connect_wait.simps [simp del]

text \<open>
  A fresh socket (source lines 140--163): \<^verbatim>\<open>Connect(addr, false)\<close>; unless it is
  connected at once, the connect wait; then \<^verbatim>\<open>IsConnected()\<close> decides. A socket that
  is not connected is destroyed (\<open>None\<close>).
\<close>

definition open_client :: "millis \<Rightarrow> nat \<Rightarrow> connector \<Rightarrow> world \<Rightarrow> sock option \<times> world" where
  "open_client start tmo c w =
     (let (s, w1) = new_client w;
          w2 = (if sk_connected s (w_clock w1) then w1 else connect_wait start tmo s c w1)
      in if sk_connected s (w_clock w2) then (Some s, w2) else (None, sk_destroy w2))"

text \<open>
  Source lines 128--169: a caller's socket is reused when it is there and reports no
  error; an erroneous one is destroyed. Either way the holder's pointer is cleared
  (\<^verbatim>\<open>connection->client = NULL\<close>) while the exchange runs.
\<close>

definition acquire_client ::
  "sconnection \<Rightarrow> millis \<Rightarrow> nat \<Rightarrow> connector \<Rightarrow> world \<Rightarrow> sock option \<times> sconnection \<times> world" where
  "acquire_client connection start tmo c w =
     (let held = (case connection of None \<Rightarrow> None | Some _ \<Rightarrow> Some None) in
      case connection of
        Some (Some s) \<Rightarrow>
          if sk_error s (w_clock w)
          then (let (r, w') = open_client start tmo c (sk_destroy w) in (r, held, w'))
          else (Some s, held, w)
      | _ \<Rightarrow> (let (r, w') = open_client start tmo c w in (r, held, w')))"

section \<open>getResponse: the request\<close>

text \<open>Source lines 173--181: \<^verbatim>\<open>cmd + "#pw=" + curr_pw + t_args\<close>, framed and sent.\<close>

definition t_args :: "bytes \<Rightarrow> bytes" where
  "t_args args = (if args \<noteq> [] then ''&'' @ args else args)"

definition request_line :: "bytes \<Rightarrow> bytes \<Rightarrow> bytes \<Rightarrow> bytes" where
  "request_line cmd curr_pw args = cmd @ ''#pw='' @ curr_pw @ t_args args"

definition send_request :: "bytes \<Rightarrow> bytes \<Rightarrow> bytes \<Rightarrow> world \<Rightarrow> world" where
  "send_request cmd curr_pw args w = sk_write (tcp_frame (request_line cmd curr_pw args)) w"

section \<open>getResponse: the receive loop\<close>

text \<open>
  The read wait (source lines 188--199): poll \<^verbatim>\<open>WaitForRead(0, 100)\<close> while time
  remains; after an unsuccessful poll yield, then give up early if the socket reports an
  error. The result says whether data (or a lost connection) is ready.
\<close>

function read_wait :: "millis \<Rightarrow> nat \<Rightarrow> sock \<Rightarrow> connector \<Rightarrow> world \<Rightarrow> bool \<times> sock \<times> world" where
  "read_wait start tmo s c w =
     (if w_clock w - start < tmo then
        (case wait_for_read s (w_clock w) 100 of
           (True, s', t') \<Rightarrow> (True, s', w\<lparr>w_clock := t'\<rparr>)
         | (False, s', t') \<Rightarrow>
             (let w' = ui_yield (busy c, error c) (w\<lparr>w_clock := t'\<rparr>) in
              if sk_error s' (w_clock w') then (False, s', w')
              else read_wait start tmo s' c w'))
      else (False, s, w))"
  by pat_completeness auto

termination read_wait
  by (relation "measure (\<lambda>(start, tmo, s, c, w). start + tmo - w_clock w)")
     (auto simp: ui_yield_def dest: sym [THEN wait_for_read_False])

declare read_wait.simps [simp del]

text \<open>How one pass of the receive loop ends.\<close>

datatype recv_result =
    Recv_Timeout         \<comment> \<open>no data before the deadline (\<^verbatim>\<open>!conn\<close>)\<close>
  | Recv_IOError         \<comment> \<open>\<^verbatim>\<open>client->Error()\<close> after \<^verbatim>\<open>Read\<close>\<close>
  | Recv_Empty           \<comment> \<open>\<^verbatim>\<open>packetsize==0\<close>\<close>
  | Recv_Packet bytes    \<comment> \<open>a message was extracted\<close>

text \<open>
  The receive loop (source lines 183--223): wait, read at most 1024 bytes, stop on a
  socket error, feed the bytes to the frame stack and extract. \<^verbatim>\<open>packetsize==0\<close> ends
  the exchange with an empty result; the loop repeats only while no message was
  extracted and \<^verbatim>\<open>packetsize\<close> is not 0, which \<^verbatim>\<open>getPacket\<close> never reports
  together: the loop body runs once.
\<close>

definition recv_buffer_size :: nat where
  "recv_buffer_size = 1024"

function recv_loop :: "millis \<Rightarrow> nat \<Rightarrow> bytes \<Rightarrow> sock \<Rightarrow> connector \<Rightarrow> world \<Rightarrow> recv_result \<times> sock \<times> world" where
  "recv_loop start tmo buf s c w =
     (case read_wait start tmo s c w of
        (False, s1, w1) \<Rightarrow> (Recv_Timeout, s1, w1)
      | (True, s1, w1) \<Rightarrow>
          (case sk_read s1 recv_buffer_size of
             (chunk, s2) \<Rightarrow>
               if sk_error s2 (w_clock w1) then (Recv_IOError, s2, w1)
               else (case get_packet (add_data buf chunk) of
                       (resp, packetsize, buf') \<Rightarrow>
                         if packetsize = 0 then (Recv_Empty, s2, w1)
                         else (case resp of
                                 None \<Rightarrow> recv_loop start tmo buf' s2 c w1
                                 | Some p \<Rightarrow> (Recv_Packet p, s2, w1)))))"
  by pat_completeness auto

termination recv_loop
  by (relation "{}") (auto dest: sym [THEN get_packet_None])

declare recv_loop.simps [simp del]

section \<open>getResponse\<close>

text \<open>
  \<^verbatim>\<open>ScopedSocket\<close> (lines 46--70): the guard made right after the client is
  acquired; at every return its destructor destroys the socket unless \<^verbatim>\<open>release()\<close>
  was called, which \<^verbatim>\<open>getResponse\<close> does only when it hands the socket back.
\<close>

definition scoped_socket_exit :: "bool \<Rightarrow> world \<Rightarrow> world" where
  "scoped_socket_exit released w = (if released then w else sk_destroy w)"

text \<open>
  The whole exchange (source lines 122--239). The result is the returned string, the
  connector's statics, the world and the caller's connection holder. The socket goes
  back to the holder only after a message was extracted; on every other path the
  \<^verbatim>\<open>ScopedSocket\<close> guard destroys it.
\<close>

definition getResponse ::
  "bytes \<Rightarrow> bytes \<Rightarrow> bool \<Rightarrow> sconnection \<Rightarrow> nat \<Rightarrow> bool \<Rightarrow> connector \<Rightarrow> world
   \<Rightarrow> bytes \<times> connector \<times> world \<times> sconnection" where
  "getResponse cmd args change_command connection timeoutms set_busy c w =
     (let starttime = w_clock w;
          (curr_pw, c1) = getPasswordData change_command set_busy c w
      in case acquire_client connection starttime timeoutms c1 w of
           (None, conn1, w1) \<Rightarrow> ([], c1\<lparr>error := True, busy := False\<rparr>, w1, conn1)
         | (Some s, conn1, w1) \<Rightarrow>
             (let w2 = send_request cmd curr_pw args w1 in
              case recv_loop starttime timeoutms [] s c1 w2 of
                (Recv_Timeout, _, w3) \<Rightarrow> ([], c1\<lparr>error := True, busy := False\<rparr>, scoped_socket_exit False w3, conn1)
              | (Recv_IOError, _, w3) \<Rightarrow> ([], c1\<lparr>error := True, busy := False\<rparr>, scoped_socket_exit False w3, conn1)
              | (Recv_Empty, _, w3) \<Rightarrow> ([], c1\<lparr>busy := False\<rparr>, scoped_socket_exit False w3, conn1)
              | (Recv_Packet p, s', w3) \<Rightarrow>
                  (p, c1\<lparr>busy := False\<rparr>,
                   scoped_socket_exit (connection \<noteq> None) w3,
                   case connection of None \<Rightarrow> None | Some _ \<Rightarrow> Some (Some s'))))"

text \<open>\<^verbatim>\<open>hasError()\<close> and \<^verbatim>\<open>isBusy()\<close>.\<close>

definition hasError :: "connector \<Rightarrow> bool" where
  "hasError c = error c"

definition isBusy :: "connector \<Rightarrow> bool" where
  "isBusy c = busy c"

text \<open>
  The number of sockets a caller's holder keeps: \<^verbatim>\<open>connection->client\<close> non-null.
\<close>

definition held_client :: "sconnection \<Rightarrow> nat" where
  "held_client conn = (case conn of Some (Some _) \<Rightarrow> 1 | _ \<Rightarrow> 0)"

section \<open>Properties of getResponse\<close>

lemma scoped_socket_exit_simps [simp]:
  "scoped_socket_exit True w = w" "scoped_socket_exit False w = sk_destroy w"
  by (simp_all add: scoped_socket_exit_def)

text \<open>
  The polling loops and the connection set-up only advance the clock and record yields;
  the observation each yield records is the pair of indicators as
  \<^verbatim>\<open>getPasswordData\<close> left them.
\<close>

lemma connect_wait_waits: "waits_only start tmo (busy c, error c) w (connect_wait start tmo s c w)"
proof (induction start tmo s c w rule: connect_wait.induct)
  case (1 start tmo s c w)
  show ?case
  proof (cases "w_clock w - start < tmo")
    case True
    obtain b t' where wc: "wait_on_connect s (w_clock w) 100 = (b, t')"
      by (cases "wait_on_connect s (w_clock w) 100")
    then have le: "w_clock w \<le> t'" by (rule wait_on_connect_clock)
    have dl: "t' \<le> max (w_clock w) (start + tmo + 99)"
      using wait_on_connect_within [OF wc] \<open>w_clock w - start < tmo\<close> by linarith
    show ?thesis
    proof (cases b)
      case True
      with wc le dl \<open>w_clock w - start < tmo\<close> show ?thesis
        by (simp add: connect_wait.simps [of start tmo s c w] waits_only_clock)
    next
      case False
      with wc have t': "t' = w_clock w + 100" by (simp add: wait_on_connect_False)
      let ?w' = "ui_yield (busy c, error c) (w\<lparr>w_clock := t'\<rparr>)"
      have "waits_only start tmo (busy c, error c) w ?w'"
        using \<open>w_clock w - start < tmo\<close> t' by (simp add: waits_only_yield)
      also have "waits_only start tmo (busy c, error c) ?w' (connect_wait start tmo s c ?w')"
        using "1" \<open>w_clock w - start < tmo\<close> wc False by simp
      finally show ?thesis
        using wc False \<open>w_clock w - start < tmo\<close> by (simp add: connect_wait.simps [of start tmo s c w])
    qed
  next
    case False
    then show ?thesis by (simp add: connect_wait.simps [of start tmo s c w])
  qed
qed

lemma read_wait_waits:
  "read_wait start tmo s c w = (b, s', w') \<Longrightarrow> waits_only start tmo (busy c, error c) w w'"
proof (induction start tmo s c w arbitrary: b s' w' rule: read_wait.induct)
  case (1 start tmo s c w)
  show ?case
  proof (cases "w_clock w - start < tmo")
    case True
    obtain ok s1 t' where wr: "wait_for_read s (w_clock w) 100 = (ok, s1, t')"
      by (cases "wait_for_read s (w_clock w) 100")
    then have le: "w_clock w \<le> t'" by (rule wait_for_read_clock)
    have dl: "t' \<le> max (w_clock w) (start + tmo + 99)"
      using wait_for_read_within [OF wr] \<open>w_clock w - start < tmo\<close> by linarith
    let ?w1 = "ui_yield (busy c, error c) (w\<lparr>w_clock := t'\<rparr>)"
    show ?thesis
    proof (cases ok)
      case True
      with "1.prems" wr \<open>w_clock w - start < tmo\<close> le dl show ?thesis
        by (auto simp: read_wait.simps [of start tmo s c w])
    next
      case False
      with wr have t': "t' = w_clock w + 100" by (simp add: wait_for_read_False)
      have y: "waits_only start tmo (busy c, error c) w ?w1"
        using \<open>w_clock w - start < tmo\<close> t' by (simp add: waits_only_yield)
      show ?thesis
      proof (cases "sk_error s1 (w_clock ?w1)")
        case True
        with "1.prems" wr False \<open>w_clock w - start < tmo\<close> y show ?thesis
          by (auto simp: read_wait.simps [of start tmo s c w])
      next
        case err: False
        with "1.prems" wr False \<open>w_clock w - start < tmo\<close>
        have "read_wait start tmo s1 c ?w1 = (b, s', w')"
          by (simp add: read_wait.simps [of start tmo s c w])
        then have "waits_only start tmo (busy c, error c) ?w1 w'"
          using "1.IH" \<open>w_clock w - start < tmo\<close> wr False err by simp
        with y show ?thesis by (rule waits_only_trans)
      qed
    qed
  next
    case False
    with "1.prems" show ?thesis by (simp add: read_wait.simps [of start tmo s c w])
  qed
qed

lemma recv_loop_waits:
  "recv_loop start tmo buf s c w = (r, s', w') \<Longrightarrow> waits_only start tmo (busy c, error c) w w'"
proof (induction start tmo buf s c w arbitrary: r s' w' rule: recv_loop.induct)
  case (1 start tmo buf s c w)
  obtain ok s1 w1 where rw: "read_wait start tmo s c w = (ok, s1, w1)"
    by (cases "read_wait start tmo s c w")
  then have a: "waits_only start tmo (busy c, error c) w w1" by (rule read_wait_waits)
  obtain chunk s2 where rd: "sk_read s1 recv_buffer_size = (chunk, s2)"
    by (cases "sk_read s1 recv_buffer_size")
  obtain resp n buf' where gp: "get_packet (add_data buf chunk) = (resp, n, buf')"
    by (cases "get_packet (add_data buf chunk)")
  show ?case
  proof (cases "ok \<and> \<not> sk_error s2 (w_clock w1) \<and> n \<noteq> 0 \<and> resp = None")
    case True
    then show ?thesis using gp by (auto dest: get_packet_None)
  next
    case False
    with "1.prems" rw rd gp a show ?thesis
      by (auto simp: recv_loop.simps [of start tmo buf s c w] split: if_splits option.splits bool.splits)
  qed
qed

lemma open_client_waits:
  "open_client start tmo c w = (r, w') \<Longrightarrow> waits_only start tmo (busy c, error c) w w'"
proof -
  assume oc: "open_client start tmo c w = (r, w')"
  obtain s w1 where nc: "new_client w = (s, w1)" by (cases "new_client w")
  then have "waits_only start tmo (busy c, error c) w w1"
    by (auto simp: waits_only_def polls_def dest: new_client_files_wire intro: exI [of _ 0])
  moreover have "waits_only start tmo (busy c, error c) w1 w'"
    using oc nc connect_wait_waits [where c = c and w = w1 and s = s]
    by (auto simp: open_client_def Let_def split: if_splits)
  ultimately show ?thesis by (rule waits_only_trans)
qed

lemma acquire_client_waits:
  "acquire_client conn start tmo c w = (r, conn', w') \<Longrightarrow> waits_only start tmo (busy c, error c) w w'"
  by (auto simp: acquire_client_def Let_def split: option.splits if_splits prod.splits
      dest: open_client_waits)

text \<open>
  Socket objects: the waits neither create nor destroy one; \<open>open_client\<close> creates one
  and destroys it when the connection fails.
\<close>

lemma connect_wait_sockets:
  "w_created (connect_wait start tmo s c w) = w_created w \<and>
   w_destroyed (connect_wait start tmo s c w) = w_destroyed w"
proof (induction start tmo s c w rule: connect_wait.induct)
  case (1 start tmo s c w)
  then show ?case
    by (auto simp: connect_wait.simps [of start tmo s c w] ui_yield_def split: prod.splits bool.splits)
qed

lemma read_wait_sockets:
  "read_wait start tmo s c w = (b, s', w') \<Longrightarrow> w_created w' = w_created w \<and> w_destroyed w' = w_destroyed w"
proof (induction start tmo s c w arbitrary: b s' w' rule: read_wait.induct)
  case (1 start tmo s c w)
  from "1.prems" show ?case
    by (subst (asm) read_wait.simps)
       (auto simp: ui_yield_def Let_def split: prod.splits bool.splits if_splits dest: "1.IH")
qed

lemma recv_loop_sockets:
  "recv_loop start tmo buf s c w = (r, s', w') \<Longrightarrow> w_created w' = w_created w \<and> w_destroyed w' = w_destroyed w"
proof (induction start tmo buf s c w arbitrary: r s' w' rule: recv_loop.induct)
  case (1 start tmo buf s c w)
  obtain ok s1 w1 where rw: "read_wait start tmo s c w = (ok, s1, w1)"
    by (cases "read_wait start tmo s c w")
  then have a: "w_created w1 = w_created w \<and> w_destroyed w1 = w_destroyed w" by (rule read_wait_sockets)
  obtain chunk s2 where rd: "sk_read s1 recv_buffer_size = (chunk, s2)"
    by (cases "sk_read s1 recv_buffer_size")
  obtain resp n buf' where gp: "get_packet (add_data buf chunk) = (resp, n, buf')"
    by (cases "get_packet (add_data buf chunk)")
  show ?case
  proof (cases "ok \<and> \<not> sk_error s2 (w_clock w1) \<and> n \<noteq> 0 \<and> resp = None")
    case True
    then show ?thesis using gp by (auto dest: get_packet_None)
  next
    case False
    with "1.prems" rw rd gp a show ?thesis
      by (auto simp: recv_loop.simps [of start tmo buf s c w] split: if_splits option.splits bool.splits)
  qed
qed

lemma new_client_sockets:
  "new_client w = (s, w') \<Longrightarrow> w_created w' = Suc (w_created w) \<and> w_destroyed w' = w_destroyed w"
  by (auto simp: new_client_def split: list.splits)

lemma open_client_sockets:
  "open_client start tmo c w = (r, w') \<Longrightarrow>
   w_created w' = Suc (w_created w) \<and> w_destroyed w' = w_destroyed w + (if r = None then 1 else 0)"
  by (auto simp: open_client_def Let_def connect_wait_sockets split: prod.splits if_splits
           dest: new_client_sockets)

text \<open>
  Acquiring a client: what the caller held, plus what was created, is now destroyed, still
  held, or in use by the exchange.
\<close>

lemma acquire_client_sockets:
  "acquire_client conn start tmo c w = (r, conn', w') \<Longrightarrow>
   w_destroyed w' + held_client conn' + (if r = None then 0 else 1) =
     w_destroyed w + held_client conn + (w_created w' - w_created w) \<and>
   w_created w \<le> w_created w' \<and> w_created w' \<le> Suc (w_created w)"
  by (auto simp: acquire_client_def Let_def held_client_def split: option.splits if_splits prod.splits
           dest!: open_client_sockets)

lemma send_request_sockets [simp]:
  "w_created (send_request cmd p args w) = w_created w"
  "w_destroyed (send_request cmd p args w) = w_destroyed w"
  by (simp_all add: send_request_def sk_write_def)

lemma getPasswordData_flags:
  "getPasswordData ch sb c w = (p, c1) \<Longrightarrow> busy c1 = (sb \<or> busy c) \<and> \<not> error c1"
  by (auto simp: getPasswordData_def Let_def split: if_splits)

lemma send_request_waits:
  "w_ui (send_request cmd p args w) = w_ui w \<and> w_clock (send_request cmd p args w) = w_clock w"
  by (simp add: send_request_def sk_write_def)

text \<open>
  One exchange, seen from the event loop: between its start and its return the clock only
  advances, up to one slice past the deadline, and every yield observes the indicators
  fixed by \<^verbatim>\<open>getPasswordData\<close>.
\<close>

lemma getResponse_polls:
  assumes gr: "getResponse cmd args ch conn tmo sb c w = (d, c', w', conn')"
  shows "polls (w_clock w) tmo (sb \<or> busy c, False) w w'"
proof -
  obtain p c1 where pd: "getPasswordData ch sb c w = (p, c1)"
    by (cases "getPasswordData ch sb c w")
  then have f: "busy c1 = (sb \<or> busy c)" "\<not> error c1"
    using getPasswordData_flags by blast+
  obtain r conn1 w1 where ac: "acquire_client conn (w_clock w) tmo c1 w = (r, conn1, w1)"
    by (cases "acquire_client conn (w_clock w) tmo c1 w")
  then have "waits_only (w_clock w) tmo (busy c1, error c1) w w1"
    by (rule acquire_client_waits)
  then have a: "polls (w_clock w) tmo (sb \<or> busy c, False) w w1"
    using f by (simp add: waits_only_def)
  show ?thesis
  proof (cases r)
    case None
    with gr pd ac a show ?thesis by (simp add: getResponse_def)
  next
    case (Some s)
    let ?w2 = "send_request cmd p args w1"
    have a2: "polls (w_clock w) tmo (sb \<or> busy c, False) w ?w2"
      using a send_request_waits by (blast intro: polls_same)
    obtain rr s' w3 where rl: "recv_loop (w_clock w) tmo [] s c1 ?w2 = (rr, s', w3)"
      by (cases "recv_loop (w_clock w) tmo [] s c1 ?w2")
    then have "waits_only (w_clock w) tmo (busy c1, error c1) ?w2 w3"
      by (rule recv_loop_waits)
    with a2 f have "polls (w_clock w) tmo (sb \<or> busy c, False) w w3"
      by (auto simp: waits_only_def intro: polls_trans)
    with gr pd ac rl Some show ?thesis
      by (auto simp: getResponse_def split: recv_result.splits option.splits)
  qed
qed

text \<open>
  The sockets of one exchange: at most one is created, and what was created or taken
  from the holder is destroyed or back in the holder.
\<close>

lemma getResponse_sockets:
  assumes gr: "getResponse cmd args ch conn tmo sb c w = (d, c', w', conn')"
  shows "w_created w \<le> w_created w' \<and> w_created w' \<le> Suc (w_created w) \<and>
     w_destroyed w' + held_client conn' = w_destroyed w + held_client conn + (w_created w' - w_created w)"
proof -
  obtain p c1 where pd: "getPasswordData ch sb c w = (p, c1)"
    by (cases "getPasswordData ch sb c w")
  obtain r conn1 w1 where ac: "acquire_client conn (w_clock w) tmo c1 w = (r, conn1, w1)"
    by (cases "acquire_client conn (w_clock w) tmo c1 w")
  note a = acquire_client_sockets [OF ac]
  show ?thesis
  proof (cases r)
    case None
    with gr pd ac a show ?thesis by (simp add: getResponse_def)
  next
    case (Some s)
    let ?w2 = "send_request cmd p args w1"
    obtain rr s' w3 where rl: "recv_loop (w_clock w) tmo [] s c1 ?w2 = (rr, s', w3)"
      by (cases "recv_loop (w_clock w) tmo [] s c1 ?w2")
    have b: "w_created w3 = w_created w1 \<and> w_destroyed w3 = w_destroyed w1"
      using recv_loop_sockets [OF rl] by (simp add: send_request_def sk_write_def)
    have hc: "held_client conn1 = 0"
      using ac Some by (auto simp: acquire_client_def Let_def held_client_def split: option.splits if_splits prod.splits)
    show ?thesis
      using gr pd ac rl Some a b hc
      by (auto simp: getResponse_def held_client_def split: recv_result.splits option.splits)
  qed
qed


text \<open>
  C2. The busy indicator's lifecycle: whatever path \<^verbatim>\<open>getResponse\<close> takes (connect
  failure, timeout, socket error, empty or complete message), it returns with
  \<^verbatim>\<open>busy\<close> false; and every event handler that runs while it waits (each
  \<^verbatim>\<open>Yield\<close>) sees \<^verbatim>\<open>busy\<close> as set at the start of the exchange (true when
  \<^verbatim>\<open>set_busy\<close>, otherwise its previous value) and \<^verbatim>\<open>error\<close> false.
\<close>

theorem getResponse_busy_lifecycle:
  "case getResponse cmd args ch conn tmo sb c w of (r, c', w', conn') \<Rightarrow>
     \<not> busy c' \<and> (\<exists>k. w_ui w' = w_ui w @ replicate k (sb \<or> busy c, False))"
proof -
  obtain d c' w' conn' where gr: "getResponse cmd args ch conn tmo sb c w = (d, c', w', conn')"
    by (cases "getResponse cmd args ch conn tmo sb c w")
  have "\<not> busy c'"
    using gr by (auto simp: getResponse_def Let_def split: prod.splits option.splits recv_result.splits)
  moreover have "\<exists>k. w_ui w' = w_ui w @ replicate k (sb \<or> busy c, False)"
    using getResponse_polls [OF gr] by (auto simp: polls_def)
  ultimately show ?thesis by (simp add: gr)
qed

section \<open>Behaviour of getResponse on each path\<close>


lemma connect_wait_accepts:
  assumes "sk_connect s = Accepts a" and "a < start + tmo"
    and "start \<le> w_clock w" and "w_clock w < start + tmo"
  shows "sk_connected s (w_clock (connect_wait start tmo s c w)) \<and>
         w_clock (connect_wait start tmo s c w) < start + tmo"
  using assms
proof (induction start tmo s c w rule: connect_wait.induct)
  case (1 start tmo s c w)
  have g: "w_clock w - start < tmo" using "1.prems" by linarith
  show ?case
  proof (cases "a \<le> w_clock w + 100")
    case True
    then have "wait_on_connect s (w_clock w) 100 = (True, max a (w_clock w))"
      unfolding wait_on_connect_def "1.prems"(1) by simp
    then show ?thesis
      using g "1.prems" by (simp add: connect_wait.simps [of start tmo s c w] sk_connected_def)
  next
    case False
    then have wc: "wait_on_connect s (w_clock w) 100 = (False, w_clock w + 100)"
      unfolding wait_on_connect_def "1.prems"(1) by simp
    let ?w' = "ui_yield (busy c, error c) (w\<lparr>w_clock := w_clock w + 100\<rparr>)"
    have "w_clock ?w' < start + tmo" "start \<le> w_clock ?w'"
      using False "1.prems" by (simp_all add: ui_yield_def)
    then have "sk_connected s (w_clock (connect_wait start tmo s c ?w')) \<and>
         w_clock (connect_wait start tmo s c ?w') < start + tmo"
      using "1.IH" [OF g wc [symmetric]] "1.prems"(1,2) by simp
    then show ?thesis using g wc by (simp add: connect_wait.simps [of start tmo s c w])
  qed
qed

lemma open_client_accepts:
  assumes "w_daemon w = s # ss" and "sk_connect s = Accepts a"
    and "a < start + tmo" and "start \<le> w_clock w" and "w_clock w < start + tmo"
  shows "\<exists>w'. open_client start tmo c w = (Some s, w') \<and> w_clock w' < start + tmo"
proof -
  have nc: "new_client w = (s, w\<lparr>w_daemon := ss, w_created := Suc (w_created w)\<rparr>)"
    using assms(1) by (simp add: new_client_def)
  show ?thesis
  proof (cases "sk_connected s (w_clock w)")
    case True
    then show ?thesis using nc assms(5) by (simp add: open_client_def)
  next
    case False
    have "sk_connected s (w_clock (connect_wait start tmo s c (w\<lparr>w_daemon := ss, w_created := Suc (w_created w)\<rparr>))) \<and>
          w_clock (connect_wait start tmo s c (w\<lparr>w_daemon := ss, w_created := Suc (w_created w)\<rparr>)) < start + tmo"
      using connect_wait_accepts [OF assms(2,3)] assms(4,5) by simp
    then show ?thesis using nc False by (simp add: open_client_def)
  qed
qed

lemma deliver_one_arrival:
  assumes "sk_arrivals s = [(ta, x)]" and "ta \<le> t"
  shows "sk_deliver s t = s\<lparr>sk_inbuf := sk_inbuf s @ x, sk_arrivals := []\<rparr>"
  using assms by (simp add: sk_deliver_def)

lemma read_wait_arrival:
  assumes "sk_arrivals s = [(ta, x)]" and "x \<noteq> []" and "sk_inbuf s = []"
    and "sk_lost_at s = None" and "ta < start + tmo"
    and "start \<le> w_clock w" and "w_clock w < start + tmo"
  shows "\<exists>w'. read_wait start tmo s c w = (True, s\<lparr>sk_inbuf := x, sk_arrivals := []\<rparr>, w')"
  using assms
proof (induction start tmo s c w rule: read_wait.induct)
  case (1 start tmo s c w)
  have g: "w_clock w - start < tmo" using "1.prems"(6,7) by linarith
  show ?case
  proof (cases "ta \<le> w_clock w")
    case True
    then have "wait_for_read s (w_clock w) 100 = (True, s\<lparr>sk_inbuf := x, sk_arrivals := []\<rparr>, w_clock w)"
      using "1.prems" by (simp add: wait_for_read_def deliver_one_arrival)
    then show ?thesis using g by (simp add: read_wait.simps [of start tmo s c w])
  next
    case late: False
    have d: "sk_deliver s (w_clock w) = s"
      using late "1.prems"(1) by (simp add: sk_deliver_def)
    have ne: "next_event s = Some ta" and ne0: "\<not> sk_error s (w_clock w)"
      using "1.prems"(1,4) by (simp_all add: next_event_def sk_error_def)
    show ?thesis
    proof (cases "ta \<le> w_clock w + 100")
      case True
      then have "wait_for_read s (w_clock w) 100 = (True, s\<lparr>sk_inbuf := x, sk_arrivals := []\<rparr>, ta)"
        using "1.prems" d ne ne0 by (simp add: wait_for_read_def deliver_one_arrival)
      then show ?thesis using g by (simp add: read_wait.simps [of start tmo s c w])
    next
      case False
      then have wr: "wait_for_read s (w_clock w) 100 = (False, s, w_clock w + 100)"
        using "1.prems" d ne ne0 by (simp add: wait_for_read_def)
      let ?w' = "ui_yield (busy c, error c) (w\<lparr>w_clock := w_clock w + 100\<rparr>)"
      have e: "\<not> sk_error s (w_clock ?w')" using "1.prems"(4) by (simp add: sk_error_def)
      have "w_clock ?w' < start + tmo" "start \<le> w_clock ?w'"
        using False "1.prems"(5,6) by (simp_all add: ui_yield_def)
      then have "\<exists>w'. read_wait start tmo s c ?w' = (True, s\<lparr>sk_inbuf := x, sk_arrivals := []\<rparr>, w')"
        using "1.IH" [OF g wr [symmetric] refl refl refl] "1.prems" e by simp
      then show ?thesis using g wr e by (simp add: read_wait.simps [of start tmo s c w])
    qed
  qed
qed

lemma recv_loop_one_read:
  assumes "sk_arrivals s = [(ta, x)]" and "x \<noteq> []" and "sk_inbuf s = []"
    and "sk_lost_at s = None" and "ta < start + tmo"
    and "start \<le> w_clock w" and "w_clock w < start + tmo"
  shows "\<exists>s' w'. recv_loop start tmo [] s c w =
           (case get_packet (take recv_buffer_size x) of (resp, n, _) \<Rightarrow>
              if n = 0 then Recv_Empty else case resp of Some p \<Rightarrow> Recv_Packet p | None \<Rightarrow> Recv_Timeout,
            s', w')"
proof -
  obtain w1 where rw: "read_wait start tmo s c w = (True, s\<lparr>sk_inbuf := x, sk_arrivals := []\<rparr>, w1)"
    using read_wait_arrival [OF assms] by blast
  let ?s2 = "s\<lparr>sk_inbuf := drop recv_buffer_size x, sk_arrivals := []\<rparr>"
  have rd: "sk_read (s\<lparr>sk_inbuf := x, sk_arrivals := []\<rparr>) recv_buffer_size = (take recv_buffer_size x, ?s2)"
    by (simp add: sk_read_def)
  have ne: "\<not> sk_error ?s2 (w_clock w1)" using assms(4) by (simp add: sk_error_def)
  obtain resp n buf' where gp: "get_packet (take recv_buffer_size x) = (resp, n, buf')"
    by (cases "get_packet (take recv_buffer_size x)")
  show ?thesis
  proof (cases "n = 0")
    case True
    then show ?thesis using rw rd ne gp by (simp add: recv_loop.simps add_data_def)
  next
    case False
    then obtain p where "resp = Some p" using gp by (cases resp) (auto dest: get_packet_None)
    then show ?thesis using False rw rd ne gp by (simp add: recv_loop.simps add_data_def)
  qed
qed

lemma getResponse_single_arrival:
  assumes "w_daemon w = s # ss" and "sk_connect s = Accepts a" and "a < w_clock w + tmo"
    and "0 < tmo" and "sk_arrivals s = [(ta, x)]" and "x \<noteq> []" and "ta < w_clock w + tmo"
    and "sk_inbuf s = []" and "sk_lost_at s = None"
  shows "case getResponse cmd args ch None tmo sb c w of (r, c', w', conn') \<Rightarrow>
           r = (case fst (get_packet (take recv_buffer_size x)) of Some p \<Rightarrow> p | None \<Rightarrow> []) \<and>
           \<not> error c' \<and> \<not> busy c' \<and> conn' = None \<and>
           w_wire w' = w_wire w @ [tcp_frame (request_line cmd (fst (getPasswordData ch sb c w)) args)]"
proof -
  obtain pw c1 where pd: "getPasswordData ch sb c w = (pw, c1)"
    by (cases "getPasswordData ch sb c w")
  then have f: "\<not> error c1" using getPasswordData_flags by blast
  obtain w1 where oc: "open_client (w_clock w) tmo c1 w = (Some s, w1)" and t1: "w_clock w1 < w_clock w + tmo"
    using open_client_accepts [OF assms(1,2,3)] assms(4) by auto
  have "waits_only (w_clock w) tmo (busy c1, error c1) w w1" using oc by (rule open_client_waits)
  then have c1: "w_clock w \<le> w_clock w1" and wire1: "w_wire w1 = w_wire w"
    by (auto simp: waits_only_def polls_def)
  let ?w2 = "send_request cmd pw args w1"
  have w2: "w_clock ?w2 = w_clock w1" "w_wire ?w2 = w_wire w @ [tcp_frame (request_line cmd pw args)]"
    using wire1 by (simp_all add: send_request_def sk_write_def)
  obtain resp n buf' where gp: "get_packet (take recv_buffer_size x) = (resp, n, buf')"
    by (cases "get_packet (take recv_buffer_size x)")
  have "\<exists>s' w'. recv_loop (w_clock w) tmo [] s c1 ?w2 =
           (if n = 0 then Recv_Empty else case resp of Some p \<Rightarrow> Recv_Packet p | None \<Rightarrow> Recv_Timeout, s', w')"
    using recv_loop_one_read [OF assms(5,6,8,9,7), where c = c1 and w = ?w2] c1 t1 w2 gp
    by simp
  then obtain s' w3 where rl: "recv_loop (w_clock w) tmo [] s c1 ?w2 =
      (if n = 0 then Recv_Empty else case resp of Some p \<Rightarrow> Recv_Packet p | None \<Rightarrow> Recv_Timeout, s', w3)"
    by blast
  have "waits_only (w_clock w) tmo (busy c1, error c1) ?w2 w3" using rl by (rule recv_loop_waits)
  then have wire3: "w_wire w3 = w_wire w @ [tcp_frame (request_line cmd pw args)]"
    using w2 by (simp add: waits_only_def polls_def)
  have r: "(case resp of Some p \<Rightarrow> p | None \<Rightarrow> []) = (if n = 0 then [] else the resp)"
    using gp by (cases resp) (auto dest: get_packet_None get_packet_Some)
  show ?thesis
  proof (cases "n = 0")
    case True
    then show ?thesis using pd oc rl f wire3 gp r
      by (simp add: getResponse_def acquire_client_def)
  next
    case False
    then obtain p where "resp = Some p" using gp by (cases resp) (auto dest: get_packet_None)
    then show ?thesis using False pd oc rl f wire3 gp
      by (simp add: getResponse_def acquire_client_def)
  qed
qed

lemma getResponse_frame_reply:
  assumes "w_daemon w = s # ss" and "sk_connect s = Accepts a" and "a < w_clock w + tmo"
    and "0 < tmo" and "sk_arrivals s = [(ta, tcp_frame p)]" and "ta < w_clock w + tmo"
    and "sk_inbuf s = []" and "sk_lost_at s = None"
    and "length (tcp_frame p) \<le> recv_buffer_size"
  shows "case getResponse cmd args ch None tmo sb c w of (r, c', w', conn') \<Rightarrow>
           r = p \<and> \<not> error c' \<and> \<not> busy c' \<and> conn' = None \<and>
           w_wire w' = w_wire w @ [tcp_frame (request_line cmd (fst (getPasswordData ch sb c w)) args)]"
proof -
  have nz: "tcp_frame p \<noteq> []"
    using length_tcp_frame [of p] by (metis add_is_0 list.size(3) zero_neq_numeral)
  have len: "length p < 2 ^ 32" using assms(9) by (simp add: recv_buffer_size_def)
  have gp: "get_packet (take recv_buffer_size (tcp_frame p)) = (Some p, length p, [])"
    using get_packet_tcp_frame [OF len, of "[]"] assms(9) by simp
  show ?thesis
    using getResponse_single_arrival [OF assms(1-5) nz assms(6-8), where cmd = cmd and args = args and ch = ch and sb = sb and c = c] gp
    by simp
qed

text \<open>
  C1. A successful exchange: when the daemon accepts the connection and its whole framed
  answer arrives before the timeout in one read of at most 1024 bytes, \<^verbatim>\<open>getResponse\<close>
  returns exactly the answer's payload, leaves \<^verbatim>\<open>busy\<close> and \<^verbatim>\<open>error\<close> false, and
  has written exactly one frame: \<^verbatim>\<open>cmd#pw=<password>[&args]\<close>.
\<close>

theorem getResponse_delivers:
  assumes "w_daemon w = s # ss" and "sk_connect s = Accepts a" and "a < w_clock w + tmo"
    and "0 < tmo" and "sk_arrivals s = [(ta, tcp_frame p)]" and "ta < w_clock w + tmo"
    and "sk_inbuf s = []" and "sk_lost_at s = None"
    and "length (tcp_frame p) \<le> recv_buffer_size"
  shows "case getResponse cmd args ch None tmo sb c w of (r, c', w', conn') \<Rightarrow>
           r = p \<and> \<not> error c' \<and> \<not> busy c' \<and> conn' = None \<and>
           w_wire w' = w_wire w @ [tcp_frame (cmd @ ''#pw='' @ fst (getPasswordData ch sb c w) @
                                              (if args = [] then [] else ''&'' @ args))]"
proof -
  have req: "request_line cmd x args = cmd @ ''#pw='' @ x @ (if args = [] then [] else ''&'' @ args)" for x
    by (simp add: request_line_def t_args_def)
  show ?thesis
    using getResponse_frame_reply [OF assms, where cmd = cmd and args = args and ch = ch and sb = sb and c = c]
    by (simp only: req)
qed

text \<open>
  C6. A response that does not fit the first 1024-byte read is lost: the receive loop
  runs once, \<^verbatim>\<open>getPacket\<close> finds no complete frame and reports size 0, and
  \<^verbatim>\<open>getResponse\<close> returns the empty string without setting \<^verbatim>\<open>error\<close>.
\<close>

theorem getResponse_drops_long_response:
  assumes "w_daemon w = s # ss" and "sk_connect s = Accepts a" and "a < w_clock w + tmo"
    and "0 < tmo" and "sk_arrivals s = [(ta, tcp_frame p)]" and "ta < w_clock w + tmo"
    and "sk_inbuf s = []" and "sk_lost_at s = None"
    and "recv_buffer_size < length (tcp_frame p)" and "length p < 2 ^ 32"
  shows "case getResponse cmd args ch None tmo sb c w of (r, c', w', conn') \<Rightarrow>
           r = [] \<and> \<not> error c' \<and> \<not> busy c'"
proof -
  have nz: "tcp_frame p \<noteq> []"
    using length_tcp_frame [of p] by (metis add_is_0 list.size(3) zero_neq_numeral)
  have "take recv_buffer_size (tcp_frame p) @ drop recv_buffer_size (tcp_frame p) = tcp_frame p"
    by simp
  moreover have "drop recv_buffer_size (tcp_frame p) \<noteq> []" using assms(9) by simp
  ultimately have gp: "get_packet (take recv_buffer_size (tcp_frame p)) =
      (None, 0, take recv_buffer_size (tcp_frame p))"
    by (rule get_packet_strict_prefix [OF assms(10)])
  show ?thesis
    using getResponse_single_arrival [OF assms(1-5) nz assms(6-8), where cmd = cmd and args = args and ch = ch and sb = sb and c = c] gp
    by (simp split: prod.splits)
qed

lemma connect_wait_silent:
  assumes "sk_connect s = NoAnswer" and "start \<le> w_clock w"
  shows "start + tmo \<le> w_clock (connect_wait start tmo s c w)"
  using assms
proof (induction start tmo s c w rule: connect_wait.induct)
  case (1 start tmo s c w)
  show ?case
  proof (cases "w_clock w - start < tmo")
    case True
    have wc: "wait_on_connect s (w_clock w) 100 = (False, w_clock w + 100)"
      unfolding wait_on_connect_def "1.prems"(1) by simp
    have "start + tmo \<le> w_clock (connect_wait start tmo s c
            (ui_yield (busy c, error c) (w\<lparr>w_clock := w_clock w + 100\<rparr>)))"
      using "1.IH" [OF True wc [symmetric]] "1.prems" by (simp add: ui_yield_def)
    then show ?thesis using True wc by (simp add: connect_wait.simps [of start tmo s c w])
  next
    case False
    then show ?thesis using "1.prems"(2) by (simp add: connect_wait.simps [of start tmo s c w])
  qed
qed

lemma read_wait_silent:
  assumes "sk_arrivals s = []" and "sk_inbuf s = []" and "sk_lost_at s = None"
    and "start \<le> w_clock w"
  shows "\<exists>w'. read_wait start tmo s c w = (False, s, w') \<and> start + tmo \<le> w_clock w'"
  using assms
proof (induction start tmo s c w rule: read_wait.induct)
  case (1 start tmo s c w)
  show ?case
  proof (cases "w_clock w - start < tmo")
    case True
    have d: "sk_deliver s (w_clock w) = s" using "1.prems"(1) by (simp add: sk_deliver_def)
    have wr: "wait_for_read s (w_clock w) 100 = (False, s, w_clock w + 100)"
      using "1.prems" d by (simp add: wait_for_read_def next_event_def sk_error_def)
    let ?w' = "ui_yield (busy c, error c) (w\<lparr>w_clock := w_clock w + 100\<rparr>)"
    have e: "\<not> sk_error s (w_clock ?w')" using "1.prems"(3) by (simp add: sk_error_def)
    have "\<exists>w''. read_wait start tmo s c ?w' = (False, s, w'') \<and> start + tmo \<le> w_clock w''"
      using "1.IH" [OF True wr [symmetric] refl refl refl] "1.prems" e by (simp add: ui_yield_def)
    then show ?thesis using True wr e by (simp add: read_wait.simps [of start tmo s c w])
  next
    case False
    then show ?thesis using "1.prems"(4) by (simp add: read_wait.simps [of start tmo s c w])
  qed
qed

text \<open>
  No daemon listening: the connect is refused at once, so \<open>open_client\<close> fails without
  waiting; the socket it created is destroyed.
\<close>

lemma open_client_no_daemon:
  assumes "w_daemon w = []"
  shows "open_client (w_clock w) tmo c w = (None, sk_destroy (w\<lparr>w_created := Suc (w_created w)\<rparr>))"
proof -
  let ?w0 = "w\<lparr>w_created := Suc (w_created w)\<rparr>"
  have nc: "new_client w = (refused_sock (w_clock w), ?w0)" using assms by (simp add: new_client_def)
  have ns: "\<not> sk_connected (refused_sock (w_clock w)) t" for t
    by (simp add: refused_sock_def sk_connected_def)
  have "connect_wait (w_clock w) tmo (refused_sock (w_clock w)) c ?w0 = ?w0"
    by (simp add: connect_wait.simps [of _ _ _ _ ?w0] wait_on_connect_def refused_sock_def)
  then show ?thesis using nc ns by (simp add: open_client_def)
qed

text \<open>
  A connect that is never answered (the daemon's socket neither accepts nor refuses):
  \<open>open_client\<close> waits out the timeout and fails.
\<close>

lemma open_client_unanswered:
  assumes "w_daemon w = s # ss" and "sk_connect s = NoAnswer"
  shows "\<exists>w1. open_client (w_clock w) tmo c w = (None, w1) \<and>
              waits_only (w_clock w) tmo (busy c, error c) w w1 \<and> w_clock w + tmo \<le> w_clock w1"
proof -
  let ?w0 = "w\<lparr>w_daemon := ss, w_created := Suc (w_created w)\<rparr>"
  let ?w1 = "connect_wait (w_clock w) tmo s c ?w0"
  have nc: "new_client w = (s, ?w0)" using assms(1) by (simp add: new_client_def)
  have ns: "\<not> sk_connected s t" for t using assms(2) by (simp add: sk_connected_def)
  have oc: "open_client (w_clock w) tmo c w = (None, sk_destroy ?w1)"
    using nc ns by (simp add: open_client_def)
  moreover have "waits_only (w_clock w) tmo (busy c, error c) w (sk_destroy ?w1)"
    by (rule open_client_waits [OF oc])
  moreover have "w_clock w + tmo \<le> w_clock ?w1"
    by (rule connect_wait_silent) (simp_all add: assms(2))
  ultimately show ?thesis by auto
qed

text \<open>
  C4. No daemon: with nothing listening on the loopback port and no socket of the caller
  to reuse, \<^verbatim>\<open>getResponse\<close> fails at once: the connect is refused, so it returns the
  empty string with \<^verbatim>\<open>error\<close> set and \<^verbatim>\<open>busy\<close> clear, without waiting or yielding,
  sends nothing, destroys the socket it created and leaves the caller's holder as it was.
\<close>

theorem getResponse_no_daemon:
  assumes "w_daemon w = []" and "conn = None \<or> conn = Some None"
  shows "case getResponse cmd args ch conn tmo sb c w of (r, c', w', conn') \<Rightarrow>
           r = [] \<and> error c' \<and> \<not> busy c' \<and> conn' = conn \<and> w_wire w' = w_wire w \<and>
           w_clock w' = w_clock w \<and> w_ui w' = w_ui w \<and> w_destroyed w' = Suc (w_destroyed w)"
proof -
  obtain pw c1 where pd: "getPasswordData ch sb c w = (pw, c1)"
    by (cases "getPasswordData ch sb c w")
  show ?thesis using pd open_client_no_daemon [OF assms(1), of tmo c1] assms(2)
    by (auto simp: getResponse_def acquire_client_def)
qed

text \<open>
  C29. Connect timeout: when the daemon's socket never answers the connection attempt
  (neither accepts nor refuses) and the caller has no socket to reuse,
  \<^verbatim>\<open>getResponse\<close> waits out the whole timeout, then returns the empty string with
  \<^verbatim>\<open>error\<close> set and \<^verbatim>\<open>busy\<close> clear, sends nothing and leaves the caller's holder as
  it was.
\<close>

theorem getResponse_connect_unanswered:
  assumes "w_daemon w = s # ss" and "sk_connect s = NoAnswer" and "conn = None \<or> conn = Some None"
  shows "case getResponse cmd args ch conn tmo sb c w of (r, c', w', conn') \<Rightarrow>
           r = [] \<and> error c' \<and> \<not> busy c' \<and> conn' = conn \<and> w_wire w' = w_wire w \<and>
           w_clock w + tmo \<le> w_clock w'"
proof -
  obtain pw c1 where pd: "getPasswordData ch sb c w = (pw, c1)"
    by (cases "getPasswordData ch sb c w")
  obtain w1 where oc: "open_client (w_clock w) tmo c1 w = (None, w1)"
    and wo: "waits_only (w_clock w) tmo (busy c1, error c1) w w1" and t: "w_clock w + tmo \<le> w_clock w1"
    using open_client_unanswered [OF assms(1,2)] by blast
  show ?thesis using pd oc wo t assms(3)
    by (auto simp: getResponse_def acquire_client_def waits_only_def polls_def)
qed

text \<open>
  C3. Read timeout: when the daemon accepts but never answers nor drops the connection,
  \<^verbatim>\<open>getResponse\<close> gives up only after the whole timeout, returns the empty string, sets
  the latched \<^verbatim>\<open>error\<close>, clears \<^verbatim>\<open>busy\<close>, and the request was sent.
\<close>

theorem getResponse_read_timeout:
  assumes "w_daemon w = s # ss" and "sk_connect s = Accepts a" and "a < w_clock w + tmo"
    and "0 < tmo" and "sk_arrivals s = []" and "sk_inbuf s = []" and "sk_lost_at s = None"
  shows "case getResponse cmd args ch None tmo sb c w of (r, c', w', conn') \<Rightarrow>
           r = [] \<and> error c' \<and> \<not> busy c' \<and> conn' = None \<and>
           w_wire w' = w_wire w @ [tcp_frame (request_line cmd (fst (getPasswordData ch sb c w)) args)] \<and>
           w_clock w + tmo \<le> w_clock w'"
proof -
  obtain pw c1 where pd: "getPasswordData ch sb c w = (pw, c1)"
    by (cases "getPasswordData ch sb c w")
  obtain w1 where oc: "open_client (w_clock w) tmo c1 w = (Some s, w1)"
    using open_client_accepts [OF assms(1,2,3)] assms(4) by auto
  have "waits_only (w_clock w) tmo (busy c1, error c1) w w1" using oc by (rule open_client_waits)
  then have c1: "w_clock w \<le> w_clock w1" and wire1: "w_wire w1 = w_wire w"
    by (auto simp: waits_only_def polls_def)
  let ?w2 = "send_request cmd pw args w1"
  have w2: "w_clock ?w2 = w_clock w1" "w_wire ?w2 = w_wire w @ [tcp_frame (request_line cmd pw args)]"
    using wire1 by (simp_all add: send_request_def sk_write_def)
  obtain w3 where rw: "read_wait (w_clock w) tmo s c1 ?w2 = (False, s, w3)"
    and t3: "w_clock w + tmo \<le> w_clock w3"
    using read_wait_silent [OF assms(5,6,7), of "w_clock w" ?w2 tmo c1] c1 w2 by auto
  have rl: "recv_loop (w_clock w) tmo [] s c1 ?w2 = (Recv_Timeout, s, w3)"
    using rw by (simp add: recv_loop.simps)
  have "waits_only (w_clock w) tmo (busy c1, error c1) ?w2 w3" using rl by (rule recv_loop_waits)
  then have "w_wire w3 = w_wire w @ [tcp_frame (request_line cmd pw args)]"
    using w2 by (simp add: waits_only_def polls_def)
  then show ?thesis using pd oc rl t3 by (simp add: getResponse_def acquire_client_def)
qed

theorem getResponse_delivers_witness:
  "case getResponse ''PAUSE true'' [] False None 1000 True
          \<lparr>pw = [], pw_change = [], busy = False, error = False\<rparr>
          \<lparr>w_clock = 0, w_files = (\<lambda>_. ''secret''),
           w_daemon = [\<lparr>sk_connect = Accepts 50, sk_arrivals = [(120, tcp_frame ''OK'')],
                        sk_inbuf = [], sk_lost_at = None\<rparr>],
           w_wire = [], w_ui = [], w_created = 0, w_destroyed = 0\<rparr> of (r, c', w', conn') \<Rightarrow>
     r = ''OK'' \<and> \<not> error c' \<and> \<not> busy c' \<and> conn' = None \<and>
     w_wire w' = [tcp_frame ''PAUSE true#pw=secret'']"
proof -
  define s0 where "s0 = \<lparr>sk_connect = Accepts 50, sk_arrivals = [(120::nat, tcp_frame ''OK'')],
                         sk_inbuf = [], sk_lost_at = None\<rparr>"
  define w0 where "w0 = \<lparr>w_clock = 0, w_files = (\<lambda>_::string. ''secret''), w_daemon = [s0],
                         w_wire = [], w_ui = [], w_created = 0, w_destroyed = 0\<rparr>"
  define c0 where "c0 = \<lparr>pw = [], pw_change = [], busy = False, error = False\<rparr>"
  have "case getResponse ''PAUSE true'' [] False None 1000 True c0 w0 of (r, c', w', conn') \<Rightarrow>
          r = ''OK'' \<and> \<not> error c' \<and> \<not> busy c' \<and> conn' = None \<and>
          w_wire w' = w_wire w0 @ [tcp_frame (''PAUSE true'' @ ''#pw='' @ fst (getPasswordData False True c0 w0) @
                                              (if ([]::string) = [] then [] else ''&'' @ []))]"
    by (rule getResponse_delivers [where s = s0 and ss = "[]" and a = 50 and ta = 120])
       (simp_all add: s0_def w0_def recv_buffer_size_def)
  moreover have "fst (getPasswordData False True c0 w0) = ''secret''"
    by (simp add: getPasswordData_def c0_def w0_def Let_def)
  ultimately show ?thesis by (simp add: s0_def w0_def c0_def)
qed

theorem getResponse_drops_long_response_witness:
  "case getResponse ''GET BACKUP DIRS'' [] False None 1000 True
          \<lparr>pw = ''secret'', pw_change = [], busy = False, error = False\<rparr>
          \<lparr>w_clock = 0, w_files = (\<lambda>_. []),
           w_daemon = [\<lparr>sk_connect = Accepts 0, sk_arrivals = [(10, tcp_frame (replicate 1100 CHR ''x''))],
                        sk_inbuf = [], sk_lost_at = None\<rparr>],
           w_wire = [], w_ui = [], w_created = 0, w_destroyed = 0\<rparr> of (r, c', w', conn') \<Rightarrow>
     r = [] \<and> \<not> error c' \<and> \<not> busy c'"
proof -
  define s0 where "s0 = \<lparr>sk_connect = Accepts 0, sk_arrivals = [(10::nat, tcp_frame (replicate 1100 CHR ''x''))],
                         sk_inbuf = [], sk_lost_at = None\<rparr>"
  have "case getResponse ''GET BACKUP DIRS'' [] False None 1000 True
          \<lparr>pw = ''secret'', pw_change = [], busy = False, error = False\<rparr>
          \<lparr>w_clock = 0, w_files = (\<lambda>_. []), w_daemon = [s0], w_wire = [], w_ui = [], w_created = 0, w_destroyed = 0\<rparr> of
          (r, c', w', conn') \<Rightarrow> r = [] \<and> \<not> error c' \<and> \<not> busy c'"
    by (rule getResponse_drops_long_response [where s = s0 and ss = "[]" and a = 0 and ta = 10 and p = "replicate 1100 CHR ''x''"])
       (simp_all add: s0_def recv_buffer_size_def)
  then show ?thesis by (simp add: s0_def)
qed

text \<open>
  C5. No busy loop: during one exchange the event loop is yielded to at most
  \<open>\<lceil>timeout / 100\<rceil>\<close> times, since every yield follows a whole 100 ms wait before the
  common deadline of the connect and read waits.
\<close>

theorem getResponse_yield_bound:
  "case getResponse cmd args ch conn tmo sb c w of (r, c', w', conn') \<Rightarrow>
     length (w_ui w') \<le> length (w_ui w) + (tmo + 99) div 100"
  by (auto simp: polls_def split: prod.splits dest!: getResponse_polls)

text \<open>
  C32. Every exchange returns, and returns in bounded time: the connect and read waits
  share the deadline \<open>starttime + timeoutms\<close>, and a wait that starts before it ends
  at most one 100 ms slice later, so \<open>getResponse\<close> returns no later than
  \<open>timeoutms + 99\<close> ms after it was called, whatever the daemon does.
\<close>

theorem getResponse_time_bound:
  "case getResponse cmd args ch conn tmo sb c w of (r, c', w', conn') \<Rightarrow>
     w_clock w \<le> w_clock w' \<and> w_clock w' \<le> w_clock w + tmo + 99"
  by (auto simp: polls_def split: prod.splits dest!: getResponse_polls)

text \<open>
  C35. No socket leaks and no double \<^verbatim>\<open>Destroy()\<close>: an exchange creates at most one
  socket object, and every socket it created or took from the caller's holder is, on
  return, either destroyed (by the explicit \<^verbatim>\<open>Destroy()\<close> calls or by
  \<^verbatim>\<open>ScopedSocket\<close>) or back in the holder, on every path.
\<close>

theorem getResponse_sockets_balanced:
  "case getResponse cmd args ch conn tmo sb c w of (r, c', w', conn') \<Rightarrow>
     w_created w \<le> w_created w' \<and> w_created w' \<le> Suc (w_created w) \<and>
     w_destroyed w' + held_client conn' = w_destroyed w + held_client conn + (w_created w' - w_created w)"
  by (auto split: prod.splits dest!: getResponse_sockets)

theorem getResponse_no_daemon_witness:
  "case getResponse ''STATUS DETAIL'' [] False None 300 False
          \<lparr>pw = ''secret'', pw_change = [], busy = False, error = False\<rparr>
          \<lparr>w_clock = 1000, w_files = (\<lambda>_. []), w_daemon = [], w_wire = [], w_ui = [], w_created = 0, w_destroyed = 0\<rparr> of
          (r, c', w', conn') \<Rightarrow>
     r = [] \<and> error c' \<and> \<not> busy c' \<and> conn' = None \<and> w_wire w' = [] \<and> w_clock w' = 1000 \<and>
     w_ui w' = [] \<and> w_destroyed w' = 1"
  using getResponse_no_daemon [where w = "\<lparr>w_clock = 1000, w_files = (\<lambda>_. []), w_daemon = [], w_wire = [], w_ui = [], w_created = 0, w_destroyed = 0\<rparr>"
          and conn = None and cmd = "''STATUS DETAIL''" and args = "[]" and ch = False and tmo = 300 and sb = False
          and c = "\<lparr>pw = ''secret'', pw_change = [], busy = False, error = False\<rparr>"]
  by (simp split: prod.splits)

theorem getResponse_connect_unanswered_witness:
  "case getResponse ''STATUS DETAIL'' [] False None 300 False
          \<lparr>pw = ''secret'', pw_change = [], busy = False, error = False\<rparr>
          \<lparr>w_clock = 1000, w_files = (\<lambda>_. []), w_daemon = [silent_sock], w_wire = [], w_ui = [], w_created = 0, w_destroyed = 0\<rparr> of
          (r, c', w', conn') \<Rightarrow>
     r = [] \<and> error c' \<and> \<not> busy c' \<and> conn' = None \<and> w_wire w' = [] \<and> 1300 \<le> w_clock w'"
  using getResponse_connect_unanswered [where w = "\<lparr>w_clock = 1000, w_files = (\<lambda>_. []), w_daemon = [silent_sock], w_wire = [], w_ui = [], w_created = 0, w_destroyed = 0\<rparr>"
          and s = silent_sock and ss = "[]" and conn = None and cmd = "''STATUS DETAIL''" and args = "[]"
          and ch = False and tmo = 300 and sb = False
          and c = "\<lparr>pw = ''secret'', pw_change = [], busy = False, error = False\<rparr>"]
  by (simp add: silent_sock_def split: prod.splits)

theorem getResponse_read_timeout_witness:
  "case getResponse ''START BACKUP INCR'' [] False None 500 True
          \<lparr>pw = ''secret'', pw_change = [], busy = False, error = False\<rparr>
          \<lparr>w_clock = 0, w_files = (\<lambda>_. []),
           w_daemon = [\<lparr>sk_connect = Accepts 20, sk_arrivals = [], sk_inbuf = [], sk_lost_at = None\<rparr>],
           w_wire = [], w_ui = [], w_created = 0, w_destroyed = 0\<rparr> of (r, c', w', conn') \<Rightarrow>
     r = [] \<and> error c' \<and> \<not> busy c' \<and> conn' = None \<and>
     w_wire w' = [tcp_frame (request_line ''START BACKUP INCR'' ''secret'' [])] \<and> 500 \<le> w_clock w'"
proof -
  define s0 where "s0 = \<lparr>sk_connect = Accepts 20, sk_arrivals = ([] :: (nat \<times> string) list),
                         sk_inbuf = [], sk_lost_at = (None :: nat option)\<rparr>"
  define w0 where "w0 = \<lparr>w_clock = 0, w_files = (\<lambda>_::string. []::string), w_daemon = [s0],
                         w_wire = [], w_ui = [], w_created = 0, w_destroyed = 0\<rparr>"
  define c0 where "c0 = \<lparr>pw = ''secret'', pw_change = [], busy = False, error = False\<rparr>"
  have "case getResponse ''START BACKUP INCR'' [] False None 500 True c0 w0 of (r, c', w', conn') \<Rightarrow>
          r = [] \<and> error c' \<and> \<not> busy c' \<and> conn' = None \<and>
          w_wire w' = w_wire w0 @ [tcp_frame (request_line ''START BACKUP INCR''
                                     (fst (getPasswordData False True c0 w0)) [])] \<and>
          w_clock w0 + 500 \<le> w_clock w'"
    by (rule getResponse_read_timeout [where s = s0 and ss = "[]" and a = 20])
       (simp_all add: s0_def w0_def)
  moreover have "fst (getPasswordData False True c0 w0) = ''secret''"
    by (simp add: getPasswordData_def c0_def Let_def)
  ultimately show ?thesis by (simp add: s0_def w0_def c0_def)
qed

text \<open>
  C7. The password cache: once \<^verbatim>\<open>getPasswordData\<close> has returned a non-empty password for
  a variant, every later call for that variant returns the same password, whatever the
  password file then contains and whether it sets \<^verbatim>\<open>busy\<close>.
\<close>

theorem getPasswordData_cached:
  assumes "fst (getPasswordData ch sb c w) \<noteq> []"
  shows "fst (getPasswordData ch sb' (snd (getPasswordData ch sb c w)) w') = fst (getPasswordData ch sb c w)"
  using assms by (auto simp: getPasswordData_def Let_def)

theorem getPasswordData_cached_witness:
  "fst (getPasswordData False True \<lparr>pw = [], pw_change = [], busy = False, error = False\<rparr>
          \<lparr>w_clock = 0, w_files = (\<lambda>_. ''first''), w_daemon = [], w_wire = [], w_ui = [], w_created = 0, w_destroyed = 0\<rparr>) \<noteq> [] \<and>
   fst (getPasswordData False False
          (snd (getPasswordData False True \<lparr>pw = [], pw_change = [], busy = False, error = False\<rparr>
            \<lparr>w_clock = 0, w_files = (\<lambda>_. ''first''), w_daemon = [], w_wire = [], w_ui = [], w_created = 0, w_destroyed = 0\<rparr>))
          \<lparr>w_clock = 0, w_files = (\<lambda>_. ''changed''), w_daemon = [], w_wire = [], w_ui = [], w_created = 0, w_destroyed = 0\<rparr>) = ''first''"
proof -
  have h: "fst (getPasswordData False True \<lparr>pw = [], pw_change = [], busy = False, error = False\<rparr>
          \<lparr>w_clock = 0, w_files = (\<lambda>_::string. ''first''), w_daemon = [], w_wire = [], w_ui = [], w_created = 0, w_destroyed = 0\<rparr>) = ''first''"
    by (simp add: getPasswordData_def Let_def)
  show ?thesis
    using getPasswordData_cached [where sb' = False and w' = "\<lparr>w_clock = 0, w_files = (\<lambda>_::string. ''changed''),
        w_daemon = [], w_wire = [], w_ui = [], w_created = 0, w_destroyed = 0\<rparr>", of False True] h by simp
qed

text \<open>
  C31. A caller's connection that is open and error-free is reused: no new socket is
  taken, the reply is read from the held socket, and the holder gets that socket back for
  the next command.
\<close>

theorem getResponse_reuses_connection:
  assumes "\<not> sk_error s (w_clock w)" and "0 < tmo" and "sk_arrivals s = [(ta, tcp_frame p)]"
    and "ta < w_clock w + tmo" and "sk_inbuf s = []" and "sk_lost_at s = None"
    and "length (tcp_frame p) \<le> recv_buffer_size" and "p \<noteq> []"
  shows "case getResponse cmd args ch (Some (Some s)) tmo sb c w of (r, c', w', conn') \<Rightarrow>
           r = p \<and> \<not> error c' \<and> \<not> busy c' \<and> (\<exists>s'. conn' = Some (Some s')) \<and>
           w_wire w' = w_wire w @ [tcp_frame (request_line cmd (fst (getPasswordData ch sb c w)) args)]"
proof -
  obtain pw c1 where pd: "getPasswordData ch sb c w = (pw, c1)"
    by (cases "getPasswordData ch sb c w")
  then have f: "\<not> error c1" using getPasswordData_flags by blast
  have ac: "acquire_client (Some (Some s)) (w_clock w) tmo c1 w = (Some s, Some None, w)"
    using assms(1) by (simp add: acquire_client_def)
  let ?w2 = "send_request cmd pw args w"
  have w2: "w_clock ?w2 = w_clock w" "w_wire ?w2 = w_wire w @ [tcp_frame (request_line cmd pw args)]"
    by (simp_all add: send_request_def sk_write_def)
  have nz: "tcp_frame p \<noteq> []"
    using length_tcp_frame [of p] by (metis add_is_0 list.size(3) zero_neq_numeral)
  have len: "length p < 2 ^ 32" using assms(7) by (simp add: recv_buffer_size_def)
  have gp: "get_packet (take recv_buffer_size (tcp_frame p)) = (Some p, length p, [])"
    using get_packet_tcp_frame [OF len, of "[]"] assms(7) by simp
  obtain s' w3 where rl: "recv_loop (w_clock w) tmo [] s c1 ?w2 = (Recv_Packet p, s', w3)"
    using recv_loop_one_read [OF assms(3) nz assms(5,6,4), where c = c1 and w = ?w2] w2 gp assms(2,8)
    by auto
  have "waits_only (w_clock w) tmo (busy c1, error c1) ?w2 w3" using rl by (rule recv_loop_waits)
  then have "w_wire w3 = w_wire w @ [tcp_frame (request_line cmd pw args)]"
    using w2 by (simp add: waits_only_def polls_def)
  then show ?thesis using pd ac rl f
    by (simp add: getResponse_def)
qed

theorem getResponse_reuses_connection_witness:
  "case getResponse ''STATUS DETAIL'' [] False
          (Some (Some \<lparr>sk_connect = Accepts 0, sk_arrivals = [(250, tcp_frame ''{}'')], sk_inbuf = [], sk_lost_at = None\<rparr>))
          1000 False \<lparr>pw = ''secret'', pw_change = [], busy = False, error = True\<rparr>
          \<lparr>w_clock = 100, w_files = (\<lambda>_. []), w_daemon = [], w_wire = [], w_ui = [], w_created = 0, w_destroyed = 0\<rparr> of (r, c', w', conn') \<Rightarrow>
     r = ''{}'' \<and> \<not> error c' \<and> \<not> busy c' \<and> (\<exists>s'. conn' = Some (Some s')) \<and>
     w_wire w' = [tcp_frame ''STATUS DETAIL#pw=secret'']"
proof -
  define s0 where "s0 = \<lparr>sk_connect = Accepts 0, sk_arrivals = [(250::nat, tcp_frame ''{}'')], sk_inbuf = [], sk_lost_at = None\<rparr>"
  define w0 where "w0 = \<lparr>w_clock = 100::nat, w_files = (\<lambda>_::string. []::string), w_daemon = [], w_wire = [], w_ui = [], w_created = 0, w_destroyed = 0\<rparr>"
  define c0 where "c0 = \<lparr>pw = ''secret'', pw_change = [], busy = False, error = True\<rparr>"
  have "case getResponse ''STATUS DETAIL'' [] False (Some (Some s0)) 1000 False c0 w0 of (r, c', w', conn') \<Rightarrow>
          r = ''{}'' \<and> \<not> error c' \<and> \<not> busy c' \<and> (\<exists>s'. conn' = Some (Some s')) \<and>
          w_wire w' = w_wire w0 @ [tcp_frame (request_line ''STATUS DETAIL'' (fst (getPasswordData False False c0 w0)) [])]"
    by (rule getResponse_reuses_connection [where ta = 250])
       (simp_all add: s0_def w0_def sk_error_def recv_buffer_size_def)
  moreover have "fst (getPasswordData False False c0 w0) = ''secret''"
    by (simp add: getPasswordData_def c0_def Let_def)
  ultimately show ?thesis by (simp add: s0_def w0_def c0_def request_line_def t_args_def)
qed

end
