(* ===== verification/StringTools.thy ===== *)
theory StringTools
  imports Prelude
begin

text \<open>
  The string helpers \<^verbatim>\<open>Connector.cpp\<close> calls from UrBackup's \<^verbatim>\<open>stringtools\<close>:
  \<^verbatim>\<open>Tokenize\<close>/\<^verbatim>\<open>TokenizeMail\<close> (split at a separator), \<^verbatim>\<open>ParseParamStr\<close>
  (\<^verbatim>\<open>key=value&key=value\<close> into a map), \<^verbatim>\<open>getuntil\<close>/\<^verbatim>\<open>getafter\<close> (the parts
  before and after the first occurrence of a separator), \<^verbatim>\<open>atoi\<close>/\<^verbatim>\<open>watoi\<close> and
  \<^verbatim>\<open>nconvert\<close>. They are not part of \<^verbatim>\<open>src/\<close>; they are modelled from the decode
  modes of the specification (section 4.3): split on a separator keeping empty fields, a
  parameter string parsed into a mapping (a later key overrides an earlier one, as
  assignment into a \<^verbatim>\<open>std::map\<close> does), the split at the first \<^verbatim>\<open>-\<close> into an
  integer prefix and the trailing text, and C's \<^verbatim>\<open>atoi\<close> (leading white space, an
  optional sign, the longest run of decimal digits, 0 when there is none). Integers are
  unbounded: the overflow of \<^verbatim>\<open>atoi\<close> is undefined behaviour in C and is not modelled.
\<close>

section \<open>Splitting at a separator\<close>

fun split_on :: "char \<Rightarrow> bytes \<Rightarrow> bytes list" where
  "split_on d [] = [[]]"
| "split_on d (x # xs) =
     (if x = d then [] # split_on d xs
      else (let r = split_on d xs in (x # hd r) # tl r))"

text \<open>Joining fields with a separator: how the daemon builds the lines the client splits.\<close>

fun join_on :: "char \<Rightarrow> bytes list \<Rightarrow> bytes" where
  "join_on d [] = []"
| "join_on d [x] = x"
| "join_on d (x # xs) = x @ d # join_on d xs"

definition Tokenize :: "bytes \<Rightarrow> char \<Rightarrow> bytes list" where
  "Tokenize s d = split_on d s"

text \<open>
  \<^verbatim>\<open>TokenizeMail(s, lines, "\n")\<close>, called with a one-character separator, and the
  line access of \<^verbatim>\<open>linecount\<close>/\<^verbatim>\<open>getline\<close>: the lines of a text are its fields
  between newlines; a final newline ends the last line rather than opening an empty one.
\<close>

definition TokenizeMail :: "bytes \<Rightarrow> char \<Rightarrow> bytes list" where
  "TokenizeMail s d = split_on d s"

definition linecount :: "bytes \<Rightarrow> nat" where
  "linecount d =
     (if d = [] then 0
      else if last d = CHR ''\<newline>'' then length (split_on CHR ''\<newline>'' d) - 1
      else length (split_on CHR ''\<newline>'' d))"

definition getline :: "nat \<Rightarrow> bytes \<Rightarrow> bytes" where
  "getline i d = (let ls = split_on CHR ''\<newline>'' d in if i < length ls then ls ! i else [])"

section \<open>getuntil and getafter\<close>

text \<open>
  The text before and after the first separator; both are empty when the separator does
  not occur.
\<close>

definition getuntil :: "char \<Rightarrow> bytes \<Rightarrow> bytes" where
  "getuntil d s = (if d \<in> set s then takeWhile (\<lambda>x. x \<noteq> d) s else [])"

definition getafter :: "char \<Rightarrow> bytes \<Rightarrow> bytes" where
  "getafter d s = (if d \<in> set s then tl (dropWhile (\<lambda>x. x \<noteq> d) s) else [])"

section \<open>Numbers\<close>

definition is_space :: "char \<Rightarrow> bool" where
  "is_space c \<longleftrightarrow> c \<in> set '' \<newline>'' \<or> of_char c \<in> {9, 11, 12, 13 :: nat}"

definition is_digit :: "char \<Rightarrow> bool" where
  "is_digit c \<longleftrightarrow> (48 :: nat) \<le> of_char c \<and> of_char c \<le> (57 :: nat)"

definition digit_val :: "char \<Rightarrow> int" where
  "digit_val c = int (of_char c) - 48"

text \<open>The longest run of digits, accumulated in base 10.\<close>

fun digits_val :: "int \<Rightarrow> bytes \<Rightarrow> int" where
  "digits_val acc [] = acc"
| "digits_val acc (c # cs) = (if is_digit c then digits_val (10 * acc + digit_val c) cs else acc)"

definition atoi :: "bytes \<Rightarrow> int" where
  "atoi s =
     (case dropWhile is_space s of
        c # r \<Rightarrow> if c = CHR ''-'' then - digits_val 0 r
                 else if c = CHR ''+'' then digits_val 0 r
                 else digits_val 0 (c # r)
      | [] \<Rightarrow> 0)"

definition digit_char :: "nat \<Rightarrow> char" where
  "digit_char n = char_of (48 + n)"

fun nat_digits :: "nat \<Rightarrow> bytes" where
  "nat_digits n = (if n < 10 then [digit_char n] else nat_digits (n div 10) @ [digit_char (n mod 10)])"

declare nat_digits.simps [simp del]

definition nconvert :: "int \<Rightarrow> bytes" where
  "nconvert i = (if i < 0 then CHR ''-'' # nat_digits (nat (- i)) else nat_digits (nat i))"

section \<open>ParseParamStr\<close>

text \<open>
  One \<^verbatim>\<open>key=value\<close> pair: the key up to the first \<^verbatim>\<open>=\<close>, the value after it
  (empty without one).
\<close>

definition param_pair :: "bytes \<Rightarrow> bytes \<times> bytes" where
  "param_pair kv = (takeWhile (\<lambda>x. x \<noteq> CHR ''='') kv, drop 1 (dropWhile (\<lambda>x. x \<noteq> CHR ''='') kv))"

definition ParseParamStr :: "bytes \<Rightarrow> bytes \<rightharpoonup> bytes" where
  "ParseParamStr s = map_of (rev (map param_pair (split_on CHR ''&'' s)))"

section \<open>Lemmas\<close>

text \<open>
  Splitting inverts joining when no field holds the separator; \<^verbatim>\<open>getuntil\<close> and
  \<^verbatim>\<open>getafter\<close> recover the two sides of the first separator; \<^verbatim>\<open>atoi\<close> reads back
  what \<^verbatim>\<open>nconvert\<close> printed, whatever non-digit follows it.
\<close>


lemma split_on_ne [simp]: "split_on d s \<noteq> []"
  by (induction s) (auto simp: Let_def)

lemma split_on_append_nosep:
  "d \<notin> set x \<Longrightarrow> split_on d (x @ ys) = (x @ hd (split_on d ys)) # tl (split_on d ys)"
  by (induction x) (auto simp: Let_def)

lemma split_on_sep_append:
  "d \<notin> set x \<Longrightarrow> split_on d (x @ d # ys) = x # split_on d ys"
  by (simp add: split_on_append_nosep)

lemma split_on_nosep:
  "d \<notin> set x \<Longrightarrow> split_on d x = [x]"
  using split_on_append_nosep [of d x "[]"] by simp

lemma split_on_join_on:
  "xs \<noteq> [] \<Longrightarrow> (\<forall>x\<in>set xs. d \<notin> set x) \<Longrightarrow> split_on d (join_on d xs) = xs"
proof (induction xs rule: join_on.induct)
  case (2 d x)
  then show ?case by (simp add: split_on_nosep)
next
  case (3 d x y zs)
  then show ?case by (simp add: split_on_sep_append)
qed simp_all

lemma join_on_split_on: "join_on d (split_on d s) = s"
proof (induction s)
  case Nil
  then show ?case by simp
next
  case (Cons x xs)
  then show ?case
    by (cases "split_on d xs"; cases "tl (split_on d xs)") (auto simp: Let_def)
qed

lemma getuntil_sep: "d \<notin> set x \<Longrightarrow> getuntil d (x @ d # y) = x"
  by (induction x) (auto simp: getuntil_def)

lemma getafter_sep: "d \<notin> set x \<Longrightarrow> getafter d (x @ d # y) = y"
  by (induction x) (auto simp: getafter_def)

lemma digit_char_digit: "n < 10 \<Longrightarrow> is_digit (digit_char n)"
  by (simp add: is_digit_def digit_char_def)

lemma digit_val_digit_char: "n < 10 \<Longrightarrow> digit_val (digit_char n) = int n"
  by (simp add: digit_val_def digit_char_def)

lemma nat_digits_digits: "\<forall>c\<in>set (nat_digits n). is_digit c"
proof (induction n rule: nat_digits.induct)
  case (1 n)
  then show ?case
    by (subst nat_digits.simps) (auto simp: digit_char_digit)
qed

lemma nat_digits_ne: "nat_digits n \<noteq> []"
  by (subst nat_digits.simps) simp

lemma digits_val_append:
  "\<forall>c\<in>set xs. is_digit c \<Longrightarrow> digits_val acc (xs @ ys) = digits_val (digits_val acc xs) ys"
  by (induction xs arbitrary: acc) auto

lemma digits_val_stop:
  "ys = [] \<or> \<not> is_digit (hd ys) \<Longrightarrow> digits_val acc ys = acc"
  by (cases ys) auto

lemma digits_val_nat_digits:
  "digits_val acc (nat_digits n) = acc * 10 ^ length (nat_digits n) + int n"
proof (induction n arbitrary: acc rule: nat_digits.induct)
  case (1 n)
  show ?case
  proof (cases "n < 10")
    case True
    then show ?thesis
      by (subst (1 2) nat_digits.simps) (simp add: digit_char_digit digit_val_digit_char)
  next
    case False
    have ds: "nat_digits n = nat_digits (n div 10) @ [digit_char (n mod 10)]"
      using False by (subst nat_digits.simps) simp
    have "digits_val acc (nat_digits n)
          = digits_val (digits_val acc (nat_digits (n div 10))) [digit_char (n mod 10)]"
      unfolding ds by (rule digits_val_append [OF nat_digits_digits])
    also have "\<dots> = 10 * (acc * 10 ^ length (nat_digits (n div 10)) + int (n div 10)) + int (n mod 10)"
      using "1" False by (simp add: digit_char_digit digit_val_digit_char)
    also have "\<dots> = acc * 10 ^ length (nat_digits n) + int n"
    proof -
      have e: "int n = 10 * int (n div 10) + int (n mod 10)"
        using div_mult_mod_eq [of n 10] by linarith
      show ?thesis unfolding ds e by (simp add: algebra_simps)
    qed
    finally show ?thesis .
  qed
qed

lemma digit_not_sign:
  "is_digit c \<Longrightarrow> \<not> is_space c \<and> c \<noteq> CHR ''-'' \<and> c \<noteq> CHR ''+''"
  by (auto simp: is_digit_def is_space_def)

lemma digits_val_nat_digits_append:
  "rest = [] \<or> \<not> is_digit (hd rest) \<Longrightarrow> digits_val 0 (nat_digits n @ rest) = int n"
  by (simp add: digits_val_append [OF nat_digits_digits] digits_val_nat_digits digits_val_stop)

lemma atoi_nconvert:
  assumes "rest = [] \<or> \<not> is_digit (hd rest)"
  shows "atoi (nconvert i @ rest) = i"
proof -
  obtain c cs where ds: "nat_digits (nat \<bar>i\<bar>) = c # cs"
    using nat_digits_ne by (cases "nat_digits (nat \<bar>i\<bar>)") auto
  have "is_digit c" using nat_digits_digits [of "nat \<bar>i\<bar>"] ds by simp
  then have c: "\<not> is_space c" "c \<noteq> CHR ''-''" "c \<noteq> CHR ''+''"
    using digit_not_sign by blast+
  have v: "digits_val 0 (c # cs @ rest) = \<bar>i\<bar>"
    using digits_val_nat_digits_append [OF assms, of "nat \<bar>i\<bar>"] ds by simp
  show ?thesis
  proof (cases "i < 0")
    case True
    then have "nconvert i = CHR ''-'' # c # cs" using ds by (simp add: nconvert_def)
    then show ?thesis using v True by (simp add: atoi_def is_space_def)
  next
    case False
    then have "nconvert i = c # cs" using ds by (simp add: nconvert_def)
    then show ?thesis using v c False by (simp add: atoi_def)
  qed
qed

lemma split_on_snoc_sep: "split_on d (xs @ [d]) = split_on d xs @ [[]]"
proof (induction xs)
  case (Cons x xs)
  then show ?case
    by (cases "split_on d xs") (auto simp: Let_def)
qed simp

lemma filter_nonempty_all:
  "\<forall>x\<in>set xs. x \<noteq> [] \<Longrightarrow> [f l. l \<leftarrow> xs, l \<noteq> []] = map f xs"
  by (induction xs) auto

text \<open>Decoding the non-empty fields of a joined text visits exactly the joined fields.\<close>

lemma nonempty_lines_join:
  "\<forall>x\<in>set xs. x \<noteq> [] \<and> d \<notin> set x \<Longrightarrow> [f l. l \<leftarrow> split_on d (join_on d xs), l \<noteq> []] = map f xs"
proof (cases "xs = []")
  case False
  moreover assume "\<forall>x\<in>set xs. x \<noteq> [] \<and> d \<notin> set x"
  ultimately show ?thesis
    by (simp add: split_on_join_on filter_nonempty_all)
qed simp

lemma nconvert_nonneg_digits:
  "0 \<le> i \<Longrightarrow> nconvert i \<noteq> [] \<and> (\<forall>c\<in>set (nconvert i). is_digit c)"
  by (simp add: nconvert_def nat_digits_ne nat_digits_digits)

lemma digit_not_newline: "is_digit c \<Longrightarrow> c \<noteq> CHR ''\<newline>''"
  by (auto simp: is_digit_def)

text \<open>A line \<^verbatim>\<open>n-text\<close> printed with \<^verbatim>\<open>nconvert\<close> of a non-negative \<open>n\<close> splits back.\<close>

lemma nconvert_dash:
  assumes "0 \<le> i"
  shows "getuntil CHR ''-'' (nconvert i @ CHR ''-'' # m) = nconvert i"
    and "getafter CHR ''-'' (nconvert i @ CHR ''-'' # m) = m"
    and "atoi (nconvert i) = i"
proof -
  have "CHR ''-'' \<notin> set (nconvert i)"
    using nconvert_nonneg_digits [OF assms] digit_not_sign by blast
  then show "getuntil CHR ''-'' (nconvert i @ CHR ''-'' # m) = nconvert i"
    and "getafter CHR ''-'' (nconvert i @ CHR ''-'' # m) = m"
    by (simp_all add: getuntil_sep getafter_sep)
  show "atoi (nconvert i) = i" using atoi_nconvert [of "[]" i] by simp
qed

lemma join_on_append:
  "xs \<noteq> [] \<Longrightarrow> ys \<noteq> [] \<Longrightarrow> join_on d (xs @ ys) = join_on d xs @ d # join_on d ys"
proof (induction xs rule: join_on.induct)
  case (2 d x)
  then show ?case by (cases ys) auto
next
  case (3 d x y zs)
  then show ?case by simp
qed simp

lemma param_pair_key: "CHR ''='' \<notin> set k \<Longrightarrow> param_pair (k @ CHR ''='' # v) = (k, v)"
  by (induction k) (auto simp: param_pair_def)

lemma nconvert_prefix_inj:
  assumes "0 \<le> a" and "0 \<le> b" and "sx = [] \<or> \<not> is_digit (hd sx)" and "sy = [] \<or> \<not> is_digit (hd sy)"
    and "nconvert a @ sx = nconvert b @ sy"
  shows "a = b \<and> sx = sy"
proof -
  have tw: "takeWhile is_digit (nconvert i @ s) = nconvert i"
    if "0 \<le> i" and "s = [] \<or> \<not> is_digit (hd s)" for i s
    using that nconvert_nonneg_digits [OF that(1)] by (cases s) (auto simp: takeWhile_append2)
  have "nconvert a = nconvert b" using tw [OF assms(1,3)] tw [OF assms(2,4)] assms(5) by metis
  moreover then have "a = b" using atoi_nconvert [of "[]" a] atoi_nconvert [of "[]" b] by simp
  ultimately show ?thesis using assms(5) by simp
qed

lemma nconvert_no_amp: "CHR ''&'' \<notin> set (nconvert i)"
proof -
  have "\<not> is_digit CHR ''&''" by (simp add: is_digit_def)
  then show ?thesis using nat_digits_digits [of "nat \<bar>i\<bar>"] by (auto simp: nconvert_def)
qed

end
