(* ===== verification/Json.thy ===== *)
theory Json
  imports Prelude
begin

text \<open>
  The JSON values and accessors of jsoncpp (\<^verbatim>\<open>Json::Value\<close>) that the decoders of
  \<^verbatim>\<open>Connector.cpp\<close> use. jsoncpp is a library outside \<^verbatim>\<open>src/\<close>; the model follows the
  specification (section 4.3: decode with explicit defaults, a failed parse or a structural
  mismatch recovered at the decoder) and jsoncpp's documented accessor semantics:
  \<^verbatim>\<open>operator[]\<close> and \<^verbatim>\<open>get\<close> on an object look a member up (a default when it is
  missing), on null give the default, and on anything else fail; \<^verbatim>\<open>size()\<close> is the
  element count of an array or object and 0 otherwise; a conversion (\<^verbatim>\<open>asInt\<close>,
  \<^verbatim>\<open>asString\<close>, ...) of a value of an unconvertible type fails. A failure is the
  exception the source's \<^verbatim>\<open>catch (std::runtime_error&)\<close> blocks handle; here it is the
  left value of a sum. Numbers are integers (jsoncpp's real values are not modelled); the
  parser (\<^verbatim>\<open>Json::Reader::parse\<close>) is a parameter of the decoders.
\<close>

datatype jvalue =
    JNull
  | JInt int
  | JBool bool
  | JString bytes
  | JArray "jvalue list"
  | JObject "(bytes \<times> jvalue) list"

datatype json_error = JsonTypeError bytes

type_synonym 'a jresult = "json_error + 'a"

text \<open>Sequencing of accessors that may fail: the first failure propagates.\<close>

definition jbind :: "'a jresult \<Rightarrow> ('a \<Rightarrow> 'b jresult) \<Rightarrow> 'b jresult" where
  "jbind r f = (case r of Inl e \<Rightarrow> Inl e | Inr a \<Rightarrow> f a)"

section \<open>Accessors\<close>

text \<open>\<^verbatim>\<open>v.get(key, dflt)\<close>.\<close>

definition j_get :: "bytes \<Rightarrow> jvalue \<Rightarrow> jvalue \<Rightarrow> jvalue jresult" where
  "j_get key dflt v =
     (case v of
        JObject ms \<Rightarrow> Inr (case map_of ms key of Some x \<Rightarrow> x | None \<Rightarrow> dflt)
      | JNull \<Rightarrow> Inr dflt
      | _ \<Rightarrow> Inl (JsonTypeError ''get: requires objectValue''))"

text \<open>\<^verbatim>\<open>v[key]\<close>.\<close>

definition j_member :: "bytes \<Rightarrow> jvalue \<Rightarrow> jvalue jresult" where
  "j_member key v = j_get key JNull v"

text \<open>\<^verbatim>\<open>v.size()\<close> and \<^verbatim>\<open>v[i]\<close>.\<close>

definition j_size :: "jvalue \<Rightarrow> nat" where
  "j_size v = (case v of JArray xs \<Rightarrow> length xs | JObject ms \<Rightarrow> length ms | _ \<Rightarrow> 0)"

definition j_index :: "nat \<Rightarrow> jvalue \<Rightarrow> jvalue jresult" where
  "j_index i v =
     (case v of
        JArray xs \<Rightarrow> Inr (if i < length xs then xs ! i else JNull)
      | JNull \<Rightarrow> Inr JNull
      | _ \<Rightarrow> Inl (JsonTypeError ''operator[]: requires arrayValue''))"

definition j_isNull :: "jvalue \<Rightarrow> bool" where
  "j_isNull v = (v = JNull)"

section \<open>Conversions\<close>

definition int32_range :: "int \<Rightarrow> bool" where
  "int32_range i \<longleftrightarrow> - (2 ^ 31) \<le> i \<and> i < 2 ^ 31"

definition int64_range :: "int \<Rightarrow> bool" where
  "int64_range i \<longleftrightarrow> - (2 ^ 63) \<le> i \<and> i < 2 ^ 63"

definition j_asInt :: "jvalue \<Rightarrow> int jresult" where
  "j_asInt v =
     (case v of
        JNull \<Rightarrow> Inr 0
      | JInt i \<Rightarrow> if int32_range i then Inr i else Inl (JsonTypeError ''asInt: out of range'')
      | JBool b \<Rightarrow> Inr (if b then 1 else 0)
      | _ \<Rightarrow> Inl (JsonTypeError ''asInt: not convertible''))"

definition j_asInt64 :: "jvalue \<Rightarrow> int jresult" where
  "j_asInt64 v =
     (case v of
        JNull \<Rightarrow> Inr 0
      | JInt i \<Rightarrow> if int64_range i then Inr i else Inl (JsonTypeError ''asInt64: out of range'')
      | JBool b \<Rightarrow> Inr (if b then 1 else 0)
      | _ \<Rightarrow> Inl (JsonTypeError ''asInt64: not convertible''))"

definition j_asBool :: "jvalue \<Rightarrow> bool jresult" where
  "j_asBool v =
     (case v of
        JNull \<Rightarrow> Inr False
      | JBool b \<Rightarrow> Inr b
      | JInt i \<Rightarrow> Inr (i \<noteq> 0)
      | _ \<Rightarrow> Inl (JsonTypeError ''asBool: not convertible''))"

definition j_asString :: "jvalue \<Rightarrow> bytes jresult" where
  "j_asString v =
     (case v of
        JNull \<Rightarrow> Inr []
      | JString s \<Rightarrow> Inr s
      | JBool b \<Rightarrow> Inr (if b then ''true'' else ''false'')
      | _ \<Rightarrow> Inl (JsonTypeError ''asString: not convertible''))"

definition j_asCString :: "jvalue \<Rightarrow> bytes jresult" where
  "j_asCString v =
     (case v of
        JString s \<Rightarrow> Inr s
      | _ \<Rightarrow> Inl (JsonTypeError ''asCString: requires stringValue''))"

section \<open>Lemmas\<close>

lemma jbind_Inr [simp]: "jbind (Inr a) f = f a"
  by (simp add: jbind_def)

lemma jbind_Inl [simp]: "jbind (Inl e) f = Inl e"
  by (simp add: jbind_def)

lemma jbind_eq_Inr: "jbind r f = Inr b \<longleftrightarrow> (\<exists>a. r = Inr a \<and> f a = Inr b)"
  by (cases r) auto

text \<open>A conversion that succeeds yields a value of the C type it converts to.\<close>

lemma int32_range_int64 [simp]: "int32_range i \<Longrightarrow> int64_range i"
  by (simp add: int32_range_def int64_range_def)

lemma j_asInt_range: "j_asInt v = Inr i \<Longrightarrow> int32_range i"
  by (auto simp: j_asInt_def int32_range_def split: jvalue.splits if_splits)

lemma j_asInt64_range: "j_asInt64 v = Inr i \<Longrightarrow> int64_range i"
  by (auto simp: j_asInt64_def int64_range_def split: jvalue.splits if_splits)

lemma j_member_object [simp]:
  "j_member key (JObject ms) = Inr (case map_of ms key of Some x \<Rightarrow> x | None \<Rightarrow> JNull)"
  by (simp add: j_member_def j_get_def)

lemma j_get_object [simp]:
  "j_get key dflt (JObject ms) = Inr (case map_of ms key of Some x \<Rightarrow> x | None \<Rightarrow> dflt)"
  by (simp add: j_get_def)

lemma j_conversions [simp]:
  "j_asCString (JString s) = Inr s"
  "j_asString (JString s) = Inr s"
  "j_asBool (JBool b) = Inr b"
  "int32_range i \<Longrightarrow> j_asInt (JInt i) = Inr i"
  "int64_range i \<Longrightarrow> j_asInt64 (JInt i) = Inr i"
  by (simp_all add: j_asCString_def j_asString_def j_asBool_def j_asInt_def j_asInt64_def)

lemma j_index_array [simp]:
  "i < length xs \<Longrightarrow> j_index i (JArray xs) = Inr (xs ! i)"
  by (simp add: j_index_def)

lemma j_size_array [simp]: "j_size (JArray xs) = length xs"
  by (simp add: j_size_def)

end
