(* ===== verification/Commands.thy ===== *)
theory Commands
  imports Connector StringTools Json
begin

text \<open>
  The typed operations of \<^verbatim>\<open>Connector.cpp\<close> (lines 246--538): each builds a command,
  calls \<^verbatim>\<open>getResponse\<close> and decodes the raw reply into a domain record. The
  \<^verbatim>\<open>timeoutms\<close> and \<^verbatim>\<open>set_busy\<close> arguments these calls leave at their defaults
  (declared in \<^verbatim>\<open>Connector.h\<close>, outside \<^verbatim>\<open>src/\<close>) are the parameters \<open>tmo\<close> and
  \<open>sb\<close>; the JSON parser \<^verbatim>\<open>Json::Reader::parse\<close> is the parameter \<open>jparse\<close>
  (\<open>None\<close> when the text does not parse); the escaping helpers of \<^verbatim>\<open>escape.h\<close> are
  parameters too. \<^verbatim>\<open>wxString::FromUTF8\<close> and \<^verbatim>\<open>ToUTF8\<close> are the identity on
  the byte strings.
\<close>

section \<open>Domain records\<close>

record SBackupDir =
  bd_path :: bytes
  bd_name :: bytes
  bd_id :: int
  bd_group :: int
  bd_flags :: bytes

record SLogEntry =
  logid :: int
  logtime :: bytes

record SLogLine =
  loglevel :: int
  msg :: bytes

section \<open>getSharedPaths (lines 246--295)\<close>

text \<open>
  One element of \<^verbatim>\<open>dirs\<close>: skipped (\<open>None\<close>) when it carries a non-null
  \<^verbatim>\<open>virtual_client\<close>, otherwise its five fields read in the order of the aggregate
  initialiser; a failed conversion is the exception.
\<close>

definition decode_dir :: "jvalue \<Rightarrow> SBackupDir option jresult" where
  "decode_dir dir =
     jbind (j_get ''virtual_client'' JNull dir) (\<lambda>vc.
       if \<not> j_isNull vc then Inr None else
       jbind (jbind (j_member ''path'' dir) j_asCString) (\<lambda>p.
       jbind (jbind (j_member ''name'' dir) j_asCString) (\<lambda>n.
       jbind (jbind (j_member ''id'' dir) j_asInt) (\<lambda>i.
       jbind (jbind (j_member ''group'' dir) j_asInt) (\<lambda>g.
       jbind (jbind (j_member ''flags'' dir) j_asCString) (\<lambda>f.
       Inr (Some \<lparr>bd_path = p, bd_name = n, bd_id = i, bd_group = g, bd_flags = f\<rparr>)))))))"

text \<open>
  The \<^verbatim>\<open>for\<close> loop over \<^verbatim>\<open>dirs[i]\<close>, \<open>k\<close> iterations left: an exception ends
  the loop and the entries pushed so far are returned (the \<^verbatim>\<open>catch\<close> is empty and
  \<^verbatim>\<open>ret\<close> is returned after it).
\<close>

fun dirs_loop :: "jvalue \<Rightarrow> nat \<Rightarrow> nat \<Rightarrow> SBackupDir list \<Rightarrow> SBackupDir list" where
  "dirs_loop dirs 0 i acc = acc"
| "dirs_loop dirs (Suc k) i acc =
     (case jbind (j_index i dirs) decode_dir of
        Inl _ \<Rightarrow> acc
      | Inr None \<Rightarrow> dirs_loop dirs k (Suc i) acc
      | Inr (Some d) \<Rightarrow> dirs_loop dirs k (Suc i) (acc @ [d]))"

definition decode_shared_paths :: "jvalue \<Rightarrow> SBackupDir list" where
  "decode_shared_paths root =
     (case j_member ''dirs'' root of
        Inl _ \<Rightarrow> []
      | Inr dirs \<Rightarrow> dirs_loop dirs (j_size dirs) 0 [])"

definition getSharedPaths ::
  "(bytes \<Rightarrow> jvalue option) \<Rightarrow> nat \<Rightarrow> bool \<Rightarrow> connector \<Rightarrow> world
   \<Rightarrow> SBackupDir list \<times> connector \<times> world" where
  "getSharedPaths jparse tmo sb c w =
     (case getResponse ''GET BACKUP DIRS'' [] False None tmo sb c w of
        (d, c1, w1, _) \<Rightarrow>
          if d = [] then ([], c1\<lparr>error := True\<rparr>, w1)
          else case jparse d of
                 None \<Rightarrow> ([], c1, w1)
               | Some root \<Rightarrow> (decode_shared_paths root, c1, w1))"

section \<open>saveSharedPaths (lines 297--325)\<close>

text \<open>
  The three parameters of entry \<open>i\<close>; \<open>esc\<close> is \<^verbatim>\<open>EscapeParamString\<close>. The flags are
  appended to the escaped name when the name has no \<^verbatim>\<open>/\<close> and the flags are not
  empty.
\<close>

definition dir_arg :: "(bytes \<Rightarrow> bytes) \<Rightarrow> nat \<Rightarrow> SBackupDir \<Rightarrow> bytes" where
  "dir_arg esc i d =
     (let path = esc (bd_path d);
          name0 = esc (bd_name d);
          name = (if CHR ''/'' \<notin> set name0 \<and> bd_flags d \<noteq> [] then name0 @ ''/'' @ bd_flags d else name0)
      in ''dir_'' @ nconvert (int i) @ ''='' @ path
         @ ''&dir_'' @ nconvert (int i) @ ''_name='' @ name
         @ ''&dir_'' @ nconvert (int i) @ ''_group='' @ nconvert (bd_group d))"

fun save_args_from :: "(bytes \<Rightarrow> bytes) \<Rightarrow> nat \<Rightarrow> SBackupDir list \<Rightarrow> bytes \<Rightarrow> bytes" where
  "save_args_from esc i [] args = args"
| "save_args_from esc i (d # ds) args =
     save_args_from esc (Suc i) ds ((if i \<noteq> 0 then args @ ''&'' else args) @ dir_arg esc i d)"

definition saveSharedPaths ::
  "(bytes \<Rightarrow> bytes) \<Rightarrow> SBackupDir list \<Rightarrow> nat \<Rightarrow> bool \<Rightarrow> connector \<Rightarrow> world
   \<Rightarrow> bool \<times> connector \<times> world" where
  "saveSharedPaths esc res tmo sb c w =
     (case getResponse ''SAVE BACKUP DIRS'' (save_args_from esc 0 res []) True None tmo sb c w of
        (d, c1, w1, _) \<Rightarrow> (d = ''OK'', c1, w1))"

section \<open>startBackup, startImage, updateSettings (lines 327--377)\<close>

text \<open>The reply sentinels: \<^verbatim>\<open>RUNNING\<close> 2, \<^verbatim>\<open>NO SERVER\<close> 3, \<^verbatim>\<open>OK\<close> 1, anything else 0.\<close>

definition start_result :: "bytes \<Rightarrow> int" where
  "start_result d =
     (if d = ''RUNNING'' then 2 else if d = ''NO SERVER'' then 3 else if d \<noteq> ''OK'' then 0 else 1)"

definition startBackup :: "bool \<Rightarrow> nat \<Rightarrow> bool \<Rightarrow> connector \<Rightarrow> world \<Rightarrow> int \<times> connector \<times> world" where
  "startBackup full tmo sb c w =
     (let s = (if full then ''START BACKUP FULL'' else ''START BACKUP INCR'')
      in case getResponse s [] False None tmo sb c w of (d, c1, w1, _) \<Rightarrow> (start_result d, c1, w1))"

definition startImage :: "bool \<Rightarrow> nat \<Rightarrow> bool \<Rightarrow> connector \<Rightarrow> world \<Rightarrow> int \<times> connector \<times> world" where
  "startImage full tmo sb c w =
     (let s = (if full then ''START IMAGE FULL'' else ''START IMAGE INCR'')
      in case getResponse s [] False None tmo sb c w of (d, c1, w1, _) \<Rightarrow> (start_result d, c1, w1))"

text \<open>\<open>ecm\<close> is \<^verbatim>\<open>escapeClientMessage\<close>, which rewrites its argument in place.\<close>

definition updateSettings ::
  "(bytes \<Rightarrow> bytes) \<Rightarrow> bytes \<Rightarrow> nat \<Rightarrow> bool \<Rightarrow> connector \<Rightarrow> world \<Rightarrow> bool \<times> connector \<times> world" where
  "updateSettings ecm ndata tmo sb c w =
     (case getResponse (''UPDATE SETTINGS '' @ ecm ndata) [] True None tmo sb c w of
        (d, c1, w1, _) \<Rightarrow> (d = ''OK'', c1, w1))"

section \<open>getLogEntries and getLogdata (lines 379--413)\<close>

text \<open>A line \<^verbatim>\<open>id-text\<close>: the number before the first \<^verbatim>\<open>-\<close>, the text after it.\<close>

definition log_entry_of :: "bytes \<Rightarrow> SLogEntry" where
  "log_entry_of l = \<lparr>logid = atoi (getuntil CHR ''-'' l), logtime = getafter CHR ''-'' l\<rparr>"

definition log_entries :: "bytes \<Rightarrow> SLogEntry list" where
  "log_entries d = [log_entry_of l. l \<leftarrow> map (\<lambda>i. getline i d) [0..<linecount d], l \<noteq> []]"

definition getLogEntries :: "nat \<Rightarrow> bool \<Rightarrow> connector \<Rightarrow> world \<Rightarrow> SLogEntry list \<times> connector \<times> world" where
  "getLogEntries tmo sb c w =
     (case getResponse ''GET LOGPOINTS'' [] True None tmo sb c w of
        (d, c1, w1, _) \<Rightarrow> (log_entries d, c1, w1))"

definition log_line_of :: "bytes \<Rightarrow> SLogLine" where
  "log_line_of l = \<lparr>loglevel = atoi (getuntil CHR ''-'' l), msg = getafter CHR ''-'' l\<rparr>"

definition log_lines :: "bytes \<Rightarrow> SLogLine list" where
  "log_lines d = [log_line_of l. l \<leftarrow> TokenizeMail d CHR ''\<newline>'', l \<noteq> []]"

definition logdata_args :: "int \<Rightarrow> int \<Rightarrow> bytes" where
  "logdata_args lid lvl = ''logid='' @ nconvert lid @ ''&loglevel='' @ nconvert lvl"

definition getLogdata ::
  "int \<Rightarrow> int \<Rightarrow> nat \<Rightarrow> bool \<Rightarrow> connector \<Rightarrow> world \<Rightarrow> SLogLine list \<times> connector \<times> world" where
  "getLogdata lid lvl tmo sb c w =
     (case getResponse ''GET LOGDATA'' (logdata_args lid lvl) True None tmo sb c w of
        (d, c1, w1, _) \<Rightarrow> (log_lines d, c1, w1))"

section \<open>setPause and addNewServer (lines 415--439)\<close>

definition setPause :: "bool \<Rightarrow> nat \<Rightarrow> bool \<Rightarrow> connector \<Rightarrow> world \<Rightarrow> bool \<times> connector \<times> world" where
  "setPause b_pause tmo sb c w =
     (let data = (if b_pause then ''true'' else ''false'')
      in case getResponse (''PAUSE '' @ data) [] False None tmo sb c w of
           (d, c1, w1, _) \<Rightarrow> (d = ''OK'', c1, w1))"

definition addNewServer :: "bytes \<Rightarrow> nat \<Rightarrow> bool \<Rightarrow> connector \<Rightarrow> world \<Rightarrow> bool \<times> connector \<times> world" where
  "addNewServer ident tmo sb c w =
     (case getResponse ''NEW SERVER'' (''ident='' @ ident) True None tmo sb c w of
        (d, c1, w1, _) \<Rightarrow> (d = ''OK'', c1, w1))"

section \<open>getStatusDetails (lines 441--500)\<close>

record SRunningProcess =
  action :: bytes
  percent_done :: int
  eta_ms :: int
  details :: bytes
  detail_pc :: int
  process_id :: int

record SUrBackupServer =
  internet_connection :: bool
  srv_name :: bytes

record SStatusDetails =
  last_backup_time :: int
  running_processes :: "SRunningProcess list"
  servers :: "SUrBackupServer list"
  time_since_last_lan_connection :: int
  internet_connected :: bool
  internet_status :: bytes
  capability_bits :: int
  ok :: bool

text \<open>
  The \<^verbatim>\<open>for\<close> loops over the elements \<open>v[i]\<close>, \<open>i < v.size()\<close>, of a JSON value,
  \<open>k\<close> iterations left: the decoded elements in order, or the first exception.
\<close>

fun j_for :: "(jvalue \<Rightarrow> 'a jresult) \<Rightarrow> jvalue \<Rightarrow> nat \<Rightarrow> nat \<Rightarrow> 'a list jresult" where
  "j_for f v i 0 = Inr []"
| "j_for f v i (Suc k) = jbind (jbind (j_index i v) f) (\<lambda>x. jbind (j_for f v (Suc i) k) (\<lambda>xs. Inr (x # xs)))"

definition j_elements :: "(jvalue \<Rightarrow> 'a jresult) \<Rightarrow> jvalue \<Rightarrow> 'a list jresult" where
  "j_elements f v = j_for f v 0 (j_size v)"

text \<open>One running process, with the defaults of the optional fields (lines 458--466).\<close>

definition decode_process :: "jvalue \<Rightarrow> SRunningProcess jresult" where
  "decode_process p =
     jbind (jbind (j_member ''action'' p) j_asString) (\<lambda>a.
     jbind (jbind (j_member ''percent_done'' p) j_asInt) (\<lambda>pc.
     jbind (jbind (j_member ''eta_ms'' p) j_asInt64) (\<lambda>eta.
     jbind (jbind (j_get ''details'' (JString []) p) j_asString) (\<lambda>det.
     jbind (jbind (j_get ''detail_pc'' (JInt (-1)) p) j_asInt) (\<lambda>dpc.
     jbind (jbind (j_get ''process_id'' (JInt 0) p) j_asInt64) (\<lambda>pid.
     Inr \<lparr>action = a, percent_done = pc, eta_ms = eta, details = det, detail_pc = dpc,
          process_id = pid\<rparr>))))))"

definition decode_server :: "jvalue \<Rightarrow> SUrBackupServer jresult" where
  "decode_server v =
     jbind (jbind (j_member ''internet_connection'' v) j_asBool) (\<lambda>ic.
     jbind (jbind (j_member ''name'' v) j_asString) (\<lambda>n.
     Inr \<lparr>internet_connection = ic, srv_name = n\<rparr>))"

text \<open>
  The \<^verbatim>\<open>try\<close> block of lines 454--490: the fields of \<^verbatim>\<open>ret\<close> are assigned one after
  the other; when an accessor throws, \<^verbatim>\<open>ret\<close> is returned as it is at that point, with
  the fields assigned before the exception and \<^verbatim>\<open>ok\<close> still false.
\<close>

definition status_details_of :: "SStatusDetails \<Rightarrow> jvalue \<Rightarrow> SStatusDetails" where
  "status_details_of r0 root =
     (case jbind (j_member ''last_backup_time'' root) j_asInt64 of Inl _ \<Rightarrow> r0 | Inr t \<Rightarrow>
      let r1 = r0\<lparr>last_backup_time := t\<rparr> in
      case jbind (j_member ''running_processes'' root) (j_elements decode_process) of Inl _ \<Rightarrow> r1 | Inr ps \<Rightarrow>
      let r2 = r1\<lparr>running_processes := ps\<rparr> in
      case jbind (j_member ''servers'' root) (j_elements decode_server) of Inl _ \<Rightarrow> r2 | Inr ss \<Rightarrow>
      let r3 = r2\<lparr>servers := ss\<rparr> in
      case jbind (j_member ''time_since_last_lan_connection'' root) j_asInt64 of Inl _ \<Rightarrow> r3 | Inr tlan \<Rightarrow>
      let r4 = r3\<lparr>time_since_last_lan_connection := tlan\<rparr> in
      case jbind (j_member ''internet_connected'' root) j_asBool of Inl _ \<Rightarrow> r4 | Inr ic \<Rightarrow>
      let r5 = r4\<lparr>internet_connected := ic\<rparr> in
      case jbind (j_member ''internet_status'' root) j_asString of Inl _ \<Rightarrow> r5 | Inr st \<Rightarrow>
      let r6 = r5\<lparr>internet_status := st\<rparr> in
      case jbind (j_member ''capability_bits'' root) j_asInt of Inl _ \<Rightarrow> r6 | Inr cb \<Rightarrow>
      r6\<lparr>capability_bits := cb, ok := True\<rparr>)"

text \<open>
  \<open>dflt\<close> is the default-constructed \<^verbatim>\<open>SStatusDetails\<close> (its constructor is in
  \<^verbatim>\<open>Connector.h\<close>); \<^verbatim>\<open>ret.ok=false\<close> is set before parsing.
\<close>

definition getStatusDetails ::
  "(bytes \<Rightarrow> jvalue option) \<Rightarrow> SStatusDetails \<Rightarrow> sconnection \<Rightarrow> nat \<Rightarrow> bool \<Rightarrow> connector
   \<Rightarrow> world \<Rightarrow> SStatusDetails \<times> connector \<times> world \<times> sconnection" where
  "getStatusDetails jparse dflt connection tmo sb c w =
     (case getResponse ''STATUS DETAIL'' [] False connection tmo sb c w of
        (d, c1, w1, conn1) \<Rightarrow>
          (let ret = dflt\<lparr>ok := False\<rparr> in
           case jparse d of
             None \<Rightarrow> (ret, c1, w1, conn1)
           | Some root \<Rightarrow> (status_details_of ret root, c1, w1, conn1)))"

section \<open>getAccessParameters, getCapabilities, restoreOk (lines 502--538)\<close>

definition getAccessParameters ::
  "bytes \<Rightarrow> nat \<Rightarrow> bool \<Rightarrow> connector \<Rightarrow> world \<Rightarrow> bytes \<times> connector \<times> world" where
  "getAccessParameters tokens tmo sb c w =
     (case getResponse ''GET ACCESS PARAMETERS'' (''tokens='' @ tokens) False None tmo sb c w of
        (d, c1, w1, _) \<Rightarrow> (d, c1, w1))"

definition getCapabilities ::
  "(bytes \<Rightarrow> jvalue option) \<Rightarrow> SStatusDetails \<Rightarrow> nat \<Rightarrow> bool \<Rightarrow> connector \<Rightarrow> world
   \<Rightarrow> int \<times> connector \<times> world" where
  "getCapabilities jparse dflt tmo sb c w =
     (case getStatusDetails jparse dflt None tmo sb c w of
        (status, c1, w1, _) \<Rightarrow> (if ok status then capability_bits status else 0, c1, w1))"

text \<open>
  \<^verbatim>\<open>nconvert(bool)\<close> of stringtools prints \<^verbatim>\<open>true\<close> or \<^verbatim>\<open>false\<close>.
\<close>

definition nconvert_bool :: "bool \<Rightarrow> bytes" where
  "nconvert_bool b = (if b then ''true'' else ''false'')"

text \<open>
  \<^verbatim>\<open>restoreOk\<close> has no \<^verbatim>\<open>try\<close>: an exception of an accessor leaves the function
  (the left value); \<^verbatim>\<open>process_id\<close> is an out-parameter, assigned when the reply is
  accepted, before \<^verbatim>\<open>ok\<close> is read.
\<close>

definition restore_reply :: "jvalue \<Rightarrow> int \<Rightarrow> bool jresult \<times> int" where
  "restore_reply root pid =
     (case jbind (j_get ''accepted'' (JBool False) root) j_asBool of
        Inl e \<Rightarrow> (Inl e, pid)
      | Inr acc \<Rightarrow>
          (case (if acc then jbind (j_member ''process_id'' root) j_asInt64 else Inr pid) of
             Inl e \<Rightarrow> (Inl e, pid)
           | Inr pid' \<Rightarrow> (jbind (j_member ''ok'' root) j_asBool, pid')))"

definition restoreOk ::
  "(bytes \<Rightarrow> jvalue option) \<Rightarrow> bool \<Rightarrow> int \<Rightarrow> nat \<Rightarrow> bool \<Rightarrow> connector \<Rightarrow> world
   \<Rightarrow> (bool jresult \<times> int) \<times> connector \<times> world" where
  "restoreOk jparse b_ok pid tmo sb c w =
     (case getResponse ''RESTORE OK'' (''ok='' @ nconvert_bool b_ok) False None tmo sb c w of
        (d, c1, w1, _) \<Rightarrow>
          (case jparse d of
             None \<Rightarrow> ((Inr False, pid), c1, w1)
           | Some root \<Rightarrow> (restore_reply root pid, c1, w1)))"

section \<open>The daemon's documents\<close>

text \<open>
  The JSON documents the client daemon sends, built from the records they describe: the
  lemmas below state that the decoders read them back.
\<close>

definition dir_json :: "SBackupDir \<Rightarrow> jvalue \<Rightarrow> jvalue" where
  "dir_json d vc =
     JObject [(''virtual_client'', vc), (''path'', JString (bd_path d)), (''name'', JString (bd_name d)),
              (''id'', JInt (bd_id d)), (''group'', JInt (bd_group d)), (''flags'', JString (bd_flags d))]"

definition proc_json :: "SRunningProcess \<Rightarrow> jvalue" where
  "proc_json p =
     JObject [(''action'', JString (action p)), (''percent_done'', JInt (percent_done p)),
              (''eta_ms'', JInt (eta_ms p)), (''details'', JString (details p)),
              (''detail_pc'', JInt (detail_pc p)), (''process_id'', JInt (process_id p))]"

definition server_json :: "SUrBackupServer \<Rightarrow> jvalue" where
  "server_json s = JObject [(''internet_connection'', JBool (internet_connection s)), (''name'', JString (srv_name s))]"

definition status_json :: "SStatusDetails \<Rightarrow> jvalue" where
  "status_json r =
     JObject [(''last_backup_time'', JInt (last_backup_time r)),
              (''running_processes'', JArray (map proc_json (running_processes r))),
              (''servers'', JArray (map server_json (servers r))),
              (''time_since_last_lan_connection'', JInt (time_since_last_lan_connection r)),
              (''internet_connected'', JBool (internet_connected r)),
              (''internet_status'', JString (internet_status r)),
              (''capability_bits'', JInt (capability_bits r))]"

text \<open>The integers of a status that the 32- and 64-bit conversions accept.\<close>

definition proc_in_range :: "SRunningProcess \<Rightarrow> bool" where
  "proc_in_range p \<longleftrightarrow> int32_range (percent_done p) \<and> int64_range (eta_ms p) \<and>
     int32_range (detail_pc p) \<and> int64_range (process_id p)"

definition status_in_range :: "SStatusDetails \<Rightarrow> bool" where
  "status_in_range r \<longleftrightarrow> int64_range (last_backup_time r) \<and> list_all proc_in_range (running_processes r) \<and>
     int64_range (time_since_last_lan_connection r) \<and> int32_range (capability_bits r)"

text \<open>
  The three parameters of \<^verbatim>\<open>saveSharedPaths\<close>' entry \<open>i\<close>, their keys, and a
  percent-escaping that satisfies what the call relies on from \<^verbatim>\<open>EscapeParamString\<close>:
  no \<^verbatim>\<open>&\<close> in its output.
\<close>

definition dir_fields :: "(bytes \<Rightarrow> bytes) \<Rightarrow> nat \<Rightarrow> SBackupDir \<Rightarrow> bytes list" where
  "dir_fields esc i d =
     (let name0 = esc (bd_name d);
          name = (if CHR ''/'' \<notin> set name0 \<and> bd_flags d \<noteq> [] then name0 @ ''/'' @ bd_flags d else name0)
      in [''dir_'' @ nconvert (int i) @ ''='' @ esc (bd_path d),
          ''dir_'' @ nconvert (int i) @ ''_name='' @ name,
          ''dir_'' @ nconvert (int i) @ ''_group='' @ nconvert (bd_group d)])"

definition dir_key :: "nat \<Rightarrow> bytes \<Rightarrow> bytes" where
  "dir_key j sfx = ''dir_'' @ nconvert (int j) @ sfx"

definition pct_escape :: "bytes \<Rightarrow> bytes" where
  "pct_escape s = concat (map (\<lambda>c. if c = CHR ''&'' then ''%26'' else [c]) s)"

section \<open>Lemmas: the loops over JSON arrays\<close>

lemma dirs_loop_prefix:
  "dirs_loop (JArray xs) (length xs - i) i acc =
     acc @ concat (map (\<lambda>x. case decode_dir x of Inr (Some d) \<Rightarrow> [d] | _ \<Rightarrow> [])
                   (takeWhile (\<lambda>x. \<not> isl (decode_dir x)) (drop i xs)))"
proof (induction "length xs - i" arbitrary: i acc)
  case 0
  then show ?case by simp
next
  case (Suc k)
  then have i: "i < length xs" and k: "length xs - Suc i = k" by auto
  have dr: "drop i xs = xs ! i # drop (Suc i) xs" using i by (simp add: Cons_nth_drop_Suc)
  have eq: "dirs_loop (JArray xs) (length xs - i) i acc =
      (case decode_dir (xs ! i) of Inl _ \<Rightarrow> acc
       | Inr None \<Rightarrow> dirs_loop (JArray xs) k (Suc i) acc
       | Inr (Some d) \<Rightarrow> dirs_loop (JArray xs) k (Suc i) (acc @ [d]))"
    using i by (simp add: Suc.hyps(2)[symmetric] k)
  show ?case
    unfolding eq dr using Suc.hyps(1) [OF k [symmetric]] k
    by (cases "decode_dir (xs ! i)" rule: sum.exhaust; auto split: option.splits)
qed

lemma decode_shared_paths_array:
  "decode_shared_paths (JObject [(''dirs'', JArray xs)]) =
     concat (map (\<lambda>x. case decode_dir x of Inr (Some d) \<Rightarrow> [d] | _ \<Rightarrow> [])
                 (takeWhile (\<lambda>x. \<not> isl (decode_dir x)) xs))"
  using dirs_loop_prefix [of xs 0 "[]"] by (simp add: decode_shared_paths_def)

lemma decode_dir_json:
  "int32_range (bd_id d) \<Longrightarrow> int32_range (bd_group d) \<Longrightarrow>
   decode_dir (dir_json d vc) = Inr (if vc = JNull then Some d else None)"
  by (simp add: decode_dir_def dir_json_def j_isNull_def)

lemma j_for_map:
  assumes "\<forall>x\<in>set xs. g (f x) = Inr x"
  shows "j_for g (JArray (map f xs)) i (length xs - i) = Inr (drop i xs)"
proof (induction "length xs - i" arbitrary: i)
  case 0
  then show ?case by simp
next
  case (Suc k)
  then have i: "i < length xs" and k: "length xs - Suc i = k" by auto
  have "g (f (xs ! i)) = Inr (xs ! i)" using assms i by simp
  then show ?case
    using Suc.hyps(1) [OF k [symmetric]] i k Suc.hyps(2) [symmetric]
    by (simp add: Cons_nth_drop_Suc)
qed

lemma j_elements_map:
  "\<forall>x\<in>set xs. g (f x) = Inr x \<Longrightarrow> j_elements g (JArray (map f xs)) = Inr xs"
  using j_for_map [of xs g f 0] by (simp add: j_elements_def)

lemma decode_process_json: "proc_in_range p \<Longrightarrow> decode_process (proc_json p) = Inr p"
  by (simp add: decode_process_def proc_json_def proc_in_range_def)

lemma decode_server_json: "decode_server (server_json s) = Inr s"
  by (simp add: decode_server_def server_json_def)

lemma status_details_of_json:
  "status_in_range r \<Longrightarrow> status_details_of r0 (status_json r) = r\<lparr>ok := True\<rparr>"
proof -
  assume r: "status_in_range r"
  have ps: "j_elements decode_process (JArray (map proc_json (running_processes r))) = Inr (running_processes r)"
    using r by (intro j_elements_map) (auto simp: status_in_range_def list_all_iff decode_process_json)
  have ss: "j_elements decode_server (JArray (map server_json (servers r))) = Inr (servers r)"
    by (intro j_elements_map) (simp add: decode_server_json)
  show ?thesis
    using r ps ss by (simp add: status_details_of_def status_json_def status_in_range_def)
qed

text \<open>
  A successful decode yields values of the C types: the elements a loop decodes satisfy
  what its element decoder guarantees, and a status document read up to \<^verbatim>\<open>ok=true\<close>
  passed every conversion.
\<close>

lemma j_for_all:
  "(\<And>v x. f v = Inr x \<Longrightarrow> P x) \<Longrightarrow> j_for f v i k = Inr xs \<Longrightarrow> list_all P xs"
proof (induction k arbitrary: i xs)
  case 0
  then show ?case by simp
next
  case (Suc k)
  then show ?case by (fastforce simp: jbind_eq_Inr)
qed

lemma decode_process_range: "decode_process p = Inr q \<Longrightarrow> proc_in_range q"
  by (auto simp: decode_process_def jbind_eq_Inr proc_in_range_def dest: j_asInt_range j_asInt64_range)

lemma j_for_decode_process_range:
  "j_for decode_process v i k = Inr ps \<Longrightarrow> list_all proc_in_range ps"
  by (rule j_for_all [OF decode_process_range])

lemma status_details_of_range:
  assumes "\<not> ok r0" and "ok (status_details_of r0 root)"
  shows "status_in_range (status_details_of r0 root)"
  using assms
  by (auto simp: status_details_of_def status_in_range_def j_elements_def Let_def jbind_eq_Inr
           split: sum.splits
           dest: j_asInt_range j_asInt64_range j_for_decode_process_range)

section \<open>Lemmas: the end-to-end exchanges\<close>

text \<open>
  One exchange in which the daemon accepts and answers with the frame of \<open>resp\<close> within
  the timeout, in one read: the typed operation sees \<open>resp\<close> as the raw reply.
\<close>

lemma getResponse_reply_eq:
  assumes "w_daemon w = s # ss" and "sk_connect s = Accepts a" and "a < w_clock w + tmo"
    and "0 < tmo" and "sk_arrivals s = [(ta, tcp_frame resp)]" and "ta < w_clock w + tmo"
    and "sk_inbuf s = []" and "sk_lost_at s = None"
    and "length (tcp_frame resp) \<le> recv_buffer_size"
    and "getResponse cmd args ch None tmo sb c w = (d, c', w', conn')"
  shows "d = resp \<and> \<not> error c' \<and> \<not> busy c' \<and> conn' = None \<and>
         w_wire w' = w_wire w @ [tcp_frame (request_line cmd (fst (getPasswordData ch sb c w)) args)]"
  using getResponse_frame_reply [OF assms(1-9), where cmd = cmd and args = args and ch = ch and sb = sb and c = c]
    assms(10)
  by simp

section \<open>Lemmas: the arguments of saveSharedPaths\<close>

lemma dir_arg_fields: "dir_arg esc i d = join_on CHR ''&'' (dir_fields esc i d)"
  by (simp add: dir_arg_def dir_fields_def Let_def)

lemma save_args_from_join:
  "save_args_from esc i ds args =
     (if ds = [] then args
      else (if i \<noteq> 0 then args @ ''&'' else args) @
           join_on CHR ''&'' (concat (map (\<lambda>(j, d). dir_fields esc j d) (zip [i..<i + length ds] ds))))"
proof (induction ds arbitrary: i args)
  case Nil
  then show ?case by simp
next
  case (Cons d ds)
  have ne: "dir_fields esc j e \<noteq> []" for j e by (simp add: dir_fields_def Let_def)
  have z: "zip [i..<i + length (d # ds)] (d # ds) = (i, d) # zip [Suc i..<Suc i + length ds] ds"
    by (simp add: upt_rec)
  show ?case
  proof (cases "ds = []")
    case True
    then show ?thesis by (simp add: dir_arg_fields)
  next
    case False
    then obtain e es where "ds = e # es" by (cases ds) auto
    then have "concat (map (\<lambda>(j, d). dir_fields esc j d) (zip [Suc i..<Suc i + length ds] ds)) \<noteq> []"
      using ne by (simp add: upt_rec)
    then show ?thesis
      using Cons.IH [of "Suc i"] False ne z
      by (simp add: dir_arg_fields join_on_append)
  qed
qed

lemma dir_key_inj:
  assumes "sx \<in> {[], ''_name'', ''_group''}" and "sy \<in> {[], ''_name'', ''_group''}"
    and "dir_key i sx = dir_key j sy"
  shows "i = j \<and> sx = sy"
proof -
  have "sx = [] \<or> \<not> is_digit (hd sx)" "sy = [] \<or> \<not> is_digit (hd sy)"
    using assms(1,2) by (auto simp: is_digit_def)
  then show ?thesis using nconvert_prefix_inj [of "int i" "int j" sx sy] assms(3) by (simp add: dir_key_def)
qed

lemma dir_fields_pairs:
  "map param_pair (dir_fields esc j d) =
     [(dir_key j [], esc (bd_path d)),
      (dir_key j ''_name'', (let name0 = esc (bd_name d) in
          if CHR ''/'' \<notin> set name0 \<and> bd_flags d \<noteq> [] then name0 @ ''/'' @ bd_flags d else name0)),
      (dir_key j ''_group'', nconvert (bd_group d))]"
proof -
  have "CHR ''='' \<notin> set (nconvert (int j))"
    using nconvert_nonneg_digits [of "int j"] by (auto simp: is_digit_def)
  then show ?thesis
    using param_pair_key [of "''dir_'' @ nconvert (int j)"] param_pair_key [of "''dir_'' @ nconvert (int j) @ ''_name''"]
          param_pair_key [of "''dir_'' @ nconvert (int j) @ ''_group''"]
    by (simp add: dir_fields_def dir_key_def Let_def)
qed

lemma dir_key_list:
  "concat (map (\<lambda>j. [dir_key j [], dir_key j ''_name'', dir_key j ''_group'']) js) =
   map (\<lambda>(j, sx). dir_key j sx) (concat (map (\<lambda>j. [(j, []), (j, ''_name''), (j, ''_group'')]) js))"
  by (induction js) simp_all

lemma dir_keys_distinct:
  assumes "distinct js"
  shows "distinct (concat (map (\<lambda>j. [dir_key j [], dir_key j ''_name'', dir_key j ''_group'']) js))"
proof -
  let ?P = "concat (map (\<lambda>j. [(j, []), (j, ''_name''), (j, ''_group'')]) js)"
  have "distinct ?P" using assms by (induction js) auto
  moreover have "inj_on (\<lambda>(j, sx). dir_key j sx) (set ?P)"
  proof (rule inj_onI)
    fix x y assume x: "x \<in> set ?P" and y: "y \<in> set ?P"
      and e: "(\<lambda>(j, sx). dir_key j sx) x = (\<lambda>(j, sx). dir_key j sx) y"
    obtain i sx j sy where xy: "x = (i, sx)" "y = (j, sy)" by (cases x, cases y)
    have "sx \<in> {[], ''_name'', ''_group''}" "sy \<in> {[], ''_name'', ''_group''}" using x y xy by auto
    moreover have "dir_key i sx = dir_key j sy" using e xy by simp
    ultimately show "x = y" using dir_key_inj xy by blast
  qed
  ultimately show ?thesis by (simp only: dir_key_list distinct_map)
qed

lemma save_args_pairs:
  assumes "ds \<noteq> []" and "\<forall>s. CHR ''&'' \<notin> set (esc s)" and "\<forall>d\<in>set ds. CHR ''&'' \<notin> set (bd_flags d)"
  shows "ParseParamStr (save_args_from esc 0 ds []) =
           map_of (rev (concat (map (\<lambda>(j, d). map param_pair (dir_fields esc j d)) (zip [0..<length ds] ds))))"
proof -
  let ?L = "concat (map (\<lambda>(j, d). dir_fields esc j d) (zip [0..<length ds] ds))"
  have ne: "?L \<noteq> []" using assms(1) by (cases ds) (simp_all add: dir_fields_def Let_def upt_conv_Cons del: upt_Suc)
  have f: "\<forall>x\<in>set (dir_fields esc j d). CHR ''&'' \<notin> set x" if "d \<in> set ds" for j d
    using assms(2,3) that nconvert_no_amp by (simp add: dir_fields_def Let_def)
  have "\<forall>x\<in>set ?L. CHR ''&'' \<notin> set x"
  proof
    fix x assume "x \<in> set ?L"
    then obtain j d where jd: "(j, d) \<in> set (zip [0..<length ds] ds)" and x: "x \<in> set (dir_fields esc j d)"
      by auto
    from jd have "d \<in> set ds" by (rule set_zip_rightD)
    then show "CHR ''&'' \<notin> set x" using f x by blast
  qed
  then have "split_on CHR ''&'' (join_on CHR ''&'' ?L) = ?L" using ne by (simp add: split_on_join_on)
  then show ?thesis using assms(1)
    by (simp add: ParseParamStr_def save_args_from_join map_concat case_prod_beta' comp_def)
qed

lemma save_args_lookup:
  assumes "\<forall>s. CHR ''&'' \<notin> set (esc s)" and "\<forall>d\<in>set ds. CHR ''&'' \<notin> set (bd_flags d)"
    and "i < length ds" and "(k, v) \<in> set (map param_pair (dir_fields esc i (ds ! i)))"
  shows "ParseParamStr (save_args_from esc 0 ds []) k = Some v"
proof -
  let ?Z = "zip [0..<length ds] ds"
  let ?Q = "concat (map (\<lambda>(j, d). map param_pair (dir_fields esc j d)) ?Z)"
  have z: "map (\<lambda>x. g (fst x)) ?Z = map g [0..<length ds]" for g :: "nat \<Rightarrow> bytes list"
  proof -
    have "map (\<lambda>x. g (fst x)) ?Z = map g (map fst ?Z)" by (simp only: map_map comp_def)
    then show ?thesis by (simp only: map_fst_zip length_upt diff_zero)
  qed
  have "map fst ?Q = concat (map (\<lambda>x. [dir_key (fst x) [], dir_key (fst x) ''_name'', dir_key (fst x) ''_group'']) ?Z)"
    by (simp add: map_concat case_prod_beta' dir_fields_pairs comp_def)
  then have "map fst ?Q = concat (map (\<lambda>j. [dir_key j [], dir_key j ''_name'', dir_key j ''_group'']) [0..<length ds])"
    using z [of "\<lambda>j. [dir_key j [], dir_key j ''_name'', dir_key j ''_group'']"] by simp
  then have "distinct (map fst ?Q)" using dir_keys_distinct [of "[0..<length ds]"] by simp
  then have dq: "distinct (map fst (rev ?Q))" by (simp add: rev_map [symmetric])
  have "(i, ds ! i) \<in> set ?Z" using assms(3) unfolding in_set_zip by (intro exI [of _ i]) simp
  then have "(k, v) \<in> set (rev ?Q)" using assms(4) by auto
  then have "map_of (rev ?Q) k = Some v" by (rule map_of_is_SomeI [OF dq])
  moreover have "ds \<noteq> []" using assms(3) by auto
  ultimately show ?thesis using save_args_pairs [OF _ assms(1,2)] by simp
qed

section \<open>Properties of the decoders\<close>

text \<open>
  C8. \<^verbatim>\<open>getSharedPaths\<close> decodes the daemon's list of directories: every entry
  without a \<^verbatim>\<open>virtual_client\<close> marker is returned, in order, with its five fields;
  every entry with a non-null marker is skipped.
\<close>

theorem decode_shared_paths_roundtrip:
  assumes "\<forall>(d, vc)\<in>set es. int32_range (bd_id d) \<and> int32_range (bd_group d)"
  shows "decode_shared_paths (JObject [(''dirs'', JArray (map (\<lambda>(d, vc). dir_json d vc) es))]) =
           map fst (filter (\<lambda>(d, vc). vc = JNull) es)"
proof -
  have tw: "takeWhile (\<lambda>x. \<not> isl (decode_dir x)) (map (\<lambda>(d, vc). dir_json d vc) es) =
        map (\<lambda>(d, vc). dir_json d vc) es"
    unfolding takeWhile_eq_all_conv using assms by (auto simp: decode_dir_json)
  have cm: "concat (map (\<lambda>x. case decode_dir x of Inr (Some d) \<Rightarrow> [d] | _ \<Rightarrow> [])
                   (map (\<lambda>(d, vc). dir_json d vc) es)) = map fst (filter (\<lambda>(d, vc). vc = JNull) es)"
    using assms by (induction es) (auto simp: decode_dir_json)
  show ?thesis by (simp only: decode_shared_paths_array tw cm)
qed

text \<open>
  C9. A malformed entry of the directory list does not make the result empty or flagged:
  the exception ends the loop and \<^verbatim>\<open>getSharedPaths\<close> returns the entries decoded
  before it, indistinguishable from a shorter, valid list.
\<close>

theorem decode_shared_paths_partial:
  assumes "\<forall>d\<in>set ds. int32_range (bd_id d) \<and> int32_range (bd_group d)" and "isl (decode_dir bad)"
  shows "decode_shared_paths (JObject [(''dirs'', JArray (map (\<lambda>d. dir_json d JNull) ds @ bad # rest))]) = ds"
proof -
  have tw: "takeWhile (\<lambda>x. \<not> isl (decode_dir x)) (map (\<lambda>d. dir_json d JNull) ds @ bad # rest) =
        map (\<lambda>d. dir_json d JNull) ds"
    using assms by (subst takeWhile_append2) (auto simp: decode_dir_json)
  have cm: "concat (map (\<lambda>x. case decode_dir x of Inr (Some d) \<Rightarrow> [d] | _ \<Rightarrow> [])
                   (map (\<lambda>d. dir_json d JNull) ds)) = ds"
    using assms(1) by (induction ds) (auto simp: decode_dir_json)
  show ?thesis by (simp only: decode_shared_paths_array tw cm)
qed

text \<open>
  C10. \<^verbatim>\<open>getLogdata\<close> decodes the daemon's log text: lines \<^verbatim>\<open>level-message\<close>
  joined by newlines give back each level and message, in order, when the levels are
  non-negative and the messages hold no newline (a message may contain \<^verbatim>\<open>-\<close>).
\<close>

theorem log_lines_roundtrip:
  assumes "\<forall>(l, m)\<in>set es. 0 \<le> l \<and> CHR ''\<newline>'' \<notin> set m"
  shows "log_lines (join_on CHR ''\<newline>'' (map (\<lambda>(l, m). nconvert l @ ''-'' @ m) es)) =
           map (\<lambda>(l, m). \<lparr>loglevel = l, msg = m\<rparr>) es"
proof -
  have "\<forall>x\<in>set (map (\<lambda>(l, m). nconvert l @ ''-'' @ m) es). x \<noteq> [] \<and> CHR ''\<newline>'' \<notin> set x"
    using assms nconvert_nonneg_digits digit_not_newline by fastforce
  then have "log_lines (join_on CHR ''\<newline>'' (map (\<lambda>(l, m). nconvert l @ ''-'' @ m) es)) =
             map log_line_of (map (\<lambda>(l, m). nconvert l @ ''-'' @ m) es)"
    unfolding log_lines_def TokenizeMail_def by (rule nonempty_lines_join)
  also have "\<dots> = map (\<lambda>(l, m). \<lparr>loglevel = l, msg = m\<rparr>) es"
    using assms by (auto simp: log_line_of_def nconvert_dash)
  finally show ?thesis .
qed

text \<open>
  The index loop of \<^verbatim>\<open>getLogEntries\<close> over \<^verbatim>\<open>linecount\<close> and \<^verbatim>\<open>getline\<close>
  visits the newline-separated fields in order; the line after a final newline, which the
  count leaves out, is empty and skipped anyway.
\<close>

lemma log_entries_split:
  "log_entries d = [log_entry_of l. l \<leftarrow> split_on CHR ''\<newline>'' d, l \<noteq> []]"
proof -
  let ?L = "split_on CHR ''\<newline>'' d"
  have lc: "linecount d \<le> length ?L" by (simp add: linecount_def)
  have "map (\<lambda>i. getline i d) [0..<linecount d] = map (\<lambda>i. ?L ! i) [0..<linecount d]"
    using lc by (simp add: getline_def)
  then have g: "map (\<lambda>i. getline i d) [0..<linecount d] = take (linecount d) ?L"
    using lc by (simp add: map_nth_upt_take)
  show ?thesis
  proof (cases "d = [] \<or> last d \<noteq> CHR ''\<newline>''")
    case True
    then show ?thesis using g by (auto simp: log_entries_def linecount_def)
  next
    case False
    then have "d = butlast d @ [CHR ''\<newline>'']" by (metis append_butlast_last_id)
    then have "?L = split_on CHR ''\<newline>'' (butlast d) @ [[]]"
      by (metis split_on_snoc_sep)
    then show ?thesis using g False by (simp add: log_entries_def linecount_def)
  qed
qed

text \<open>
  C11. \<^verbatim>\<open>getLogEntries\<close>' decoder recovers the log points: when the daemon's
  reply is the newline-joined lines \<^verbatim>\<open>id-time\<close> of a list of log points with
  non-negative ids and times without a newline, the decoder returns exactly those points,
  in order, with the id read by \<^verbatim>\<open>atoi\<close> before the first \<^verbatim>\<open>-\<close> and the time
  after it (times may contain \<^verbatim>\<open>-\<close>).
\<close>

theorem log_entries_roundtrip:
  assumes "\<forall>(i, t)\<in>set es. 0 \<le> i \<and> CHR ''\<newline>'' \<notin> set t"
  shows "log_entries (join_on CHR ''\<newline>'' (map (\<lambda>(i, t). nconvert i @ ''-'' @ t) es)) =
           map (\<lambda>(i, t). \<lparr>logid = i, logtime = t\<rparr>) es"
proof -
  have "\<forall>x\<in>set (map (\<lambda>(i, t). nconvert i @ ''-'' @ t) es). x \<noteq> [] \<and> CHR ''\<newline>'' \<notin> set x"
    using assms nconvert_nonneg_digits digit_not_newline by fastforce
  then have "log_entries (join_on CHR ''\<newline>'' (map (\<lambda>(i, t). nconvert i @ ''-'' @ t) es)) =
             map log_entry_of (map (\<lambda>(i, t). nconvert i @ ''-'' @ t) es)"
    unfolding log_entries_split by (rule nonempty_lines_join)
  also have "\<dots> = map (\<lambda>(i, t). \<lparr>logid = i, logtime = t\<rparr>) es"
    using assms by (auto simp: log_entry_of_def nconvert_dash)
  finally show ?thesis .
qed

text \<open>
  C12. \<^verbatim>\<open>getStatusDetails\<close> end to end: when the daemon answers \<^verbatim>\<open>STATUS DETAIL\<close>
  with the document of a status \<open>r\<close>, every field of \<open>r\<close> is read back and
  \<^verbatim>\<open>ok\<close> is true, whatever the defaults were; one request frame was written.
\<close>

theorem getStatusDetails_reply:
  assumes "w_daemon w = s # ss" and "sk_connect s = Accepts a" and "a < w_clock w + tmo"
    and "0 < tmo" and "sk_arrivals s = [(ta, tcp_frame resp)]" and "ta < w_clock w + tmo"
    and "sk_inbuf s = []" and "sk_lost_at s = None"
    and "length (tcp_frame resp) \<le> recv_buffer_size"
    and "jparse resp = Some (status_json r)" and "status_in_range r"
  shows "case getStatusDetails jparse dflt None tmo sb c w of (st, c', w', conn') \<Rightarrow>
           st = r\<lparr>ok := True\<rparr> \<and> \<not> error c' \<and>
           w_wire w' = w_wire w @ [tcp_frame (request_line ''STATUS DETAIL'' (fst (getPasswordData False sb c w)) [])]"
proof -
  obtain d c' w' conn' where gr: "getResponse ''STATUS DETAIL'' [] False None tmo sb c w = (d, c', w', conn')"
    by (cases "getResponse ''STATUS DETAIL'' [] False None tmo sb c w") auto
  have "d = resp \<and> \<not> error c' \<and> \<not> busy c' \<and> conn' = None \<and>
        w_wire w' = w_wire w @ [tcp_frame (request_line ''STATUS DETAIL'' (fst (getPasswordData False sb c w)) [])]"
    by (rule getResponse_reply_eq [OF assms(1-9) gr])
  then show ?thesis
    using gr assms(10) status_details_of_json [OF assms(11)] by (simp add: getStatusDetails_def)
qed

text \<open>
  C13. The optional fields of a running process take the defaults of the source:
  \<^verbatim>\<open>details\<close> the empty string, \<^verbatim>\<open>detail_pc\<close> -1, \<^verbatim>\<open>process_id\<close> 0.
\<close>

theorem decode_process_defaults:
  assumes "int32_range pc" and "int64_range eta"
  shows "decode_process (JObject [(''action'', JString act), (''percent_done'', JInt pc), (''eta_ms'', JInt eta)]) =
           Inr \<lparr>action = act, percent_done = pc, eta_ms = eta, details = [], detail_pc = -1, process_id = 0\<rparr>"
  using assms by (simp add: decode_process_def int32_range_def int64_range_def)

text \<open>
  C14. A status document whose process list is malformed decodes to a record with
  \<^verbatim>\<open>ok\<close> false but with \<^verbatim>\<open>last_backup_time\<close> already taken from the document:
  the fields assigned before the exception are not reset to their defaults.
\<close>

theorem status_details_partial:
  assumes "int64_range t" and "isl (j_elements decode_process procs)"
  shows "status_details_of ret (JObject ((''last_backup_time'', JInt t) # (''running_processes'', procs) # rest)) =
           ret\<lparr>last_backup_time := t\<rparr>"
  using assms by (cases "j_elements decode_process procs") (simp_all add: status_details_of_def)

text \<open>
  C15. \<^verbatim>\<open>restoreOk\<close> lets a decoding exception escape: an accepted reply whose
  \<^verbatim>\<open>ok\<close> is a string raises the conversion error out of the function, after the
  out-parameter \<^verbatim>\<open>process_id\<close> has already been overwritten.
\<close>

theorem restore_reply_escapes:
  assumes "int64_range p"
  shows "restore_reply (JObject [(''accepted'', JBool True), (''process_id'', JInt p), (''ok'', JString str)]) pid =
           (Inl (JsonTypeError ''asBool: not convertible''), p)"
  using assms by (simp add: restore_reply_def j_asBool_def)

text \<open>
  C16. \<^verbatim>\<open>restoreOk\<close> on a well-formed reply returns its \<^verbatim>\<open>ok\<close> and takes the
  daemon's \<^verbatim>\<open>process_id\<close> exactly when the restore was accepted; otherwise the
  caller's value is kept.
\<close>

theorem restore_reply_ok:
  assumes "int64_range p"
  shows "restore_reply (JObject [(''accepted'', JBool acc), (''process_id'', JInt p), (''ok'', JBool b)]) pid =
           (Inr b, if acc then p else pid)"
  using assms by (simp add: restore_reply_def)

text \<open>
  C17. \<^verbatim>\<open>startBackup\<close> end to end: it sends \<^verbatim>\<open>START BACKUP FULL\<close> or
  \<^verbatim>\<open>START BACKUP INCR\<close> with the password and maps the reply \<^verbatim>\<open>RUNNING\<close> to 2,
  \<^verbatim>\<open>NO SERVER\<close> to 3, \<^verbatim>\<open>OK\<close> to 1 and anything else to 0.
\<close>

theorem startBackup_reply:
  assumes "w_daemon w = s # ss" and "sk_connect s = Accepts a" and "a < w_clock w + tmo"
    and "0 < tmo" and "sk_arrivals s = [(ta, tcp_frame resp)]" and "ta < w_clock w + tmo"
    and "sk_inbuf s = []" and "sk_lost_at s = None"
    and "length (tcp_frame resp) \<le> recv_buffer_size"
  shows "case startBackup full tmo sb c w of (r, c', w') \<Rightarrow>
           r = (if resp = ''RUNNING'' then 2 else if resp = ''NO SERVER'' then 3
                else if resp = ''OK'' then 1 else 0) \<and> \<not> error c' \<and>
           w_wire w' = w_wire w @ [tcp_frame (request_line (if full then ''START BACKUP FULL'' else ''START BACKUP INCR'')
                                                      (fst (getPasswordData False sb c w)) [])]"
proof -
  let ?cmd = "if full then ''START BACKUP FULL'' else ''START BACKUP INCR''"
  obtain d c' w' conn' where gr: "getResponse ?cmd [] False None tmo sb c w = (d, c', w', conn')"
    by (cases "getResponse ?cmd [] False None tmo sb c w") auto
  have "d = resp \<and> \<not> error c' \<and> \<not> busy c' \<and> conn' = None \<and>
        w_wire w' = w_wire w @ [tcp_frame (request_line ?cmd (fst (getPasswordData False sb c w)) [])]"
    by (rule getResponse_reply_eq [OF assms gr])
  then show ?thesis
    using gr by (simp add: startBackup_def start_result_def)
qed

text \<open>
  C18. \<^verbatim>\<open>getCapabilities\<close> returns the daemon's capability bits when the status
  document decodes.
\<close>

theorem getCapabilities_reply:
  assumes "w_daemon w = s # ss" and "sk_connect s = Accepts a" and "a < w_clock w + tmo"
    and "0 < tmo" and "sk_arrivals s = [(ta, tcp_frame resp)]" and "ta < w_clock w + tmo"
    and "sk_inbuf s = []" and "sk_lost_at s = None"
    and "length (tcp_frame resp) \<le> recv_buffer_size"
    and "jparse resp = Some (status_json r)" and "status_in_range r"
  shows "fst (getCapabilities jparse dflt tmo sb c w) = capability_bits r"
proof -
  obtain d c' w' conn' where gr: "getResponse ''STATUS DETAIL'' [] False None tmo sb c w = (d, c', w', conn')"
    by (cases "getResponse ''STATUS DETAIL'' [] False None tmo sb c w") auto
  have "d = resp" using getResponse_reply_eq [OF assms(1-9) gr] by simp
  then show ?thesis
    using gr assms(10) status_details_of_json [OF assms(11)]
    by (simp add: getCapabilities_def getStatusDetails_def)
qed

text \<open>
  C27. \<^verbatim>\<open>saveSharedPaths\<close> encodes its list so that the daemon's parameter parser
  reads back, for every entry \<open>i\<close>, the escaped path under \<^verbatim>\<open>dir_i\<close>, the escaped name
  (with \<^verbatim>\<open>/flags\<close> appended when the name has no \<^verbatim>\<open>/\<close>) under \<^verbatim>\<open>dir_i_name\<close>,
  and the group under \<^verbatim>\<open>dir_i_group\<close>, provided the escaping removes \<^verbatim>\<open>&\<close> and the
  flags contain none.
\<close>

theorem saveSharedPaths_args_roundtrip:
  assumes "\<forall>s. CHR ''&'' \<notin> set (esc s)" and "\<forall>d\<in>set ds. CHR ''&'' \<notin> set (bd_flags d)"
    and "i < length ds"
  shows "ParseParamStr (save_args_from esc 0 ds []) (''dir_'' @ nconvert (int i)) = Some (esc (bd_path (ds ! i))) \<and>
         ParseParamStr (save_args_from esc 0 ds []) (''dir_'' @ nconvert (int i) @ ''_name'') =
           Some (if CHR ''/'' \<notin> set (esc (bd_name (ds ! i))) \<and> bd_flags (ds ! i) \<noteq> []
                 then esc (bd_name (ds ! i)) @ ''/'' @ bd_flags (ds ! i) else esc (bd_name (ds ! i))) \<and>
         ParseParamStr (save_args_from esc 0 ds []) (''dir_'' @ nconvert (int i) @ ''_group'') =
           Some (nconvert (bd_group (ds ! i)))"
  using save_args_lookup [OF assms] by (simp add: dir_fields_pairs dir_key_def Let_def)

text \<open>
  C28. The flags are appended after escaping and are not escaped themselves: flags that
  contain \<^verbatim>\<open>&dir_0=...\<close> override the path the daemon reads for entry 0.
\<close>

theorem saveSharedPaths_flags_override:
  assumes "\<forall>s. CHR ''&'' \<notin> set (esc s)" and "CHR ''/'' \<notin> set (esc n)"
    and "CHR ''&'' \<notin> set f" and "CHR ''&'' \<notin> set v"
  shows "ParseParamStr (save_args_from esc 0
           [\<lparr>bd_path = p, bd_name = n, bd_id = k, bd_group = g, bd_flags = f @ ''&dir_0='' @ v\<rparr>] []) ''dir_0''
         = Some v"
proof -
  let ?F = "[''dir_0='' @ esc p, ''dir_0_name='' @ esc n @ ''/'' @ f, ''dir_0='' @ v, ''dir_0_group='' @ nconvert g]"
  have z: "nconvert 0 = ''0''"
    using char_of_char [of "CHR ''0''"] by (simp add: nconvert_def nat_digits.simps digit_char_def)
  have "save_args_from esc 0 [\<lparr>bd_path = p, bd_name = n, bd_id = k, bd_group = g, bd_flags = f @ ''&dir_0='' @ v\<rparr>] []
        = join_on CHR ''&'' ?F"
    using assms(2) by (simp add: save_args_from_join dir_fields_def z)
  moreover have "split_on CHR ''&'' (join_on CHR ''&'' ?F) = ?F"
    using assms(1,3,4) nconvert_no_amp by (intro split_on_join_on) auto
  ultimately show ?thesis
    using param_pair_key [of "''dir_0''"] param_pair_key [of "''dir_0_name''"] param_pair_key [of "''dir_0_group''"]
    by (simp add: ParseParamStr_def)
qed


text \<open>
  C30. The arguments of \<^verbatim>\<open>getLogdata\<close> parse back: \<^verbatim>\<open>logid\<close> and \<^verbatim>\<open>loglevel\<close>
  are found by the daemon's parameter parser and read back as the caller's integers,
  negative ones included.
\<close>

theorem logdata_args_roundtrip:
  "map_option atoi (ParseParamStr (logdata_args lid lvl) ''logid'') = Some lid \<and>
   map_option atoi (ParseParamStr (logdata_args lid lvl) ''loglevel'') = Some lvl"
proof -
  have "CHR ''&'' \<notin> set (nconvert i)" for i by (rule nconvert_no_amp)
  then have "split_on CHR ''&'' (logdata_args lid lvl) = [''logid='' @ nconvert lid, ''loglevel='' @ nconvert lvl]"
    using split_on_join_on [of "[''logid='' @ nconvert lid, ''loglevel='' @ nconvert lvl]" "CHR ''&''"]
    by (simp add: logdata_args_def)
  then show ?thesis
    using param_pair_key [of "''logid''"] param_pair_key [of "''loglevel''"]
          atoi_nconvert [of "[]" lid] atoi_nconvert [of "[]" lvl]
    by (simp add: ParseParamStr_def)
qed

section \<open>Witnesses\<close>

theorem decode_shared_paths_roundtrip_witness:
  "decode_shared_paths (JObject [(''dirs'', JArray
      [dir_json \<lparr>bd_path = ''/home'', bd_name = ''home'', bd_id = 1, bd_group = 0, bd_flags = []\<rparr> JNull,
       dir_json \<lparr>bd_path = ''/vm'', bd_name = ''vm'', bd_id = 2, bd_group = 0, bd_flags = []\<rparr> (JString ''vm1'')])]) =
   [\<lparr>bd_path = ''/home'', bd_name = ''home'', bd_id = 1, bd_group = 0, bd_flags = []\<rparr>]"
  using decode_shared_paths_roundtrip
    [where es = "[(\<lparr>bd_path = ''/home'', bd_name = ''home'', bd_id = 1, bd_group = 0, bd_flags = []\<rparr>, JNull),
                  (\<lparr>bd_path = ''/vm'', bd_name = ''vm'', bd_id = 2, bd_group = 0, bd_flags = []\<rparr>, JString ''vm1'')]"]
  by (simp add: int32_range_def)

theorem decode_shared_paths_partial_witness:
  "decode_shared_paths (JObject [(''dirs'', JArray
      [dir_json \<lparr>bd_path = ''/home'', bd_name = ''home'', bd_id = 1, bd_group = 0, bd_flags = []\<rparr> JNull,
       JObject [(''path'', JInt 7)],
       dir_json \<lparr>bd_path = ''/data'', bd_name = ''data'', bd_id = 3, bd_group = 0, bd_flags = []\<rparr> JNull])]) =
   [\<lparr>bd_path = ''/home'', bd_name = ''home'', bd_id = 1, bd_group = 0, bd_flags = []\<rparr>]"
  using decode_shared_paths_partial
    [where ds = "[\<lparr>bd_path = ''/home'', bd_name = ''home'', bd_id = 1, bd_group = 0, bd_flags = []\<rparr>]"
       and bad = "JObject [(''path'', JInt 7)]"
       and rest = "[dir_json \<lparr>bd_path = ''/data'', bd_name = ''data'', bd_id = 3, bd_group = 0, bd_flags = []\<rparr> JNull]"]
  by (simp add: int32_range_def decode_dir_def j_isNull_def j_asCString_def)

theorem log_lines_roundtrip_witness:
  "log_lines (join_on CHR ''\<newline>'' [nconvert 2 @ ''-'' @ ''Backup started'', nconvert 0 @ ''-'' @ ''a-b''])
     = [\<lparr>loglevel = 2, msg = ''Backup started''\<rparr>, \<lparr>loglevel = 0, msg = ''a-b''\<rparr>]"
  using log_lines_roundtrip [where es = "[(2, ''Backup started''), (0, ''a-b'')]"] by simp

text \<open>
  C34. Type safety of the status decoder: whenever \<^verbatim>\<open>getStatusDetails\<close> returns a
  record with \<^verbatim>\<open>ok\<close> set, every integer field of it and of its running processes lies in
  the range of its C type (\<^verbatim>\<open>int\<close> for percentages and capability bits,
  \<^verbatim>\<open>int64_t\<close> for times and process ids), whatever the daemon sent.
\<close>

theorem getStatusDetails_ok_in_range:
  "case getStatusDetails jparse dflt conn tmo sb c w of (st, c', w', conn') \<Rightarrow>
     ok st \<longrightarrow> status_in_range st"
  by (auto simp: getStatusDetails_def Let_def split: prod.splits option.splits
           intro: status_details_of_range)

theorem getStatusDetails_reply_witness:
  "case getStatusDetails
          (\<lambda>_. Some (status_json \<lparr>last_backup_time = 100, running_processes = [],
                       servers = [\<lparr>internet_connection = True, srv_name = ''srv''\<rparr>],
                       time_since_last_lan_connection = 5, internet_connected = False,
                       internet_status = ''no_server'', capability_bits = 3, ok = False\<rparr>))
          \<lparr>last_backup_time = 0, running_processes = [], servers = [], time_since_last_lan_connection = 0,
           internet_connected = False, internet_status = [], capability_bits = 0, ok = False\<rparr>
          None 1000 False
          \<lparr>pw = ''secret'', pw_change = [], busy = False, error = False\<rparr>
          \<lparr>w_clock = 0, w_files = (\<lambda>_. []),
           w_daemon = [\<lparr>sk_connect = Accepts 10, sk_arrivals = [(300, tcp_frame ''{}'')],
                        sk_inbuf = [], sk_lost_at = None\<rparr>],
           w_wire = [], w_ui = [], w_created = 0, w_destroyed = 0\<rparr> of (st, c', w', conn') \<Rightarrow>
     st = \<lparr>last_backup_time = 100, running_processes = [],
           servers = [\<lparr>internet_connection = True, srv_name = ''srv''\<rparr>],
           time_since_last_lan_connection = 5, internet_connected = False,
           internet_status = ''no_server'', capability_bits = 3, ok = True\<rparr> \<and>
     \<not> error c' \<and> w_wire w' = [tcp_frame ''STATUS DETAIL#pw=secret'']"
proof -
  define R where "R = \<lparr>last_backup_time = 100, running_processes = [],
                       servers = [\<lparr>internet_connection = True, srv_name = ''srv''\<rparr>],
                       time_since_last_lan_connection = 5, internet_connected = False,
                       internet_status = ''no_server'', capability_bits = 3, ok = False\<rparr>"
  define D where "D = \<lparr>last_backup_time = 0, running_processes = [], servers = [],
                       time_since_last_lan_connection = 0, internet_connected = False,
                       internet_status = [], capability_bits = 0, ok = False\<rparr>"
  define s0 where "s0 = \<lparr>sk_connect = Accepts 10, sk_arrivals = [(300::nat, tcp_frame ''{}'')],
                         sk_inbuf = [], sk_lost_at = None\<rparr>"
  define w0 where "w0 = \<lparr>w_clock = 0, w_files = (\<lambda>_::string. []::string), w_daemon = [s0],
                         w_wire = [], w_ui = [], w_created = 0, w_destroyed = 0\<rparr>"
  define c0 where "c0 = \<lparr>pw = ''secret'', pw_change = [], busy = False, error = False\<rparr>"
  have "case getStatusDetails (\<lambda>_. Some (status_json R)) D None 1000 False c0 w0 of (st, c', w', conn') \<Rightarrow>
          st = R\<lparr>ok := True\<rparr> \<and> \<not> error c' \<and>
          w_wire w' = w_wire w0 @ [tcp_frame (request_line ''STATUS DETAIL'' (fst (getPasswordData False False c0 w0)) [])]"
    by (rule getStatusDetails_reply [where s = s0 and ss = "[]" and a = 10 and ta = 300 and resp = "''{}''"])
       (simp_all add: s0_def w0_def recv_buffer_size_def R_def status_in_range_def int32_range_def int64_range_def)
  moreover have "fst (getPasswordData False False c0 w0) = ''secret''"
    by (simp add: getPasswordData_def c0_def Let_def)
  ultimately show ?thesis
    by (simp add: R_def D_def s0_def w0_def c0_def request_line_def t_args_def)
qed

theorem decode_process_defaults_witness:
  "decode_process (JObject [(''action'', JString ''INCR''), (''percent_done'', JInt 42), (''eta_ms'', JInt 60000)]) =
     Inr \<lparr>action = ''INCR'', percent_done = 42, eta_ms = 60000, details = [], detail_pc = -1, process_id = 0\<rparr>"
  using decode_process_defaults [where pc = 42 and eta = 60000 and act = "''INCR''"]
  by (simp add: int32_range_def int64_range_def)

theorem status_details_partial_witness:
  "status_details_of
      \<lparr>last_backup_time = 0, running_processes = [], servers = [], time_since_last_lan_connection = 0,
       internet_connected = False, internet_status = [], capability_bits = 0, ok = False\<rparr>
      (JObject [(''last_backup_time'', JInt 1700000000), (''running_processes'', JArray [JInt 1])]) =
   \<lparr>last_backup_time = 1700000000, running_processes = [], servers = [], time_since_last_lan_connection = 0,
    internet_connected = False, internet_status = [], capability_bits = 0, ok = False\<rparr>"
  using status_details_partial
    [where t = 1700000000 and procs = "JArray [JInt 1]" and rest = "[]"
       and ret = "\<lparr>last_backup_time = 0, running_processes = [], servers = [], time_since_last_lan_connection = 0,
                  internet_connected = False, internet_status = [], capability_bits = 0, ok = False\<rparr>"]
  by (simp add: int64_range_def j_elements_def decode_process_def j_member_def j_get_def)

theorem restore_reply_escapes_witness:
  "restore_reply (JObject [(''accepted'', JBool True), (''process_id'', JInt 7), (''ok'', JString ''true'')]) 0 =
     (Inl (JsonTypeError ''asBool: not convertible''), 7)"
  using restore_reply_escapes [where p = 7 and str = "''true''" and pid = 0] by (simp add: int64_range_def)

theorem restore_reply_ok_witness:
  "restore_reply (JObject [(''accepted'', JBool False), (''process_id'', JInt 7), (''ok'', JBool True)]) 3 =
     (Inr True, 3)"
  using restore_reply_ok [where p = 7 and acc = False and b = True and pid = 3] by (simp add: int64_range_def)

theorem startBackup_reply_witness:
  "case startBackup True 1000 False
          \<lparr>pw = ''secret'', pw_change = [], busy = False, error = True\<rparr>
          \<lparr>w_clock = 0, w_files = (\<lambda>_. []),
           w_daemon = [\<lparr>sk_connect = Accepts 10, sk_arrivals = [(300, tcp_frame ''RUNNING'')],
                        sk_inbuf = [], sk_lost_at = None\<rparr>],
           w_wire = [], w_ui = [], w_created = 0, w_destroyed = 0\<rparr> of (r, c', w') \<Rightarrow>
     r = 2 \<and> \<not> error c' \<and> w_wire w' = [tcp_frame ''START BACKUP FULL#pw=secret'']"
proof -
  define s0 where "s0 = \<lparr>sk_connect = Accepts 10, sk_arrivals = [(300::nat, tcp_frame ''RUNNING'')],
                         sk_inbuf = [], sk_lost_at = None\<rparr>"
  define w0 where "w0 = \<lparr>w_clock = 0, w_files = (\<lambda>_::string. []::string), w_daemon = [s0],
                         w_wire = [], w_ui = [], w_created = 0, w_destroyed = 0\<rparr>"
  define c0 where "c0 = \<lparr>pw = ''secret'', pw_change = [], busy = False, error = True\<rparr>"
  have "case startBackup True 1000 False c0 w0 of (r, c', w') \<Rightarrow>
          r = (if ''RUNNING'' = ''RUNNING'' then 2 else if ''RUNNING'' = ''NO SERVER'' then 3
               else if ''RUNNING'' = ''OK'' then 1 else 0) \<and> \<not> error c' \<and>
          w_wire w' = w_wire w0 @ [tcp_frame (request_line (if True then ''START BACKUP FULL'' else ''START BACKUP INCR'')
                                                     (fst (getPasswordData False False c0 w0)) [])]"
    by (rule startBackup_reply [where s = s0 and ss = "[]" and a = 10 and ta = 300])
       (simp_all add: s0_def w0_def recv_buffer_size_def)
  moreover have "fst (getPasswordData False False c0 w0) = ''secret''"
    by (simp add: getPasswordData_def c0_def Let_def)
  ultimately show ?thesis by (simp add: s0_def w0_def c0_def request_line_def t_args_def)
qed

theorem getCapabilities_reply_witness:
  "fst (getCapabilities
          (\<lambda>_. Some (status_json \<lparr>last_backup_time = 100, running_processes = [], servers = [],
                       time_since_last_lan_connection = 5, internet_connected = True,
                       internet_status = ''connected'', capability_bits = 12, ok = False\<rparr>))
          \<lparr>last_backup_time = 0, running_processes = [], servers = [], time_since_last_lan_connection = 0,
           internet_connected = False, internet_status = [], capability_bits = 0, ok = False\<rparr>
          1000 False
          \<lparr>pw = ''secret'', pw_change = [], busy = False, error = False\<rparr>
          \<lparr>w_clock = 0, w_files = (\<lambda>_. []),
           w_daemon = [\<lparr>sk_connect = Accepts 10, sk_arrivals = [(300, tcp_frame ''{}'')],
                        sk_inbuf = [], sk_lost_at = None\<rparr>],
           w_wire = [], w_ui = [], w_created = 0, w_destroyed = 0\<rparr>) = 12"
proof -
  define R where "R = \<lparr>last_backup_time = 100, running_processes = [], servers = [],
                       time_since_last_lan_connection = 5, internet_connected = True,
                       internet_status = ''connected'', capability_bits = 12, ok = False\<rparr>"
  define s0 where "s0 = \<lparr>sk_connect = Accepts 10, sk_arrivals = [(300::nat, tcp_frame ''{}'')],
                         sk_inbuf = [], sk_lost_at = None\<rparr>"
  have "fst (getCapabilities (\<lambda>_. Some (status_json R))
          \<lparr>last_backup_time = 0, running_processes = [], servers = [], time_since_last_lan_connection = 0,
           internet_connected = False, internet_status = [], capability_bits = 0, ok = False\<rparr>
          1000 False \<lparr>pw = ''secret'', pw_change = [], busy = False, error = False\<rparr>
          \<lparr>w_clock = 0, w_files = (\<lambda>_::string. []::string), w_daemon = [s0], w_wire = [], w_ui = [], w_created = 0, w_destroyed = 0\<rparr>)
        = capability_bits R"
    by (rule getCapabilities_reply [where s = s0 and ss = "[]" and a = 10 and ta = 300 and resp = "''{}''"])
       (simp_all add: s0_def recv_buffer_size_def R_def status_in_range_def int32_range_def int64_range_def)
  then show ?thesis by (simp add: R_def s0_def)
qed

theorem saveSharedPaths_args_roundtrip_witness:
  "ParseParamStr (save_args_from pct_escape 0
      [\<lparr>bd_path = ''/home'', bd_name = ''home'', bd_id = 1, bd_group = 0, bd_flags = []\<rparr>,
       \<lparr>bd_path = ''/srv/a&b'', bd_name = ''data'', bd_id = 2, bd_group = 1, bd_flags = ''optional''\<rparr>] [])
      (''dir_'' @ nconvert (int 1)) = Some (pct_escape ''/srv/a&b'') \<and>
   ParseParamStr (save_args_from pct_escape 0
      [\<lparr>bd_path = ''/home'', bd_name = ''home'', bd_id = 1, bd_group = 0, bd_flags = []\<rparr>,
       \<lparr>bd_path = ''/srv/a&b'', bd_name = ''data'', bd_id = 2, bd_group = 1, bd_flags = ''optional''\<rparr>] [])
      (''dir_'' @ nconvert (int 1) @ ''_name'') = Some (pct_escape ''data'' @ ''/optional'') \<and>
   ParseParamStr (save_args_from pct_escape 0
      [\<lparr>bd_path = ''/home'', bd_name = ''home'', bd_id = 1, bd_group = 0, bd_flags = []\<rparr>,
       \<lparr>bd_path = ''/srv/a&b'', bd_name = ''data'', bd_id = 2, bd_group = 1, bd_flags = ''optional''\<rparr>] [])
      (''dir_'' @ nconvert (int 1) @ ''_group'') = Some (nconvert 1)"
proof -
  have e: "\<forall>s. CHR ''&'' \<notin> set (pct_escape s)" by (auto simp: pct_escape_def)
  have "CHR ''/'' \<notin> set (pct_escape ''data'')" by (simp add: pct_escape_def)
  then show ?thesis
    using saveSharedPaths_args_roundtrip [OF e, where i = 1 and
      ds = "[\<lparr>bd_path = ''/home'', bd_name = ''home'', bd_id = 1, bd_group = 0, bd_flags = []\<rparr>,
             \<lparr>bd_path = ''/srv/a&b'', bd_name = ''data'', bd_id = 2, bd_group = 1, bd_flags = ''optional''\<rparr>]"]
    by simp
qed

theorem saveSharedPaths_flags_override_witness:
  "ParseParamStr (save_args_from pct_escape 0
      [\<lparr>bd_path = ''/home'', bd_name = ''home'', bd_id = 1, bd_group = 0, bd_flags = ''optional&dir_0=/etc''\<rparr>] [])
      ''dir_0'' = Some ''/etc''"
proof -
  have e: "\<forall>s. CHR ''&'' \<notin> set (pct_escape s)" by (auto simp: pct_escape_def)
  have "CHR ''/'' \<notin> set (pct_escape ''home'')" by (simp add: pct_escape_def)
  then show ?thesis
    using saveSharedPaths_flags_override [OF e, where n = "''home''" and f = "''optional''" and v = "''/etc''"
             and p = "''/home''" and k = 1 and g = 0]
    by simp
qed

theorem getStatusDetails_ok_in_range_witness:
  "let st = fst (getStatusDetails
          (\<lambda>_. Some (status_json \<lparr>last_backup_time = 1700000000, running_processes =
                         [\<lparr>action = ''INCR'', percent_done = 42, eta_ms = 60000, details = [],
                           detail_pc = -1, process_id = 7\<rparr>],
                       servers = [], time_since_last_lan_connection = 5, internet_connected = False,
                       internet_status = ''no_server'', capability_bits = 3, ok = False\<rparr>))
          \<lparr>last_backup_time = 0, running_processes = [], servers = [], time_since_last_lan_connection = 0,
           internet_connected = False, internet_status = [], capability_bits = 0, ok = False\<rparr>
          None 0 False \<lparr>pw = [], pw_change = [], busy = False, error = False\<rparr>
          \<lparr>w_clock = 0, w_files = (\<lambda>_. []), w_daemon = [], w_wire = [], w_ui = [], w_created = 0, w_destroyed = 0\<rparr>)
   in ok st \<and> status_in_range st"
proof -
  define R where "R = \<lparr>last_backup_time = 1700000000::int, running_processes =
                         [\<lparr>action = ''INCR'', percent_done = 42::int, eta_ms = 60000::int, details = [],
                           detail_pc = -1::int, process_id = 7::int\<rparr>],
                       servers = [], time_since_last_lan_connection = 5::int, internet_connected = False,
                       internet_status = ''no_server'', capability_bits = 3::int, ok = False\<rparr>"
  define D where "D = \<lparr>last_backup_time = 0::int, running_processes = [], servers = [],
                       time_since_last_lan_connection = 0::int, internet_connected = False,
                       internet_status = [], capability_bits = 0::int, ok = False\<rparr>"
  define C where "C = \<lparr>pw = []::string, pw_change = []::string, busy = False, error = False\<rparr>"
  define W where "W = \<lparr>w_clock = 0::nat, w_files = (\<lambda>_::string. []::string), w_daemon = [],
                       w_wire = [], w_ui = [], w_created = 0, w_destroyed = 0\<rparr>"
  have r: "status_in_range R"
    by (simp add: R_def status_in_range_def proc_in_range_def int32_range_def int64_range_def)
  have e: "fst (getStatusDetails (\<lambda>_. Some (status_json R)) D None 0 False C W) = R\<lparr>ok := True\<rparr>"
    using status_details_of_json [OF r, of "D\<lparr>ok := False\<rparr>"]
    by (simp add: getStatusDetails_def split: prod.splits)
  have "case getStatusDetails (\<lambda>_. Some (status_json R)) D None 0 False C W of (st, c', w', conn') \<Rightarrow>
          ok st \<longrightarrow> status_in_range st"
    by (rule getStatusDetails_ok_in_range)
  then have "ok (R\<lparr>ok := True\<rparr>) \<longrightarrow> status_in_range (R\<lparr>ok := True\<rparr>)"
    using e by (simp split: prod.splits)
  then show ?thesis using e by (simp add: R_def D_def C_def W_def Let_def)
qed

theorem log_entries_roundtrip_witness:
  "log_entries (join_on CHR ''\<newline>'' [nconvert 3 @ ''-'' @ ''2024-01-01 10:00'', nconvert 7 @ ''-'' @ ''x-y''])
     = [\<lparr>logid = 3, logtime = ''2024-01-01 10:00''\<rparr>, \<lparr>logid = 7, logtime = ''x-y''\<rparr>]"
  using log_entries_roundtrip [where es = "[(3, ''2024-01-01 10:00''), (7, ''x-y'')]"] by simp

end
