(* ===== verification/StatusPoller.thy ===== *)
theory StatusPoller
  imports Connector StringTools
begin

text \<open>
  The status poller of \<^verbatim>\<open>src/Connector.cpp\<close> (lines 540--731):
  \<^verbatim>\<open>Connector::initStatus\<close> opens (or reuses) a socket and sends \<^verbatim>\<open>STATUS\<close> or
  \<^verbatim>\<open>FSTATUS\<close> without waiting; \<^verbatim>\<open>SStatus::isAvailable\<close> is then called
  repeatedly, each call waiting at most 10 ms for data, reading at most 1024 bytes into the
  poller's own frame buffer and, when a frame is complete, decoding the \<^verbatim>\<open>#\<close>-separated
  status line into the snapshot. The \<^verbatim>\<open>SStatus\<close> object is a record holding its socket
  (\<open>None\<close> for \<^verbatim>\<open>NULL\<close>), the frame buffer of its \<^verbatim>\<open>CTCPStack\<close>, its own error
  flag and the decoded fields. A call of \<^verbatim>\<open>isAvailable\<close> on a \<^verbatim>\<open>NULL\<close> client
  dereferences \<^verbatim>\<open>NULL\<close>: its result is \<open>None\<close>. The default-constructed
  \<^verbatim>\<open>SStatus\<close> (its constructor is in \<^verbatim>\<open>Connector.h\<close>) is the parameter \<open>st0\<close>.
\<close>

section \<open>The snapshot\<close>

record SStatus =
  ss_init :: bool
  ss_starttime :: millis
  ss_timeoutms :: nat
  ss_client :: "sock option"
  ss_tcpstack :: bytes
  ss_error :: bool
  lastbackupdate :: bytes
  ss_status :: bytes
  pcdone :: bytes
  pause :: bool
  capa :: int
  new_server :: bytes
  has_server :: bool
  ask_restore_ok :: bool
  restore_file :: bool
  restore_path :: bytes
  needs_restore_restart :: int

section \<open>initStatus (lines 540--613)\<close>

text \<open>
  The caller's socket is kept unless it reports an error; otherwise a new socket is
  connected exactly as in \<^verbatim>\<open>getResponse\<close> (the same code, lines 572--597, modelled by
  \<open>open_client\<close>). On failure the process-wide \<^verbatim>\<open>error\<close> is latched and \<^verbatim>\<open>busy\<close>
  cleared; the snapshot is returned with \<^verbatim>\<open>init\<close> false and no client. On success the
  command is sent and \<^verbatim>\<open>init\<close> set.
\<close>

definition initStatus ::
  "sock option \<Rightarrow> SStatus \<Rightarrow> bool \<Rightarrow> nat \<Rightarrow> connector \<Rightarrow> world \<Rightarrow> SStatus \<times> connector \<times> world" where
  "initStatus last_client st0 fast timeoutms c w =
     (let last = (case last_client of
                    Some s \<Rightarrow> if sk_error s (w_clock w) then None else Some s
                  | None \<Rightarrow> None);
          w0 = (case last_client of
                  Some s \<Rightarrow> if sk_error s (w_clock w) then sk_destroy w else w
                | None \<Rightarrow> w);
          cmd = (if fast then ''FSTATUS'' else ''STATUS'');
          (curr_pw, c1) = getPasswordData False False c w0;
          status = st0\<lparr>ss_init := False, ss_starttime := w_clock w0\<rparr>
      in case (case last of Some s \<Rightarrow> (Some s, w0) | None \<Rightarrow> open_client (w_clock w0) timeoutms c1 w0) of
           (None, w1) \<Rightarrow> (status\<lparr>ss_client := None\<rparr>, c1\<lparr>error := True, busy := False\<rparr>, w1)
         | (Some s, w1) \<Rightarrow>
             (status\<lparr>ss_client := Some s, ss_timeoutms := timeoutms, ss_init := True\<rparr>, c1,
              send_request cmd curr_pw [] w1))"

section \<open>isAvailable: decoding the status line (lines 661--723)\<close>

text \<open>
  The optional fields of the fifth token, a parameter string: each key that is present
  sets its field; an absent key leaves the field as it was. \<^verbatim>\<open>watoi\<close> is \<^verbatim>\<open>atoi\<close>
  on the (wide) string.
\<close>

definition apply_params :: "SStatus \<Rightarrow> (bytes \<rightharpoonup> bytes) \<Rightarrow> SStatus" where
  "apply_params st params =
     (let st1 = (case params ''capa'' of Some v \<Rightarrow> st\<lparr>capa := atoi v\<rparr> | None \<Rightarrow> st);
          st2 = (case params ''new_ident'' of Some v \<Rightarrow> st1\<lparr>new_server := v\<rparr> | None \<Rightarrow> st1);
          st3 = (case params ''has_server'' of Some v \<Rightarrow> st2\<lparr>has_server := (v = ''true'')\<rparr> | None \<Rightarrow> st2);
          st4 = (case params ''restore_ask'' of Some v \<Rightarrow> st3\<lparr>ask_restore_ok := (atoi v \<noteq> 0)\<rparr> | None \<Rightarrow> st3);
          st5 = (case params ''restore_file'' of Some v \<Rightarrow> st4\<lparr>restore_file := (v = ''true'')\<rparr> | None \<Rightarrow> st4);
          st6 = (case params ''restore_path'' of Some v \<Rightarrow> st5\<lparr>restore_path := v\<rparr> | None \<Rightarrow> st5)
      in case params ''needs_restore_restart'' of
           Some v \<Rightarrow> st6\<lparr>needs_restore_restart := atoi v\<rparr>
         | None \<Rightarrow> st6)"

text \<open>
  The status line: \<^verbatim>\<open>pause\<close>, \<^verbatim>\<open>capa\<close> and \<^verbatim>\<open>ask_restore_ok\<close> are reset first;
  then each positional token that is present sets its field.
\<close>

definition apply_status_line :: "SStatus \<Rightarrow> bytes \<Rightarrow> SStatus" where
  "apply_status_line st ret =
     (let toks = Tokenize ret CHR ''#'';
          n = length toks;
          st1 = st\<lparr>pause := False, capa := 0, ask_restore_ok := False\<rparr>;
          st2 = (if n > 0 then st1\<lparr>lastbackupdate := toks ! 0\<rparr> else st1);
          st3 = (if n > 1 then st2\<lparr>ss_status := toks ! 1\<rparr> else st2);
          st4 = (if n > 2 then st3\<lparr>pcdone := toks ! 2\<rparr> else st3);
          st5 = (if n > 3 then
                   (if toks ! 3 = ''P'' then st4\<lparr>pause := True\<rparr>
                    else if toks ! 3 = ''NP'' then st4\<lparr>pause := False\<rparr> else st4)
                 else st4)
      in if n > 4 then apply_params st5 (ParseParamStr (toks ! 4)) else st5)"

section \<open>isAvailable (lines 615--727)\<close>

text \<open>
  After the wait reported data: read at most 1024 bytes; on a socket error destroy the
  client; otherwise feed the frame buffer and extract. \<^verbatim>\<open>packetsize==0\<close> (no complete
  frame) sets the poller's error but keeps the client and the buffer.
\<close>

definition poll_read :: "SStatus \<Rightarrow> sock \<Rightarrow> world \<Rightarrow> bool option \<times> SStatus \<times> world" where
  "poll_read st s w =
     (case sk_read s recv_buffer_size of
        (chunk, s2) \<Rightarrow>
          if sk_error s2 (w_clock w) then (Some False, st\<lparr>ss_error := True, ss_client := None\<rparr>, sk_destroy w)
          else
            (case get_packet (add_data (ss_tcpstack st) chunk) of
               (resp, packetsize, buf') \<Rightarrow>
                 if packetsize = 0
                 then (Some False, st\<lparr>ss_tcpstack := buf', ss_error := True, ss_client := Some s2\<rparr>, w)
                 else (Some True,
                       apply_status_line (st\<lparr>ss_tcpstack := buf', ss_client := Some s2\<rparr>)
                         (case resp of Some p \<Rightarrow> p | None \<Rightarrow> []),
                       w)))"

definition isAvailable :: "SStatus \<Rightarrow> world \<Rightarrow> bool option \<times> SStatus \<times> world" where
  "isAvailable st w =
     (case ss_client st of
        None \<Rightarrow> (None, st, w)
      | Some s \<Rightarrow>
          if w_clock w - ss_starttime st < ss_timeoutms st then
            (case wait_for_read s (w_clock w) 10 of
               (False, s1, t1) \<Rightarrow> (Some False, st\<lparr>ss_client := Some s1\<rparr>, w\<lparr>w_clock := t1\<rparr>)
             | (True, s1, t1) \<Rightarrow>
                 if sk_error s1 t1
                 then (Some False, st\<lparr>ss_error := True, ss_client := None\<rparr>, sk_destroy (w\<lparr>w_clock := t1\<rparr>))
                 else poll_read st s1 (w\<lparr>w_clock := t1\<rparr>))
          else (Some False, st\<lparr>ss_error := True, ss_client := None\<rparr>, sk_destroy w))"

definition SStatus_hasError :: "SStatus \<Rightarrow> bool" where
  "SStatus_hasError st = ss_error st"

section \<open>The poller as a state machine\<close>

text \<open>
  The snapshots a caller can hold: one returned by a successful \<^verbatim>\<open>initStatus\<close>, and
  every snapshot a call of \<^verbatim>\<open>isAvailable\<close> on a reachable one leaves (in any world).
\<close>

inductive poll_reach :: "SStatus \<Rightarrow> bool" where
  start: "initStatus lc st0 fast tmo c w = (st, c', w') \<Longrightarrow> ss_init st \<Longrightarrow> poll_reach st"
| step: "poll_reach st \<Longrightarrow> isAvailable st w = (Some b, st', w') \<Longrightarrow> poll_reach st'"

text \<open>
  The state machine of the specification (section 4.4) after \<^verbatim>\<open>init\<close>: \<open>Polling\<close>
  with the self-loops ``no update yet'' and ``updated'', and the terminal \<open>Errored\<close>.
\<close>

datatype poll_phase = Polling | Errored

datatype poll_event = NoUpdate | Update | Fail

inductive spec_poll :: "poll_phase \<Rightarrow> poll_event \<Rightarrow> poll_phase \<Rightarrow> bool" where
  no_update: "spec_poll Polling NoUpdate Polling"
| update: "spec_poll Polling Update Polling"
| fail: "spec_poll Polling Fail Errored"

text \<open>The abstraction: the phase is the poller's error flag; the event is read off a call.\<close>

definition poll_abs :: "SStatus \<Rightarrow> poll_phase" where
  "poll_abs st = (if ss_error st then Errored else Polling)"

definition poll_event_of :: "bool \<Rightarrow> SStatus \<Rightarrow> poll_event" where
  "poll_event_of b st' = (if b then Update else if ss_error st' then Fail else NoUpdate)"

definition snapshot :: "SStatus \<Rightarrow> bytes \<times> bytes \<times> bytes \<times> bool \<times> int \<times> bytes \<times> bool \<times> bool \<times> bool \<times> bytes \<times> int" where
  "snapshot st = (lastbackupdate st, ss_status st, pcdone st, pause st, capa st, new_server st, has_server st,
                  ask_restore_ok st, restore_file st, restore_path st, needs_restore_restart st)"

text \<open>
  The caller's loop: the tray calls \<^verbatim>\<open>isAvailable()\<close> from its timer until it
  reports an update or \<^verbatim>\<open>hasError()\<close> turns true (the polling loop of the
  specification, 4.4). Fuel bounds the number of calls; \<open>None\<close> is running out of it.
\<close>

fun poll_until :: "nat \<Rightarrow> SStatus \<Rightarrow> world \<Rightarrow> (bool option \<times> SStatus \<times> world) option" where
  "poll_until 0 st w = None"
| "poll_until (Suc n) st w =
     (case isAvailable st w of
        (Some False, st', w') \<Rightarrow> if SStatus_hasError st' then Some (Some False, st', w') else poll_until n st' w'
      | r \<Rightarrow> Some r)"

inductive_cases spec_poll_ErroredE: "spec_poll Errored e ph"

section \<open>Lemmas\<close>

lemma apply_params_frame [simp]:
  "ss_error (apply_params x m) = ss_error x" "ss_client (apply_params x m) = ss_client x"
  "ss_init (apply_params x m) = ss_init x"
  by (simp_all add: apply_params_def Let_def split: option.splits)

lemma apply_status_line_frame [simp]:
  "ss_error (apply_status_line x p) = ss_error x" "ss_client (apply_status_line x p) = ss_client x"
  "ss_init (apply_status_line x p) = ss_init x"
  by (simp_all add: apply_status_line_def Let_def)

lemma initStatus_client:
  "initStatus lc st0 fast tmo c w = (st, c', w') \<Longrightarrow> ss_init st \<Longrightarrow> ss_client st \<noteq> None"
  by (auto simp: initStatus_def Let_def split: option.splits prod.splits if_splits)

lemma isAvailable_cases:
  assumes "isAvailable st w = (r, st', w')"
  shows "(ss_client st = None \<and> r = None \<and> st' = st) \<or>
         (\<exists>s. ss_client st = Some s \<and> (\<exists>b. r = Some b) \<and> ss_init st' = ss_init st \<and>
            (ss_client st' = None \<longrightarrow> ss_error st') \<and> (ss_error st \<longrightarrow> ss_error st') \<and>
            (r = Some True \<longrightarrow> ss_error st' = ss_error st) \<and>
            (r = Some False \<and> \<not> ss_error st' \<longrightarrow> snapshot st' = snapshot st))"
  using assms
  by (auto simp: isAvailable_def poll_read_def snapshot_def split: option.splits prod.splits if_splits bool.splits)

lemma poll_reach_inv:
  "poll_reach st \<Longrightarrow> ss_init st \<and> (ss_client st = None \<longrightarrow> ss_error st)"
proof (induction rule: poll_reach.induct)
  case (start lc st0 fast tmo c w st c' w')
  then show ?case using initStatus_client by blast
next
  case (step st w b st' w')
  then show ?case using isAvailable_cases [OF step.hyps(2)] by auto
qed

lemma spec_poll_terminal: "\<not> spec_poll Errored e ph"
  by (auto elim: spec_poll_ErroredE)

lemma wait_for_read_next_arrival:
  assumes "sk_inbuf s = []" and "sk_lost_at s = None" and "sk_arrivals s = (ta, x) # rest"
    and "\<forall>(a, _)\<in>set rest. ta < a" and "t < ta" and "ta \<le> t + tslice" and "x \<noteq> []"
  shows "wait_for_read s t tslice = (True, s\<lparr>sk_inbuf := x, sk_arrivals := rest\<rparr>, ta)"
proof -
  have d: "sk_deliver s t = s" using assms(1,3,5) by (simp add: sk_deliver_def)
  have tw: "takeWhile (\<lambda>(a, _). a \<le> ta) rest = []" "dropWhile (\<lambda>(a, _). a \<le> ta) rest = rest"
    using assms(4) by (cases rest; auto)+
  have "sk_deliver s ta = s\<lparr>sk_inbuf := x, sk_arrivals := rest\<rparr>"
    using assms(1,3) tw by (simp add: sk_deliver_def)
  then show ?thesis
    using assms d by (simp add: wait_for_read_def next_event_def sk_error_def)
qed

lemma poll_read_chunk:
  assumes "sk_inbuf s = x" and "length x \<le> recv_buffer_size" and "sk_lost_at s = None"
  shows "poll_read st s w =
           (case get_packet (ss_tcpstack st @ x) of
              (resp, n, buf') \<Rightarrow>
                if n = 0 then (Some False, st\<lparr>ss_tcpstack := buf', ss_error := True, ss_client := Some (s\<lparr>sk_inbuf := []\<rparr>)\<rparr>, w)
                else (Some True, apply_status_line (st\<lparr>ss_tcpstack := buf', ss_client := Some (s\<lparr>sk_inbuf := []\<rparr>)\<rparr>)
                                   (case resp of Some p \<Rightarrow> p | None \<Rightarrow> []), w))"
  using assms by (simp add: poll_read_def sk_read_def sk_error_def add_data_def)

text \<open>
  A call that reports no update and no error took the wait branch: it was made before the
  deadline and advanced the clock by the 10 ms slice; the deadline is not changed.
\<close>

lemma apply_status_line_deadline [simp]:
  "ss_starttime (apply_status_line x p) = ss_starttime x" "ss_timeoutms (apply_status_line x p) = ss_timeoutms x"
  by (simp_all add: apply_status_line_def apply_params_def Let_def split: option.splits)

text \<open>
  No call changes the deadline: it stays \<^verbatim>\<open>starttime + timeoutms\<close> of
  \<^verbatim>\<open>initStatus\<close>, whatever updates arrive.
\<close>

lemma isAvailable_deadline_fixed:
  "isAvailable st w = (r, st', w') \<Longrightarrow> ss_starttime st' = ss_starttime st \<and> ss_timeoutms st' = ss_timeoutms st"
  by (auto simp: isAvailable_def poll_read_def split: option.splits prod.splits if_splits bool.splits)

lemma isAvailable_no_update:
  assumes "isAvailable st w = (Some False, st', w')" and "\<not> ss_error st'"
  shows "w_clock w' = w_clock w + 10 \<and> w_clock w - ss_starttime st < ss_timeoutms st \<and>
         ss_starttime st' = ss_starttime st \<and> ss_timeoutms st' = ss_timeoutms st"
proof -
  have "w_clock w' = w_clock w + 10 \<and> w_clock w - ss_starttime st < ss_timeoutms st"
    using assms
    by (auto simp: isAvailable_def poll_read_def split: option.splits prod.splits if_splits bool.splits
             dest: wait_for_read_False)
  then show ?thesis using isAvailable_deadline_fixed [OF assms(1)] by blast
qed

text \<open>The number of 10 ms slices left before the deadline decreases with every such call.\<close>

lemma slice_measure_decreases:
  fixes c s t n :: nat
  assumes "c - s < t" and "(s + t - c + 9) div 10 < Suc n"
  shows "(s + t - (c + 10) + 9) div 10 < n"
proof -
  define m where "m = s + t - c"
  have m1: "1 \<le> m" using assms(1) unfolding m_def by linarith
  have hyp: "(m + 9) div 10 < Suc n" using assms(2) unfolding m_def by simp
  show ?thesis
  proof (cases "10 \<le> m")
    case True
    then have "s + t - (c + 10) + 9 = m - 1" unfolding m_def by linarith
    moreover have "(m + 9) div 10 = Suc ((m - 1) div 10)"
      using m1 by (simp add: div_add_self2 [of 10 "m - 1", symmetric] add.commute)
    ultimately show ?thesis using hyp by simp
  next
    case False
    then have "s + t - (c + 10) + 9 = 9" unfolding m_def by linarith
    moreover have "1 \<le> (m + 9) div 10"
      using div_le_mono [of 10 "m + 9" 10] m1 by simp
    ultimately show ?thesis using hyp by simp
  qed
qed

section \<open>Properties\<close>

text \<open>
  C19. Decoding a status line: for any date, status and percentage without \<^verbatim>\<open>#\<close>
  and the pause token \<^verbatim>\<open>P\<close> or \<^verbatim>\<open>NP\<close>, the line
  \<^verbatim>\<open>date#status#pc#P\<close> sets the last backup date, the status, the percentage and
  the pause flag from its tokens in this order, resets the capability bits and
  ask_restore_ok, and leaves every other field as it was; a fifth token is then applied as
  a parameter string. The specification's example is the witness.
\<close>

theorem status_line_fields:
  assumes "CHR ''#'' \<notin> set d" and "CHR ''#'' \<notin> set s" and "CHR ''#'' \<notin> set p"
    and "CHR ''#'' \<notin> set q"
  shows "apply_status_line st (join_on CHR ''#'' [d, s, p, if b then ''P'' else ''NP'']) =
           st\<lparr>lastbackupdate := d, ss_status := s, pcdone := p, pause := b, capa := 0,
              ask_restore_ok := False\<rparr> \<and>
         apply_status_line st (join_on CHR ''#'' [d, s, p, if b then ''P'' else ''NP'', q]) =
           apply_params (st\<lparr>lastbackupdate := d, ss_status := s, pcdone := p, pause := b, capa := 0,
              ask_restore_ok := False\<rparr>) (ParseParamStr q)"
proof -
  have t4: "Tokenize (join_on CHR ''#'' [d, s, p, if b then ''P'' else ''NP'']) CHR ''#'' =
            [d, s, p, if b then ''P'' else ''NP'']"
    unfolding Tokenize_def by (rule split_on_join_on) (use assms in auto)
  have t5: "Tokenize (join_on CHR ''#'' [d, s, p, if b then ''P'' else ''NP'', q]) CHR ''#'' =
            [d, s, p, if b then ''P'' else ''NP'', q]"
    unfolding Tokenize_def by (rule split_on_join_on) (use assms in auto)
  show ?thesis
    unfolding apply_status_line_def Let_def t4 t5
    by (cases b) (auto intro: arg_cong [where f = "\<lambda>x. apply_params x (ParseParamStr q)"])
qed

text \<open>
  C20. Every status update resets \<^verbatim>\<open>capa\<close> and \<^verbatim>\<open>ask_restore_ok\<close> when the line
  does not carry them, while \<^verbatim>\<open>new_server\<close>, \<^verbatim>\<open>has_server\<close> and
  \<^verbatim>\<open>restore_path\<close> keep their previous values: the optional fields are not treated alike.
\<close>

theorem status_line_resets:
  assumes "length (Tokenize l CHR ''#'') \<le> 4"
  shows "capa (apply_status_line st l) = 0 \<and> \<not> ask_restore_ok (apply_status_line st l) \<and>
         new_server (apply_status_line st l) = new_server st \<and>
         has_server (apply_status_line st l) = has_server st \<and>
         restore_path (apply_status_line st l) = restore_path st"
  using assms by (simp add: apply_status_line_def Let_def)

text \<open>
  C21. The poller's error is not terminal: when the status frame arrives in two pieces,
  the first call finds no complete frame, sets the error and keeps the connection; the next
  call completes the frame and updates the snapshot with the error still set, although the
  specification's machine has no step out of \<open>Errored\<close>.
\<close>

theorem poll_error_not_terminal:
  assumes "ss_client st = Some s" and "ss_tcpstack st = []"
    and "sk_inbuf s = []" and "sk_lost_at s = None" and "sk_arrivals s = [(ta, qa), (tb, qb)]"
    and "qa @ qb = tcp_frame p" and "qa \<noteq> []" and "qb \<noteq> []" and "p \<noteq> []"
    and "length (tcp_frame p) \<le> recv_buffer_size"
    and "ss_starttime st \<le> w_clock w" and "w_clock w < ta" and "ta \<le> w_clock w + 10"
    and "ta < tb" and "tb \<le> ta + 10" and "tb < ss_starttime st + ss_timeoutms st"
  shows "case isAvailable st w of (r1, st1, w1) \<Rightarrow>
           r1 = Some False \<and> SStatus_hasError st1 \<and> (\<forall>e ph. \<not> spec_poll (poll_abs st1) e ph) \<and>
           (case isAvailable st1 w1 of (r2, st2, w2) \<Rightarrow>
              r2 = Some True \<and> SStatus_hasError st2 \<and>
              (\<exists>s'. st2 = apply_status_line (st1\<lparr>ss_tcpstack := [], ss_client := Some s'\<rparr>) p))"
proof -
  have len: "length p < 2 ^ 32" using assms(10) by (simp add: recv_buffer_size_def)
  have "length qa + length qb = length (tcp_frame p)" using arg_cong [OF assms(6), of length] by simp
  then have l1: "length qa \<le> recv_buffer_size" and l2: "length qb \<le> recv_buffer_size"
    using assms(10) by linarith+
  let ?s1 = "s\<lparr>sk_inbuf := qa, sk_arrivals := [(tb, qb)]\<rparr>"
  have w1: "wait_for_read s (w_clock w) 10 = (True, ?s1, ta)"
    by (rule wait_for_read_next_arrival) (use assms in auto)
  have g1: "get_packet qa = (None, 0, qa)"
    by (rule get_packet_strict_prefix [OF len assms(6) assms(8)])
  let ?st1 = "st\<lparr>ss_tcpstack := qa, ss_error := True, ss_client := Some (?s1\<lparr>sk_inbuf := []\<rparr>)\<rparr>"
  have step1: "isAvailable st w = (Some False, ?st1, w\<lparr>w_clock := ta\<rparr>)"
    using assms(1,2,4,11-16) w1 g1 l1
    by (simp add: isAvailable_def poll_read_chunk sk_error_def)
  let ?s2 = "?s1\<lparr>sk_inbuf := []\<rparr>"
  have w2: "wait_for_read ?s2 ta 10 = (True, ?s2\<lparr>sk_inbuf := qb, sk_arrivals := []\<rparr>, tb)"
    by (rule wait_for_read_next_arrival) (use assms in auto)
  have g2: "get_packet (qa @ qb) = (Some p, length p, [])"
    using get_packet_tcp_frame [OF len, of "[]"] assms(6) by simp
  have tm: "ta - ss_starttime st < ss_timeoutms st" using assms(11,12,14,16) by linarith
  have "length p \<noteq> 0" using assms(9) by simp
  then have step2: "isAvailable ?st1 (w\<lparr>w_clock := ta\<rparr>) =
      (Some True, apply_status_line (?st1\<lparr>ss_tcpstack := [], ss_client := Some (s\<lparr>sk_arrivals := [], sk_inbuf := []\<rparr>)\<rparr>) p,
       w\<lparr>w_clock := tb\<rparr>)"
    using assms(4) w2 g2 l2 tm
    by (simp add: isAvailable_def poll_read_chunk sk_error_def)
  have err: "ss_error (apply_status_line x p) = ss_error x" for x
    by (simp add: apply_status_line_def apply_params_def Let_def split: option.splits)
  show ?thesis
    using step1 step2 err spec_poll_terminal unfolding SStatus_hasError_def poll_abs_def by auto
qed

text \<open>
  C22. After the deadline, \<^verbatim>\<open>isAvailable\<close> sets the error and drops the client; a
  further call dereferences the \<^verbatim>\<open>NULL\<close> client.
\<close>

theorem isAvailable_timeout_null:
  assumes "ss_client st = Some s" and "ss_timeoutms st \<le> w_clock w - ss_starttime st"
  shows "isAvailable st w = (Some False, st\<lparr>ss_error := True, ss_client := None\<rparr>, sk_destroy w) \<and>
         fst (isAvailable (st\<lparr>ss_error := True, ss_client := None\<rparr>) w') = None"
  using assms by (simp add: isAvailable_def)

text \<open>
  C23. A caller that polls only while \<^verbatim>\<open>hasError()\<close> is false never reaches the
  \<^verbatim>\<open>NULL\<close> client: in every reachable snapshot a dropped client comes with the error set.
\<close>

theorem poll_no_null_deref:
  assumes "poll_reach st" and "\<not> SStatus_hasError st"
  shows "fst (isAvailable st w) \<noteq> None"
proof -
  obtain s where "ss_client st = Some s"
    using poll_reach_inv [OF assms(1)] assms(2) by (cases "ss_client st") (auto simp: SStatus_hasError_def)
  then show ?thesis
    using isAvailable_cases [of st w] by (cases "isAvailable st w") auto
qed

text \<open>
  C24. Refinement: from a reachable snapshot without error, every call of
  \<^verbatim>\<open>isAvailable\<close> is a step of the specification's machine (no update, an update, or
  the failure into \<open>Errored\<close>), and a call without update leaves the decoded fields as
  they were.
\<close>

theorem poll_refines_spec:
  assumes "poll_reach st" and "\<not> SStatus_hasError st" and "isAvailable st w = (r, st', w')"
  shows "\<exists>b. r = Some b \<and> spec_poll (poll_abs st) (poll_event_of b st') (poll_abs st') \<and>
             (\<not> b \<and> \<not> ss_error st' \<longrightarrow> snapshot st' = snapshot st)"
proof -
  obtain s where "ss_client st = Some s"
    using poll_reach_inv [OF assms(1)] assms(2) by (cases "ss_client st") (auto simp: SStatus_hasError_def)
  then obtain b where r: "r = Some b" and sn: "\<not> b \<and> \<not> ss_error st' \<longrightarrow> snapshot st' = snapshot st"
    and up: "b \<longrightarrow> ss_error st' = ss_error st"
    using isAvailable_cases [OF assms(3)] by auto
  have "spec_poll Polling (poll_event_of b st') (poll_abs st')"
    using up assms(2) by (auto simp: poll_event_of_def poll_abs_def SStatus_hasError_def intro: spec_poll.intros)
  then show ?thesis
    using r sn assms(2) by (auto simp: poll_abs_def SStatus_hasError_def)
qed

text \<open>
  C33. Liveness of the poller: a caller that keeps polling a reachable snapshot without
  error gets, within one call more than the number of 10 ms slices left before the
  deadline, either an update or the error flag (and then stops): every call that does
  neither waits one whole slice, and the call at the deadline sets the error.
\<close>

theorem poll_until_live:
  assumes "poll_reach st" and "\<not> SStatus_hasError st"
    and "(ss_starttime st + ss_timeoutms st - w_clock w + 9) div 10 < n"
  shows "\<exists>r st' w'. poll_until n st w = Some (r, st', w') \<and>
           (r = Some True \<or> (r = Some False \<and> SStatus_hasError st'))"
  using assms
proof (induction n arbitrary: st w)
  case 0
  then show ?case by simp
next
  case (Suc n)
  obtain r st' w' where ia: "isAvailable st w = (r, st', w')"
    by (cases "isAvailable st w")
  have "r \<noteq> None"
    using poll_reach_inv [OF Suc.prems(1)] Suc.prems(2) isAvailable_cases [OF ia]
    by (auto simp: SStatus_hasError_def)
  then obtain b where rb: "r = Some b" by blast
  show ?case
  proof (cases "b \<or> SStatus_hasError st'")
    case True
    then show ?thesis using ia rb by (cases b) (auto simp: SStatus_hasError_def)
  next
    case False
    then have nu: "isAvailable st w = (Some False, st', w')" "\<not> ss_error st'"
      using ia rb by (auto simp: SStatus_hasError_def)
    note step = isAvailable_no_update [OF nu]
    have "poll_reach st'" using poll_reach.step [OF Suc.prems(1) nu(1)] .
    moreover have "(ss_starttime st' + ss_timeoutms st' - w_clock w' + 9) div 10 < n"
      using slice_measure_decreases [OF _ Suc.prems(3)] step by simp
    ultimately have "\<exists>r st'' w''. poll_until n st' w' = Some (r, st'', w'') \<and>
           (r = Some True \<or> (r = Some False \<and> SStatus_hasError st''))"
      using Suc.IH False by blast
    then show ?thesis using nu False by (simp add: SStatus_hasError_def)
  qed
qed

text \<open>
  C36. \<^verbatim>\<open>initStatus\<close> keeps the socket balance: the caller's socket and the one it
  may create end up destroyed or held by the returned status object, and at most one is
  created.
\<close>

theorem initStatus_sockets_balanced:
  "case initStatus lc dflt fast tmo c w of (st, c', w') \<Rightarrow>
     w_created w \<le> w_created w' \<and> w_created w' \<le> Suc (w_created w) \<and>
     w_destroyed w' + (if ss_client st = None then 0 else 1) =
       w_destroyed w + (if lc = None then 0 else 1) + (w_created w' - w_created w)"
  by (auto simp: initStatus_def Let_def split: prod.splits option.splits if_splits
           dest!: open_client_sockets)

text \<open>
  C37. \<^verbatim>\<open>isAvailable\<close> creates no socket and destroys the status object's socket
  exactly when it drops it: a socket is never leaked by a path that clears the client,
  nor destroyed while still held.
\<close>

theorem isAvailable_sockets_balanced:
  "case isAvailable st w of (r, st', w') \<Rightarrow>
     w_created w' = w_created w \<and>
     w_destroyed w' + (if ss_client st' = None then 0 else 1) =
       w_destroyed w + (if ss_client st = None then 0 else 1)"
  by (auto simp: isAvailable_def poll_read_def Let_def split: prod.splits option.splits if_splits bool.splits)

text \<open>
  C25. \<^verbatim>\<open>initStatus\<close> without a daemon: the connect is refused at once, so without
  waiting it returns a snapshot with \<^verbatim>\<open>init\<close> false and no client, latches the
  process-wide error, clears busy (even when another command had set it), writes nothing
  and destroys the socket it created.
\<close>

theorem initStatus_no_daemon:
  assumes "w_daemon w = []"
  shows "case initStatus None dflt fast tmo c w of (st, c', w') \<Rightarrow>
           \<not> ss_init st \<and> ss_client st = None \<and> error c' \<and> \<not> busy c' \<and>
           w_wire w' = w_wire w \<and> w_clock w' = w_clock w \<and> w_destroyed w' = Suc (w_destroyed w)"
proof -
  obtain pw c1 where pd: "getPasswordData False False c w = (pw, c1)"
    by (cases "getPasswordData False False c w")
  show ?thesis using pd open_client_no_daemon [OF assms, of tmo c1]
    by (simp add: initStatus_def)
qed

text \<open>
  C26. \<^verbatim>\<open>initStatus\<close> with the caller's healthy socket: no new connection, the
  status command \<^verbatim>\<open>STATUS#pw=...\<close> (or \<^verbatim>\<open>FSTATUS\<close>) is written at once without
  waiting, and the snapshot records the start time and the timeout.
\<close>

theorem initStatus_reuse:
  assumes "\<not> sk_error s (w_clock w)"
  shows "case initStatus (Some s) dflt fast tmo c w of (st, c', w') \<Rightarrow>
           st = dflt\<lparr>ss_init := True, ss_starttime := w_clock w, ss_client := Some s, ss_timeoutms := tmo\<rparr> \<and>
           \<not> error c' \<and> w_clock w' = w_clock w \<and>
           w_wire w' = w_wire w @ [tcp_frame ((if fast then ''FSTATUS'' else ''STATUS'') @ ''#pw='' @
                                              fst (getPasswordData False False c w))]"
proof -
  obtain pw c1 where pd: "getPasswordData False False c w = (pw, c1)"
    by (cases "getPasswordData False False c w")
  then have "\<not> error c1" using getPasswordData_flags by blast
  then show ?thesis using pd assms
    by (simp add: initStatus_def send_request_def sk_write_def request_line_def t_args_def)
qed

section \<open>Witnesses\<close>

theorem status_line_resets_witness:
  "let st = \<lparr>ss_init = True, ss_starttime = 0, ss_timeoutms = 5000, ss_client = None, ss_tcpstack = [],
             ss_error = False, lastbackupdate = [], ss_status = [], pcdone = [], pause = True, capa = 5,
             new_server = ''ident'', has_server = True, ask_restore_ok = True, restore_file = False,
             restore_path = ''/r'', needs_restore_restart = 0\<rparr>;
       st' = apply_status_line st ''2024-01-01#IDLE#0#NP''
   in capa st' = 0 \<and> \<not> ask_restore_ok st' \<and> new_server st' = ''ident'' \<and> has_server st' \<and> restore_path st' = ''/r''"
  unfolding Let_def
  using status_line_resets [where l = "''2024-01-01#IDLE#0#NP''" and
          st = "\<lparr>ss_init = True, ss_starttime = 0, ss_timeoutms = 5000, ss_client = None, ss_tcpstack = [],
             ss_error = False, lastbackupdate = [], ss_status = [], pcdone = [], pause = True, capa = 5,
             new_server = ''ident'', has_server = True, ask_restore_ok = True, restore_file = False,
             restore_path = ''/r'', needs_restore_restart = 0\<rparr>"]
  by (simp add: Tokenize_def)

theorem poll_error_not_terminal_witness:
  "let s = \<lparr>sk_connect = Accepts 0,
            sk_arrivals = [(5, take 3 (tcp_frame ''2024-01-01#IDLE'')), (12, drop 3 (tcp_frame ''2024-01-01#IDLE''))],
            sk_inbuf = [], sk_lost_at = None\<rparr>;
       st = \<lparr>ss_init = True, ss_starttime = 0, ss_timeoutms = 5000, ss_client = Some s, ss_tcpstack = [],
             ss_error = False, lastbackupdate = [], ss_status = [], pcdone = [], pause = False, capa = 0,
             new_server = [], has_server = False, ask_restore_ok = False, restore_file = False,
             restore_path = [], needs_restore_restart = 0\<rparr>;
       w = \<lparr>w_clock = 0, w_files = (\<lambda>_. []), w_daemon = [], w_wire = [], w_ui = [], w_created = 0, w_destroyed = 0\<rparr>
   in case isAvailable st w of (r1, st1, w1) \<Rightarrow>
        r1 = Some False \<and> SStatus_hasError st1 \<and> (\<forall>e ph. \<not> spec_poll (poll_abs st1) e ph) \<and>
        (case isAvailable st1 w1 of (r2, st2, w2) \<Rightarrow>
           r2 = Some True \<and> SStatus_hasError st2 \<and>
           (\<exists>s'. st2 = apply_status_line (st1\<lparr>ss_tcpstack := [], ss_client := Some s'\<rparr>) ''2024-01-01#IDLE''))"
  unfolding Let_def
  by (rule poll_error_not_terminal [where ta = 5 and tb = 12 and qa = "take 3 (tcp_frame ''2024-01-01#IDLE'')"
                                      and qb = "drop 3 (tcp_frame ''2024-01-01#IDLE'')"])
     (simp, simp_all add: tcp_frame_def le32_bytes_def recv_buffer_size_def)

theorem isAvailable_timeout_null_witness:
  "let st = \<lparr>ss_init = True, ss_starttime = 0, ss_timeoutms = 5000, ss_client = Some silent_sock,
             ss_tcpstack = [], ss_error = False, lastbackupdate = [], ss_status = [], pcdone = [],
             pause = False, capa = 0, new_server = [], has_server = False, ask_restore_ok = False,
             restore_file = False, restore_path = [], needs_restore_restart = 0\<rparr>;
       w = \<lparr>w_clock = 6000, w_files = (\<lambda>_. []), w_daemon = [], w_wire = [], w_ui = [], w_created = 0, w_destroyed = 0\<rparr>
   in isAvailable st w = (Some False, st\<lparr>ss_error := True, ss_client := None\<rparr>, sk_destroy w) \<and>
      fst (isAvailable (st\<lparr>ss_error := True, ss_client := None\<rparr>) w) = None"
  unfolding Let_def
  by (rule isAvailable_timeout_null [where s = silent_sock]) simp_all

lemma poll_reach_reuse:
  assumes "\<not> sk_error s (w_clock (w::world))"
  shows "poll_reach (dflt\<lparr>ss_init := True, ss_starttime := w_clock w, ss_client := Some s, ss_timeoutms := tmo\<rparr>)"
proof -
  obtain st c' w' where ini: "initStatus (Some s) dflt False tmo undefined w = (st, c', w')"
    by (cases "initStatus (Some s) dflt False tmo undefined w") auto
  have "st = dflt\<lparr>ss_init := True, ss_starttime := w_clock w, ss_client := Some s, ss_timeoutms := tmo\<rparr>"
    using ini assms by (auto simp: initStatus_def Let_def split: prod.splits)
  then show ?thesis using poll_reach.start [OF ini] by simp
qed

theorem poll_no_null_deref_witness:
  "let s = \<lparr>sk_connect = Accepts 0, sk_arrivals = [], sk_inbuf = [], sk_lost_at = None\<rparr>;
       dflt = \<lparr>ss_init = False, ss_starttime = 0, ss_timeoutms = 0, ss_client = None,
              ss_tcpstack = [], ss_error = False, lastbackupdate = [], ss_status = [], pcdone = [],
              pause = False, capa = 0, new_server = [], has_server = False, ask_restore_ok = False,
              restore_file = False, restore_path = [], needs_restore_restart = 0\<rparr>;
       w = \<lparr>w_clock = 100, w_files = (\<lambda>_. []), w_daemon = [], w_wire = [], w_ui = [], w_created = 0, w_destroyed = 0\<rparr>
   in fst (isAvailable (dflt\<lparr>ss_init := True, ss_starttime := 100, ss_client := Some s, ss_timeoutms := 5000\<rparr>) w)
        \<noteq> None"
  unfolding Let_def
  by (rule poll_no_null_deref, rule poll_reach_reuse [where w = "\<lparr>w_clock = 100, w_files = (\<lambda>_. []), w_daemon = [], w_wire = [], w_ui = [], w_created = 0, w_destroyed = 0\<rparr>", simplified])
     (simp_all add: sk_error_def SStatus_hasError_def)

theorem poll_refines_spec_witness:
  "let s = \<lparr>sk_connect = Accepts 0, sk_arrivals = [(105, tcp_frame ''2024-01-01#IDLE'')], sk_inbuf = [], sk_lost_at = None\<rparr>;
       st = \<lparr>ss_init = True, ss_starttime = 100, ss_timeoutms = 5000, ss_client = Some s,
              ss_tcpstack = [], ss_error = False, lastbackupdate = [], ss_status = [], pcdone = [],
              pause = False, capa = 0, new_server = [], has_server = False, ask_restore_ok = False,
              restore_file = False, restore_path = [], needs_restore_restart = 0\<rparr>;
       w = \<lparr>w_clock = 100, w_files = (\<lambda>_. []), w_daemon = [], w_wire = [], w_ui = [], w_created = 0, w_destroyed = 0\<rparr>;
       st' = fst (snd (isAvailable st w))
   in \<exists>b. fst (isAvailable st w) = Some b \<and> spec_poll (poll_abs st) (poll_event_of b st') (poll_abs st') \<and>
          (\<not> b \<and> \<not> ss_error st' \<longrightarrow> snapshot st' = snapshot st)"
  unfolding Let_def
  by (rule poll_refines_spec [where w = "\<lparr>w_clock = 100, w_files = (\<lambda>_. []), w_daemon = [], w_wire = [], w_ui = [], w_created = 0, w_destroyed = 0\<rparr>"
                                and w' = "snd (snd (isAvailable
        \<lparr>ss_init = True, ss_starttime = 100, ss_timeoutms = 5000,
         ss_client = Some \<lparr>sk_connect = Accepts 0, sk_arrivals = [(105, tcp_frame ''2024-01-01#IDLE'')], sk_inbuf = [], sk_lost_at = None\<rparr>,
         ss_tcpstack = [], ss_error = False, lastbackupdate = [], ss_status = [], pcdone = [],
         pause = False, capa = 0, new_server = [], has_server = False, ask_restore_ok = False,
         restore_file = False, restore_path = [], needs_restore_restart = 0\<rparr>
        \<lparr>w_clock = 100, w_files = (\<lambda>_. []), w_daemon = [], w_wire = [], w_ui = [], w_created = 0, w_destroyed = 0\<rparr>))"],
      rule poll_reach_reuse [where w = "\<lparr>w_clock = 100, w_files = (\<lambda>_. []), w_daemon = [], w_wire = [], w_ui = [], w_created = 0, w_destroyed = 0\<rparr>"
                              and dflt = "\<lparr>ss_init = False, ss_starttime = 0, ss_timeoutms = 0, ss_client = None,
              ss_tcpstack = [], ss_error = False, lastbackupdate = [], ss_status = [], pcdone = [],
              pause = False, capa = 0, new_server = [], has_server = False, ask_restore_ok = False,
              restore_file = False, restore_path = [], needs_restore_restart = 0\<rparr>", simplified])
     (simp_all add: sk_error_def SStatus_hasError_def)

theorem initStatus_no_daemon_witness:
  "case initStatus None
          \<lparr>ss_init = False, ss_starttime = 0, ss_timeoutms = 0, ss_client = None,
           ss_tcpstack = [], ss_error = False, lastbackupdate = [], ss_status = [], pcdone = [],
           pause = False, capa = 0, new_server = [], has_server = False, ask_restore_ok = False,
           restore_file = False, restore_path = [], needs_restore_restart = 0\<rparr>
          False 1000 \<lparr>pw = ''secret'', pw_change = [], busy = True, error = False\<rparr>
          \<lparr>w_clock = 0, w_files = (\<lambda>_. []), w_daemon = [], w_wire = [], w_ui = [], w_created = 0, w_destroyed = 0\<rparr> of (st, c', w') \<Rightarrow>
     \<not> ss_init st \<and> ss_client st = None \<and> error c' \<and> \<not> busy c' \<and> w_wire w' = [] \<and> w_clock w' = 0 \<and>
     w_destroyed w' = 1"
  using initStatus_no_daemon [where w = "\<lparr>w_clock = 0, w_files = (\<lambda>_. []), w_daemon = [], w_wire = [], w_ui = [], w_created = 0, w_destroyed = 0\<rparr>"
          and fast = False and tmo = 1000 and c = "\<lparr>pw = ''secret'', pw_change = [], busy = True, error = False\<rparr>"
          and dflt = "\<lparr>ss_init = False, ss_starttime = 0, ss_timeoutms = 0, ss_client = None,
           ss_tcpstack = [], ss_error = False, lastbackupdate = [], ss_status = [], pcdone = [],
           pause = False, capa = 0, new_server = [], has_server = False, ask_restore_ok = False,
           restore_file = False, restore_path = [], needs_restore_restart = 0\<rparr>"]
  by simp

theorem initStatus_reuse_witness:
  "case initStatus (Some \<lparr>sk_connect = Accepts 0, sk_arrivals = [], sk_inbuf = [], sk_lost_at = None\<rparr>)
          \<lparr>ss_init = False, ss_starttime = 0, ss_timeoutms = 0, ss_client = None,
           ss_tcpstack = [], ss_error = False, lastbackupdate = [], ss_status = [], pcdone = [],
           pause = False, capa = 0, new_server = [], has_server = False, ask_restore_ok = False,
           restore_file = False, restore_path = [], needs_restore_restart = 0\<rparr>
          True 5000 \<lparr>pw = ''secret'', pw_change = [], busy = False, error = True\<rparr>
          \<lparr>w_clock = 42, w_files = (\<lambda>_. []), w_daemon = [], w_wire = [], w_ui = [], w_created = 0, w_destroyed = 0\<rparr> of (st, c', w') \<Rightarrow>
     ss_init st \<and> ss_starttime st = 42 \<and> ss_timeoutms st = 5000 \<and> \<not> error c' \<and> w_clock w' = 42 \<and>
     w_wire w' = [tcp_frame ''FSTATUS#pw=secret'']"
proof -
  let ?s = "\<lparr>sk_connect = Accepts 0, sk_arrivals = [], sk_inbuf = [], sk_lost_at = None\<rparr>"
  let ?c = "\<lparr>pw = ''secret'', pw_change = [], busy = False, error = True\<rparr>"
  let ?w = "\<lparr>w_clock = 42::nat, w_files = (\<lambda>_::string. []::string), w_daemon = [], w_wire = [], w_ui = [], w_created = 0, w_destroyed = 0\<rparr>"
  have pw: "fst (getPasswordData False False ?c ?w) = ''secret''" by (simp add: getPasswordData_def Let_def)
  show ?thesis
    using initStatus_reuse [where s = ?s and w = ?w and fast = True and tmo = 5000 and c = ?c
          and dflt = "\<lparr>ss_init = False, ss_starttime = 0, ss_timeoutms = 0, ss_client = None,
           ss_tcpstack = [], ss_error = False, lastbackupdate = [], ss_status = [], pcdone = [],
           pause = False, capa = 0, new_server = [], has_server = False, ask_restore_ok = False,
           restore_file = False, restore_path = [], needs_restore_restart = 0\<rparr>"] pw
    by (auto simp: sk_error_def split: prod.splits)
qed

theorem poll_until_live_witness:
  "let s = \<lparr>sk_connect = Accepts 0, sk_arrivals = [], sk_inbuf = [], sk_lost_at = None\<rparr>;
       dflt = \<lparr>ss_init = False, ss_starttime = 0, ss_timeoutms = 0, ss_client = None,
              ss_tcpstack = [], ss_error = False, lastbackupdate = [], ss_status = [], pcdone = [],
              pause = False, capa = 0, new_server = [], has_server = False, ask_restore_ok = False,
              restore_file = False, restore_path = [], needs_restore_restart = 0\<rparr>;
       w = \<lparr>w_clock = 100, w_files = (\<lambda>_. []), w_daemon = [], w_wire = [], w_ui = [], w_created = 0, w_destroyed = 0\<rparr>
   in \<exists>r st' w'. poll_until 4 (dflt\<lparr>ss_init := True, ss_starttime := 100, ss_client := Some s, ss_timeoutms := 30\<rparr>) w
        = Some (r, st', w') \<and> (r = Some True \<or> (r = Some False \<and> SStatus_hasError st'))"
  unfolding Let_def
  by (rule poll_until_live, rule poll_reach_reuse [where w = "\<lparr>w_clock = 100, w_files = (\<lambda>_. []), w_daemon = [], w_wire = [], w_ui = [], w_created = 0, w_destroyed = 0\<rparr>", simplified])
     (simp_all add: sk_error_def SStatus_hasError_def)

theorem status_line_fields_witness:
  "apply_status_line \<lparr>ss_init = True, ss_starttime = 0, ss_timeoutms = 5000, ss_client = None,
              ss_tcpstack = [], ss_error = False, lastbackupdate = [], ss_status = [], pcdone = [],
              pause = False, capa = 0, new_server = [], has_server = False, ask_restore_ok = False,
              restore_file = False, restore_path = [], needs_restore_restart = 0\<rparr>
     (join_on CHR ''#'' [''2024-01-01'', ''BACKUP INCR'', ''42'', ''P'', ''capa=5&has_server=true'']) =
   \<lparr>ss_init = True, ss_starttime = 0, ss_timeoutms = 5000, ss_client = None,
              ss_tcpstack = [], ss_error = False, lastbackupdate = ''2024-01-01'', ss_status = ''BACKUP INCR'', pcdone = ''42'',
              pause = True, capa = 5, new_server = [], has_server = True, ask_restore_ok = False,
              restore_file = False, restore_path = [], needs_restore_restart = 0\<rparr>"
proof -
  define st where "st = \<lparr>ss_init = True, ss_starttime = 0, ss_timeoutms = 5000, ss_client = None,
              ss_tcpstack = [], ss_error = False, lastbackupdate = [], ss_status = [], pcdone = [],
              pause = False, capa = 0, new_server = [], has_server = False, ask_restore_ok = False,
              restore_file = False, restore_path = [], needs_restore_restart = 0\<rparr>"
  have "apply_status_line st (join_on CHR ''#'' [''2024-01-01'', ''BACKUP INCR'', ''42'', if True then ''P'' else ''NP'',
                                                  ''capa=5&has_server=true'']) =
          apply_params (st\<lparr>lastbackupdate := ''2024-01-01'', ss_status := ''BACKUP INCR'', pcdone := ''42'',
             pause := True, capa := 0, ask_restore_ok := False\<rparr>) (ParseParamStr ''capa=5&has_server=true'')"
    using status_line_fields [where d = "''2024-01-01''" and s = "''BACKUP INCR''" and p = "''42''"
                                and q = "''capa=5&has_server=true''" and b = True and st = st] by simp
  then show ?thesis
    by (simp add: st_def apply_params_def ParseParamStr_def param_pair_def atoi_def is_space_def is_digit_def
                  digit_val_def)
qed

end
