(* ===== verification/Session.thy ===== *)
theory Session
  imports Connector "HOL-Library.Sublist"
begin

text \<open>
  A caller's session: a sequence of exchanges run one after the other through
  \<^verbatim>\<open>getResponse\<close>, all with the same connection holder (an \<^verbatim>\<open>SConnection\<close>
  that the caller keeps between calls, as the status-details dialog does) and the same
  process-wide statics. The sequence is a list of requests \<open>(cmd, args,
  change_command)\<close>; the callers themselves (the tray) are outside \<^verbatim>\<open>src/\<close>.
\<close>

type_synonym request = "bytes \<times> bytes \<times> bool"

fun session :: "request list \<Rightarrow> sconnection \<Rightarrow> nat \<Rightarrow> bool \<Rightarrow> connector \<Rightarrow> world
                 \<Rightarrow> bytes list \<times> connector \<times> world \<times> sconnection" where
  "session [] conn tmo sb c w = ([], c, w, conn)"
| "session ((cmd, args, ch) # rs) conn tmo sb c w =
     (case getResponse cmd args ch conn tmo sb c w of
        (d, c1, w1, conn1) \<Rightarrow>
          (case session rs conn1 tmo sb c1 w1 of
             (ds, c2, w2, conn2) \<Rightarrow> (d # ds, c2, w2, conn2)))"

text \<open>The frame a request is sent as, with the password current in \<open>c\<close> and \<open>w\<close>.\<close>

definition request_frame :: "bool \<Rightarrow> connector \<Rightarrow> world \<Rightarrow> request \<Rightarrow> bytes" where
  "request_frame sb c w r =
     (case r of (cmd, args, ch) \<Rightarrow> tcp_frame (request_line cmd (fst (getPasswordData ch sb c w)) args))"

section \<open>One exchange, as the session sees it\<close>

text \<open>
  The password an exchange sends: the cached one, or the file's contents when nothing
  is cached.
\<close>

lemma getPasswordData_pw:
  "fst (getPasswordData ch sb c w) =
     (let p = (if ch then pw_change c else pw c) in if p = [] then w_files w (pw_fn ch) else p)"
  by (simp add: getPasswordData_def Let_def)

text \<open>A lookup caches at most the file's contents: later lookups give the same passwords.\<close>

lemma getPasswordData_stable:
  "getPasswordData ch sb c w = (p, c1) \<Longrightarrow>
   fst (getPasswordData k sb' c1 w) = fst (getPasswordData k sb' c w)"
  by (auto simp: getPasswordData_def Let_def split: if_splits)

text \<open>
  The shape of an exchange: the password lookup, the waits of acquiring a client, and,
  when a client was obtained, the request, the waits of the receive loop and the exit of
  the socket guard; the password caches are those of the lookup.
\<close>

lemma getResponse_steps:
  assumes gr: "getResponse cmd args ch conn tmo sb c w = (d, c', w', conn')"
  obtains p c1 w1 where "getPasswordData ch sb c w = (p, c1)"
    and "waits_only (w_clock w) tmo (busy c1, error c1) w w1"
    and "pw c' = pw c1" and "pw_change c' = pw_change c1"
    and "w' = w1 \<or> (\<exists>w3 b. waits_only (w_clock w) tmo (busy c1, error c1) (send_request cmd p args w1) w3 \<and>
                          w' = scoped_socket_exit b w3)"
proof -
  obtain p c1 where pd: "getPasswordData ch sb c w = (p, c1)"
    by (cases "getPasswordData ch sb c w")
  obtain r conn1 w1 where ac: "acquire_client conn (w_clock w) tmo c1 w = (r, conn1, w1)"
    by (cases "acquire_client conn (w_clock w) tmo c1 w")
  have a: "waits_only (w_clock w) tmo (busy c1, error c1) w w1"
    using ac by (rule acquire_client_waits)
  show ?thesis
  proof (cases r)
    case None
    have "pw c' = pw c1 \<and> pw_change c' = pw_change c1 \<and> w' = w1"
      using gr pd ac None by (auto simp: getResponse_def)
    then show ?thesis using that [OF pd a] by blast
  next
    case (Some s)
    obtain rr s' w3 where rl: "recv_loop (w_clock w) tmo [] s c1 (send_request cmd p args w1) = (rr, s', w3)"
      by (cases "recv_loop (w_clock w) tmo [] s c1 (send_request cmd p args w1)")
    have b: "waits_only (w_clock w) tmo (busy c1, error c1) (send_request cmd p args w1) w3"
      using rl by (rule recv_loop_waits)
    have "pw c' = pw c1 \<and> pw_change c' = pw_change c1 \<and> (\<exists>b. w' = scoped_socket_exit b w3)"
      using gr pd ac rl Some
      by (auto simp: getResponse_def split: recv_result.splits intro: exI [of _ False] exI [of _ True] exI [of _ "conn \<noteq> None"])
    then show ?thesis using that [OF pd a] b by blast
  qed
qed

lemma getResponse_wire:
  assumes "getResponse cmd args ch conn tmo sb c w = (d, c', w', conn')"
  shows "w_wire w' = w_wire w \<or> w_wire w' = w_wire w @ [request_frame sb c w (cmd, args, ch)]"
  using assms
proof (rule getResponse_steps)
  fix p c1 w1
  assume pd: "getPasswordData ch sb c w = (p, c1)" and a: "waits_only (w_clock w) tmo (busy c1, error c1) w w1"
    and w: "w' = w1 \<or> (\<exists>w3 b. waits_only (w_clock w) tmo (busy c1, error c1) (send_request cmd p args w1) w3 \<and>
                          w' = scoped_socket_exit b w3)"
  have "w_wire (scoped_socket_exit b w3) = w_wire w3" for b w3
    by (cases b) simp_all
  then show ?thesis
    using a w pd by (auto simp: waits_only_def request_frame_def send_request_def sk_write_def)
qed

lemma getResponse_passwords:
  assumes "getResponse cmd args ch conn tmo sb c w = (d, c', w', conn')"
  shows "request_frame sb c' w' = request_frame sb c w"
  using assms
proof (rule getResponse_steps)
  fix p c1 w1
  assume pd: "getPasswordData ch sb c w = (p, c1)" and a: "waits_only (w_clock w) tmo (busy c1, error c1) w w1"
    and pc: "pw c' = pw c1" "pw_change c' = pw_change c1"
    and w: "w' = w1 \<or> (\<exists>w3 b. waits_only (w_clock w) tmo (busy c1, error c1) (send_request cmd p args w1) w3 \<and>
                          w' = scoped_socket_exit b w3)"
  have "w_files (scoped_socket_exit b w3) = w_files w3" for b w3
    by (cases b) simp_all
  then have f: "w_files w' = w_files w"
    using a w by (auto simp: waits_only_def send_request_def sk_write_def)
  have "fst (getPasswordData k sb c' w') = fst (getPasswordData k sb c1 w)" for k
    using f pc by (simp add: getPasswordData_pw Let_def)
  then have "fst (getPasswordData k sb c' w') = fst (getPasswordData k sb c w)" for k
    using getPasswordData_stable [OF pd] by simp
  then show ?thesis by (auto simp: request_frame_def fun_eq_iff)
qed

section \<open>Properties of a session\<close>

text \<open>
  C38. Ordering: along a session the daemon receives the requests in the order they were
  issued, each at most once and nothing else: the frames written are a subsequence of
  the issued requests' frames, all carrying the password current at the start (the
  files do not change and the cache only takes the file's contents). One reply is
  returned per request.
\<close>

theorem session_requests_in_order:
  "case session rs conn tmo sb c w of (ds, c', w', conn') \<Rightarrow>
     length ds = length rs \<and>
     (\<exists>sent. w_wire w' = w_wire w @ sent \<and> subseq sent (map (request_frame sb c w) rs))"
proof (induction rs arbitrary: conn c w)
  case Nil
  then show ?case by simp
next
  case (Cons r rs)
  obtain cmd args ch where r: "r = (cmd, args, ch)" by (cases r)
  obtain d c1 w1 conn1 where gr: "getResponse cmd args ch conn tmo sb c w = (d, c1, w1, conn1)"
    by (cases "getResponse cmd args ch conn tmo sb c w")
  obtain ds c2 w2 conn2 where ss: "session rs conn1 tmo sb c1 w1 = (ds, c2, w2, conn2)"
    by (cases "session rs conn1 tmo sb c1 w1")
  obtain sent where ih: "length ds = length rs" "w_wire w2 = w_wire w1 @ sent"
      "subseq sent (map (request_frame sb c w) rs)"
    using Cons.IH [where conn = conn1 and c = c1 and w = w1] ss getResponse_passwords [OF gr] by auto
  from getResponse_wire [OF gr]
  have "\<exists>sent'. w_wire w2 = w_wire w @ sent' \<and> subseq sent' (map (request_frame sb c w) (r # rs))"
  proof
    assume "w_wire w1 = w_wire w"
    then show ?thesis using ih by (auto intro: list_emb_Cons)
  next
    assume "w_wire w1 = w_wire w @ [request_frame sb c w (cmd, args, ch)]"
    then show ?thesis using ih r by (auto intro!: exI [of _ "request_frame sb c w (cmd, args, ch) # sent"])
  qed
  then show ?case using gr ss ih(1) r by simp
qed

end
