(* ===== verification/Spec2Isabelle.thy ===== *)
theory Spec2Isabelle
  imports Commands StatusPoller Session
begin

text \<open>
  \<^bold>\<open>A verification model of the UrBackup tray client's daemon connector.\<close>
  The program is \<^verbatim>\<open>src/Connector.cpp\<close>: class \<^verbatim>\<open>Connector\<close>, through which the
  tray frontend talks to the local backup daemon over a loopback TCP connection. Every
  exchange is one command line \<^verbatim>\<open>CMD#pw=<password>&<args>\<close>, sent in a
  length-prefixed frame, and one framed reply that a typed operation decodes (plain
  sentinels, newline-separated lines, or JSON). The status poller (\<^verbatim>\<open>initStatus\<close>,
  \<^verbatim>\<open>SStatus::isAvailable\<close>) sends a status command and reads its reply later.

  \<^bold>\<open>Theories.\<close>
  \<^item> \<^verbatim>\<open>Prelude\<close>: the model's types (\<open>bytes\<close> as character lists, \<open>millis\<close>) and
    shared lemmas on lists and base-256 digits.
  \<^item> \<^verbatim>\<open>Frame\<close>: the frame codec \<^verbatim>\<open>CTCPStack\<close> (outside \<^verbatim>\<open>src/\<close>, modelled from
    the specification): the 32-bit little-endian header over \<open>32 word\<close>
    (\<open>le32_bytes\<close>, \<open>le32_of_bytes\<close>), \<open>tcp_frame\<close> (\<^verbatim>\<open>Send\<close>), \<open>add_data\<close>
    (\<^verbatim>\<open>AddData\<close>) and \<open>get_packet\<close> (\<^verbatim>\<open>getPacket\<close>, which reports size 0 when no
    frame is complete). Lemmas: the header round trip, extraction of a whole frame, no
    extraction from a strict prefix, and \<open>feed_extract_split\<close> (a frame fed in pieces is
    extracted exactly once, at its last piece).
  \<^item> \<^verbatim>\<open>Transport\<close>: the \<^verbatim>\<open>wxSocketClient\<close> calls (outside \<^verbatim>\<open>src/\<close>). The daemon
    is an environment fixed in advance: per socket, when the connection completes or is
    refused, which bytes arrive when (in stream order), and when the connection breaks.
    With no daemon listening, a connection attempt is refused at once (\<open>refused_sock\<close>),
    as on the loopback interface; a daemon socket that never answers the attempt is a
    separate case (\<open>NoAnswer\<close>).
    The world record holds the millisecond clock, the password files, the sockets the
    daemon will hand out, the frames written, the observations made at each
    \<^verbatim>\<open>wxTheApp->Yield()\<close>, and the number of socket objects created
    (\<open>new_client\<close>) and destroyed (\<open>sk_destroy\<close>, \<^verbatim>\<open>Destroy()\<close>). Waits take a 100 ms slice, as the source does, and
    advance the clock by the slice when nothing happens. The clock only advances: the
    source reads the local wall-clock time (\<^verbatim>\<open>wxGetLocalTimeMillis\<close>), and a
    backward step of it is not modelled (see the findings); the time bounds assume none.
  \<^item> \<^verbatim>\<open>Connector\<close>: the statics \<^verbatim>\<open>pw\<close>, \<^verbatim>\<open>pw_change\<close>, \<^verbatim>\<open>busy\<close>, \<^verbatim>\<open>error\<close>
    (record \<open>connector\<close>, passed explicitly), \<open>getPasswordData\<close> (lines 73--119, without
    the branch of debug builds, lines 92--96, which only checks that the file exists) and
    \<open>getResponse\<close> (lines 122--239), split like its body into \<open>acquire_client\<close>,
    \<open>open_client\<close> and \<open>connect_wait\<close> (lines 128--169), \<open>request_line\<close> and
    \<open>send_request\<close> (173--181), \<open>read_wait\<close> and \<open>recv_loop\<close> (183--223), and the
    guard \<^verbatim>\<open>ScopedSocket\<close> (lines 48--69) as \<open>scoped_socket_exit\<close>. The wait
    loops are \<^verbatim>\<open>function\<close>s terminating on the measure \<open>start + timeout - clock\<close>:
    every unsuccessful slice advances the clock by 100, so no fuel is needed.
  \<^item> \<^verbatim>\<open>StringTools\<close> and \<^verbatim>\<open>Json\<close>: the helpers of stringtools and the accessors of
    jsoncpp that the decoders call (outside \<^verbatim>\<open>src/\<close>, modelled from the specification);
    a failing jsoncpp conversion is the left value of a sum, i.e. the exception. The
    conversions follow jsoncpp 1.x, where \<open>asBool\<close> of a string throws; older versions
    (0.5) return whether the string is non-empty, and C15 depends on this choice.
  \<^item> \<^verbatim>\<open>Commands\<close>: every typed operation of lines 246--538 (\<open>getSharedPaths\<close>,
    \<open>saveSharedPaths\<close>, \<open>startBackup\<close>, \<open>startImage\<close>, \<open>updateSettings\<close>,
    \<open>getLogEntries\<close>, \<open>getLogdata\<close>, \<open>setPause\<close>, \<open>addNewServer\<close>,
    \<open>getStatusDetails\<close>, \<open>getAccessParameters\<close>, \<open>getCapabilities\<close>, \<open>restoreOk\<close>),
    each as \<open>getResponse\<close> followed by its decoder, with the source's \<^verbatim>\<open>try\<close>/\<^verbatim>\<open>catch\<close>
    structure. The JSON text parser, the escaping helpers and the default arguments
    declared in \<^verbatim>\<open>Connector.h\<close> are parameters.
  \<^item> \<^verbatim>\<open>Session\<close>: a caller's sequence of exchanges through one connection holder
    (\<open>session\<close>, a list of requests \<open>(cmd, args, change_command)\<close> run left to right
    through \<open>getResponse\<close>), as the callers that keep an \<^verbatim>\<open>SConnection\<close> do; the
    callers are outside \<^verbatim>\<open>src/\<close>. \<open>getResponse_steps\<close> gives the shape of one
    exchange that the session lemmas use.
  \<^item> \<^verbatim>\<open>StatusPoller\<close>: \<open>initStatus\<close> (lines 540--613, reusing \<open>open_client\<close> for
    its copy of the connect code) and \<open>isAvailable\<close> (615--727) on the record
    \<open>SStatus\<close>, which holds the socket (\<open>None\<close> for \<^verbatim>\<open>NULL\<close>), the poller's frame
    buffer, its error flag and the decoded fields; \<open>apply_status_line\<close> and
    \<open>apply_params\<close> decode the \<^verbatim>\<open>#\<close>-separated status line. A call on a \<^verbatim>\<open>NULL\<close>
    client has the result \<open>None\<close>. \<open>poll_until\<close> is the caller's loop (the tray's
    status timer, outside \<^verbatim>\<open>src/\<close>): it calls \<open>isAvailable\<close> until an update or
    \<^verbatim>\<open>hasError()\<close>, with fuel bounding the number of calls (\<open>None\<close> when it runs out). The inductive \<open>poll_reach\<close> collects the snapshots a
    caller can hold; \<open>spec_poll\<close> is the poll machine of the specification (4.4) and
    \<open>poll_abs\<close> the abstraction to it.

  \<^bold>\<open>What is proved.\<close> Of \<open>getResponse\<close>: a reply that arrives in time is returned
  with the request frame \<^verbatim>\<open>cmd#pw=...&args\<close> written once (C1); busy is cleared on
  every path and each yield observes a fixed state (C2); a read timeout latches the error
  after the whole timeout (C3), a missing daemon at once, without waiting (C4), and a
  connect that is never answered after the whole timeout (C29); the number of yields is bounded by the timeout (C5); a reply
  longer than one 1024-byte read is lost (C6, a defect); a cached password is used without
  reading its file (C7); a caller's healthy connection is reused and handed back (C31); every call returns
  within \<open>timeoutms + 99\<close> ms, since the connect and read waits share one deadline and a
  slice started before it overruns it by less than one slice (C32). These rest on the frame
  predicate \<open>polls\<close> of \<^verbatim>\<open>Transport\<close>, which each wait loop satisfies and which
  composes (\<open>getResponse_polls\<close>). No exchange leaks a socket or destroys one twice: what
  it created or took from the caller's holder is destroyed or back in the holder (C35). Over a
  session: the daemon receives a subsequence of the issued requests in issue order, with
  the password current at the start, one reply per request (C38, using \<open>subseq\<close> of
  \<^verbatim>\<open>HOL-Library.Sublist\<close>). Of the decoders: round trips of the directory list, the
  log lines, the log points (read by the \<^verbatim>\<open>linecount\<close>/\<^verbatim>\<open>getline\<close> loop) and
  the status document (C8, C10, C11, C12), the
  defaults of optional fields (C13), the sentinel mapping (C17), the reply of
  \<^verbatim>\<open>restoreOk\<close> (C16) and of \<^verbatim>\<open>getCapabilities\<close> (C18), and the exception paths:
  truncated lists and partly filled records (C9, C14), and the exception that escapes
  \<^verbatim>\<open>restoreOk\<close> (C15); a status record marked \<^verbatim>\<open>ok\<close> holds only values of
  its fields' C types (C34). Of the requests: the arguments of \<^verbatim>\<open>saveSharedPaths\<close>
  parse back through \<^verbatim>\<open>ParseParamStr\<close> (C27) except that unescaped flags can
  override a path (C28, a defect); the arguments of \<^verbatim>\<open>getLogdata\<close> parse back
  (C30). Of the poller: the decoding of a status line's tokens, for any line, with the
  specification's example line as witness (C19), the
  fields reset on every update (C20), an error that is not terminal (C21), the
  \<^verbatim>\<open>NULL\<close> client after a timeout (C22), with a deadline that no update moves
  (\<open>isAvailable_deadline_fixed\<close>: every poller expires \<open>timeoutms\<close> after
  \<^verbatim>\<open>initStatus\<close>), the invariant that makes \<^verbatim>\<open>hasError()\<close>
  a sufficient guard (C23, by rule induction on \<open>poll_reach\<close>), the refinement of the
  specification's machine from error-free snapshots (C24), and \<open>initStatus\<close> without a
  daemon (failing at once) and with a reused socket (C25, C26). Liveness (C33): a caller polling an
  error-free snapshot obtains an update or the error within one call more than the
  number of 10 ms slices left before the deadline; this count is the fuel that suffices,
  since every call that yields neither waits a whole slice (\<open>isAvailable_no_update\<close>).
  The poller keeps the socket balance too: \<open>initStatus\<close> leaves every socket destroyed
  or held by the status object (C36) and \<open>isAvailable\<close> destroys the socket exactly
  when it drops it (C37).

  \<^bold>\<open>Not modelled.\<close> Of \<^verbatim>\<open>src/Connector.cpp\<close> only the licence header, the
  includes, the platform conditionals of lines 26--44 and the declaration of
  \<^verbatim>\<open>g_res_path\<close> have no definition (the password files are indexed by their bare
  names). wxWidgets sockets and jsoncpp are libraries outside \<^verbatim>\<open>src/\<close>, modelled
  only at the interface the code uses. The tray UI, dialogs and event pump (\<^verbatim>\<open>Yield\<close> is an
  observation point only; the callers appear only as \<open>poll_until\<close> and \<open>session\<close>), wxWidgets string conversion (bytes are kept as they are), the
  JSON text parser, jsoncpp's real numbers, and the overflow of C \<^verbatim>\<open>atoi\<close> (undefined
  behaviour). Interleavings of a command with event handlers run at a
  \<^verbatim>\<open>Yield()\<close> are not modelled: the model records what such a handler would observe.
\<close>

end
